theory Spec2Isabelle
  imports Main "HOL-Library.Word" "HOL-Library.Log_Nat"
begin

unbundle bit_operations_syntax

chapter \<open>The RTMP session engine of egg-media-server\<close>

text \<open>
  A shallow embedding of the RTMP session (\<^verbatim>\<open>lib/rtmp/rtmp_session.js\<close>), the AMF
  codec (\<^verbatim>\<open>lib/core/amf.js\<close>) and the broker registries (\<^verbatim>\<open>lib/core/ctx.js\<close>).
  JavaScript numbers that the code uses as integers are \<^typ>\<open>int\<close>; a \<^verbatim>\<open>Buffer\<close> is a
  list of bytes; an exception is a value of type \<open>error\<close> on the left of a sum.
\<close>

section \<open>JavaScript integers and Buffers\<close>

text \<open>
  \<open>RangeError\<close>, \<open>TypeError\<close> and \<open>GenericError\<close> (a \<^verbatim>\<open>throw new Error(...)\<close>) are
  the exceptions of the source. \<open>NotANumber\<close> and \<open>UndefinedValue\<close> are no exceptions:
  they mark the places where the source goes on with \<^verbatim>\<open>NaN\<close> or \<^verbatim>\<open>undefined\<close>, values that
  the integers of this embedding do not have, and \<open>Unmodelled\<close> marks a behaviour of
  JavaScript that the embedding leaves out; the embedding stops there. \<open>Diverges\<close> is the result of a call whose loop
  does not end.
\<close>

datatype error =
  RangeError | TypeError | GenericError | NotANumber | UndefinedValue | Unmodelled | Diverges

type_synonym buffer = "8 word list"

definition returned :: "(error + 'a) option \<Rightarrow> error + 'a" where
  "returned r = (case r of None \<Rightarrow> Inl Diverges | Some x \<Rightarrow> x)"

definition bindE :: "error + 'a \<Rightarrow> ('a \<Rightarrow> error + 'b) \<Rightarrow> error + 'b" where
  "bindE m f = (case m of Inl e \<Rightarrow> Inl e | Inr x \<Rightarrow> f x)"

text \<open>The bitwise operators of JavaScript work on the operands' 32-bit signed values.\<close>

definition ToInt32 :: "int \<Rightarrow> int" where
  "ToInt32 x = (x + 2 ^ 31) mod 2 ^ 32 - 2 ^ 31"

definition js_shl :: "int \<Rightarrow> int \<Rightarrow> int" where
  "js_shl a n = ToInt32 (push_bit (nat (n mod 32)) (ToInt32 a))"

definition js_sar :: "int \<Rightarrow> int \<Rightarrow> int" where
  "js_sar a n = drop_bit (nat (n mod 32)) (ToInt32 a)"

definition js_or :: "int \<Rightarrow> int \<Rightarrow> int" where
  "js_or a b = (ToInt32 a OR ToInt32 b)"

definition js_and :: "int \<Rightarrow> int \<Rightarrow> int" where
  "js_and a b = (ToInt32 a AND ToInt32 b)"

text \<open>The remainder \<^verbatim>\<open>a % b\<close> takes the sign of the dividend.\<close>

definition js_rem :: "int \<Rightarrow> int \<Rightarrow> int" where
  "js_rem a b = sgn a * (\<bar>a\<bar> mod \<bar>b\<bar>)"

text \<open>\<^verbatim>\<open>Buffer.alloc(n)\<close>: \<open>n\<close> zero bytes; a negative size raises.\<close>

definition buf_alloc :: "int \<Rightarrow> error + buffer" where
  "buf_alloc n = (if n < 0 then Inl RangeError else Inr (replicate (nat n) 0))"

text \<open>
  \<^verbatim>\<open>src.copy(tgt, targetStart, sourceStart, sourceEnd)\<close>, returning the target after the
  copy. Node raises on a negative index and on a \<open>sourceStart\<close> past the source; it
  copies nothing when the target start is past the target, and otherwise as many bytes
  as the range, the source and the target's room allow.
\<close>

definition buf_copy :: "buffer \<Rightarrow> buffer \<Rightarrow> int \<Rightarrow> int \<Rightarrow> int \<Rightarrow> error + buffer" where
  "buf_copy src tgt targetStart sourceStart sourceEnd =
     (if targetStart < 0 \<or> sourceStart < 0 \<or> sourceStart > int (length src) \<or> sourceEnd < 0
      then Inl RangeError
      else if targetStart \<ge> int (length tgt) \<or> sourceStart \<ge> sourceEnd then Inr tgt
      else
        let nb = min (min (sourceEnd - sourceStart) (int (length tgt) - targetStart))
                     (int (length src) - sourceStart)
        in Inr (take (nat targetStart) tgt
                @ take (nat nb) (drop (nat sourceStart) src)
                @ drop (nat (targetStart + nb)) tgt))"

text \<open>Big-endian and little-endian byte strings of a number, and their values.\<close>

fun be_bytes :: "nat \<Rightarrow> int \<Rightarrow> buffer" where
  "be_bytes 0 v = []"
| "be_bytes (Suc n) v = be_bytes n (v div 256) @ [word_of_int v]"

definition le_bytes :: "nat \<Rightarrow> int \<Rightarrow> buffer" where
  "le_bytes n v = rev (be_bytes n v)"

definition be_value :: "buffer \<Rightarrow> int" where
  "be_value bs = foldl (\<lambda>a b. a * 256 + uint b) 0 bs"

definition le_value :: "buffer \<Rightarrow> int" where
  "le_value bs = be_value (rev bs)"

text \<open>
  The integer writers of \<^verbatim>\<open>Buffer\<close> raise when the value does not fit the field or the
  field does not fit the buffer; the readers raise when the field does not fit.
\<close>

definition buf_patch :: "buffer \<Rightarrow> int \<Rightarrow> buffer \<Rightarrow> buffer" where
  "buf_patch buf off bs = take (nat off) buf @ bs @ drop (nat off + length bs) buf"

definition writeUIntBE :: "buffer \<Rightarrow> int \<Rightarrow> int \<Rightarrow> nat \<Rightarrow> error + buffer" where
  "writeUIntBE buf v off n =
     (if v < 0 \<or> v \<ge> 2 ^ (8 * n) \<or> off < 0 \<or> off + int n > int (length buf)
      then Inl RangeError
      else Inr (buf_patch buf off (be_bytes n v)))"

definition writeUIntLE :: "buffer \<Rightarrow> int \<Rightarrow> int \<Rightarrow> nat \<Rightarrow> error + buffer" where
  "writeUIntLE buf v off n =
     (if v < 0 \<or> v \<ge> 2 ^ (8 * n) \<or> off < 0 \<or> off + int n > int (length buf)
      then Inl RangeError
      else Inr (buf_patch buf off (le_bytes n v)))"

definition writeUInt8 :: "buffer \<Rightarrow> int \<Rightarrow> int \<Rightarrow> error + buffer" where
  "writeUInt8 buf v off = writeUIntBE buf v off 1"

definition writeUInt16BE :: "buffer \<Rightarrow> int \<Rightarrow> int \<Rightarrow> error + buffer" where
  "writeUInt16BE buf v off = writeUIntBE buf v off 2"

definition writeUInt32BE :: "buffer \<Rightarrow> int \<Rightarrow> int \<Rightarrow> error + buffer" where
  "writeUInt32BE buf v off = writeUIntBE buf v off 4"

definition writeUInt32LE :: "buffer \<Rightarrow> int \<Rightarrow> int \<Rightarrow> error + buffer" where
  "writeUInt32LE buf v off = writeUIntLE buf v off 4"

definition readUIntBE :: "buffer \<Rightarrow> int \<Rightarrow> nat \<Rightarrow> error + int" where
  "readUIntBE buf off n =
     (if off < 0 \<or> off + int n > int (length buf) then Inl RangeError
      else Inr (be_value (take n (drop (nat off) buf))))"

definition readUIntLE :: "buffer \<Rightarrow> int \<Rightarrow> nat \<Rightarrow> error + int" where
  "readUIntLE buf off n =
     (if off < 0 \<or> off + int n > int (length buf) then Inl RangeError
      else Inr (le_value (take n (drop (nat off) buf))))"

definition readUInt8 :: "buffer \<Rightarrow> int \<Rightarrow> error + int" where
  "readUInt8 buf off = readUIntBE buf off 1"

definition readUInt16BE :: "buffer \<Rightarrow> int \<Rightarrow> error + int" where
  "readUInt16BE buf off = readUIntBE buf off 2"

definition readUInt32BE :: "buffer \<Rightarrow> int \<Rightarrow> error + int" where
  "readUInt32BE buf off = readUIntBE buf off 4"

definition readUInt32LE :: "buffer \<Rightarrow> int \<Rightarrow> error + int" where
  "readUInt32LE buf off = readUIntLE buf off 4"

text \<open>
  An indexed read \<^verbatim>\<open>buf[i]\<close> is \<^verbatim>\<open>undefined\<close> out of range (\<open>None\<close>); an indexed
  store \<^verbatim>\<open>buf[i] = v\<close> keeps the low eight bits of \<open>v\<close>, stores 0 for \<^verbatim>\<open>undefined\<close>, and
  does nothing out of range.
\<close>

definition buf_at :: "buffer \<Rightarrow> int \<Rightarrow> int option" where
  "buf_at buf i = (if 0 \<le> i \<and> i < int (length buf) then Some (uint (buf ! nat i)) else None)"

definition buf_set :: "buffer \<Rightarrow> int \<Rightarrow> int option \<Rightarrow> buffer" where
  "buf_set buf i v =
     (if 0 \<le> i \<and> i < int (length buf)
      then buf[nat i := (case v of None \<Rightarrow> 0 | Some x \<Rightarrow> word_of_int x)]
      else buf)"

section \<open>Chunk codec\<close>

subsection \<open>Packets\<close>

text \<open>
  The header fields \<^verbatim>\<open>length\<close> and \<^verbatim>\<open>type\<close> of the source are \<open>len\<close> and
  \<open>type_id\<close> here.
\<close>

record rtmp_header =
  fmt :: int
  cid :: int
  timestamp :: int
  len :: int
  type_id :: int
  stream_id :: int

record rtmp_packet =
  header :: rtmp_header
  clock :: int
  delta :: int
  payload :: "buffer option"
  capacity :: int
  bytes :: int

definition RtmpPacket_create :: "int \<Rightarrow> int \<Rightarrow> rtmp_packet" where
  "RtmpPacket_create f c =
     \<lparr>header = \<lparr>fmt = f, cid = c, timestamp = 0, len = 0, type_id = 0, stream_id = 0\<rparr>,
      clock = 0, delta = 0, payload = None, capacity = 0, bytes = 0\<rparr>"

definition rtmpHeaderSize :: "int \<Rightarrow> int option" where
  "rtmpHeaderSize i =
     (if i = 0 then Some 11 else if i = 1 then Some 7 else if i = 2 then Some 3
      else if i = 3 then Some 0 else None)"

subsection \<open>Encoder\<close>

definition rtmpChunkBasicHeaderCreate :: "int \<Rightarrow> int \<Rightarrow> buffer" where
  "rtmpChunkBasicHeaderCreate f c =
     (if c \<ge> 64 + 255 then
        [word_of_int (js_or (js_shl f 6) 1),
         word_of_int (js_and (c - 64) 0xFF),
         word_of_int (js_and (js_sar (c - 64) 8) 0xFF)]
      else if c \<ge> 64 then
        [word_of_int (js_or (js_shl f 6) 0),
         word_of_int (js_and (c - 64) 0xFF)]
      else
        [word_of_int (js_or (js_shl f 6) c)])"

definition rtmpChunkMessageHeaderCreate :: "rtmp_header \<Rightarrow> error + buffer" where
  "rtmpChunkMessageHeaderCreate h =
     (case rtmpHeaderSize (js_rem (fmt h) 4) of
        None \<Rightarrow> Inl TypeError
      | Some n \<Rightarrow>
          bindE (buf_alloc n) (\<lambda>out0.
          bindE (if fmt h \<le> 2
                 then writeUIntBE out0
                        (if timestamp h \<ge> 0xffffff then 0xffffff else timestamp h) 0 3
                 else Inr out0) (\<lambda>out1.
          bindE (if fmt h \<le> 1
                 then bindE (writeUIntBE out1 (len h) 3 3) (\<lambda>ob. writeUInt8 ob (type_id h) 6)
                 else Inr out1) (\<lambda>out2.
          if fmt h = 0 then writeUInt32LE out2 (stream_id h) 7 else Inr out2))))"

text \<open>
  The loop of \<^verbatim>\<open>rtmpChunksCreate\<close>. Its arguments are the type-3 basic header, the flag
  and value of the extended timestamp, the chunk size, the payload, and the loop's
  variables \<open>payloadSize\<close>, \<open>chunksOffset\<close>, \<open>payloadOffset\<close> and the buffer
  \<open>chunks\<close>. With a chunk size below 1 the source's loop need not end: \<open>None\<close>.
\<close>

partial_function (option) rtmpChunksCreate_loop ::
  "buffer \<Rightarrow> bool \<Rightarrow> int \<Rightarrow> int \<Rightarrow> buffer option \<Rightarrow> int \<Rightarrow> int \<Rightarrow> int \<Rightarrow> buffer
     \<Rightarrow> (error + buffer) option" where
  "rtmpChunksCreate_loop bh3 useExt ts chunkSize pl payloadSize chunksOffset payloadOffset chunks =
     (if payloadSize > 0 then
        (case pl of
           None \<Rightarrow> Some (Inl TypeError)
         | Some pbuf \<Rightarrow>
            (if payloadSize > chunkSize then
               (case buf_copy pbuf chunks chunksOffset payloadOffset (payloadOffset + chunkSize) of
                  Inl e \<Rightarrow> Some (Inl e)
                | Inr c1 \<Rightarrow>
                   (case buf_copy bh3 c1 (chunksOffset + chunkSize) 0 (int (length bh3)) of
                      Inl e \<Rightarrow> Some (Inl e)
                    | Inr c2 \<Rightarrow>
                       (if useExt then
                          (case writeUInt32BE c2 ts (chunksOffset + chunkSize + int (length bh3)) of
                             Inl e \<Rightarrow> Some (Inl e)
                           | Inr c3 \<Rightarrow>
                               rtmpChunksCreate_loop bh3 useExt ts chunkSize pl
                                 (payloadSize - chunkSize)
                                 (chunksOffset + chunkSize + int (length bh3) + 4)
                                 (payloadOffset + chunkSize) c3)
                        else
                          rtmpChunksCreate_loop bh3 useExt ts chunkSize pl
                            (payloadSize - chunkSize)
                            (chunksOffset + chunkSize + int (length bh3))
                            (payloadOffset + chunkSize) c2)))
             else
               (case buf_copy pbuf chunks chunksOffset payloadOffset (payloadOffset + payloadSize) of
                  Inl e \<Rightarrow> Some (Inl e)
                | Inr c1 \<Rightarrow>
                    rtmpChunksCreate_loop bh3 useExt ts chunkSize pl 0
                      chunksOffset payloadOffset c1)))
      else Some (Inr chunks))"

declare rtmpChunksCreate_loop.simps [code]

text \<open>
  \<^verbatim>\<open>rtmpChunksCreate(packet)\<close>, with \<^verbatim>\<open>this.outChunkSize\<close> as first argument. A chunk size of
  0 makes the size \<open>n\<close> of the source infinite or \<^verbatim>\<open>NaN\<close>, which \<^verbatim>\<open>Buffer.alloc\<close>
  refuses.
\<close>

definition rtmpChunksCreate :: "int \<Rightarrow> rtmp_packet \<Rightarrow> error + buffer" where
  "rtmpChunksCreate chunkSize packet =
     (let h = header packet;
          payloadSize = len h;
          chunkBasicHeader = rtmpChunkBasicHeaderCreate (fmt h) (cid h);
          chunkBasicHeader3 = rtmpChunkBasicHeaderCreate 3 (cid h)
      in bindE (rtmpChunkMessageHeaderCreate h) (\<lambda>chunkMessageHeader.
           let useExtendedTimestamp = (timestamp h \<ge> 0xffffff);
               headerSize = int (length chunkBasicHeader) + int (length chunkMessageHeader)
                            + (if useExtendedTimestamp then 4 else 0);
               n0 = headerSize + payloadSize + payloadSize div chunkSize;
               n1 = (if useExtendedTimestamp then n0 + (payloadSize div chunkSize) * 4 else n0);
               n2 = (if js_rem payloadSize chunkSize = 0
                     then (if useExtendedTimestamp then n1 - 1 - 4 else n1 - 1) else n1);
               off2 = int (length chunkBasicHeader) + int (length chunkMessageHeader)
           in if chunkSize = 0 then Inl RangeError
              else
                bindE (buf_alloc n2) (\<lambda>chunks0.
                bindE (buf_copy chunkBasicHeader chunks0 0 0 (int (length chunkBasicHeader)))
                  (\<lambda>chunks1.
                bindE (buf_copy chunkMessageHeader chunks1 (int (length chunkBasicHeader)) 0
                         (int (length chunkMessageHeader))) (\<lambda>chunks2.
                bindE (if useExtendedTimestamp then writeUInt32BE chunks2 (timestamp h) off2
                       else Inr chunks2) (\<lambda>chunks3.
                returned
                  (rtmpChunksCreate_loop chunkBasicHeader3 useExtendedTimestamp (timestamp h)
                     chunkSize (payload packet) payloadSize
                     (if useExtendedTimestamp then off2 + 4 else off2) 0 chunks3)))))))"

subsection \<open>Decoder\<close>

datatype parse_state =
    RTMP_PARSE_INIT
  | RTMP_PARSE_BASIC_HEADER
  | RTMP_PARSE_MESSAGE_HEADER
  | RTMP_PARSE_EXTENDED_TIMESTAMP
  | RTMP_PARSE_PAYLOAD

text \<open>
  The fields of the session that \<^verbatim>\<open>rtmpChunkRead\<close> works on. \<open>parserPacket\<close> is a
  reference to a packet object held by \<open>inPackets\<close>: here it is the key of that packet.
  \<open>dispatched\<close> records each call of \<^verbatim>\<open>rtmpHandler\<close> by the packet it was called
  on, and \<open>socket_written\<close> the buffers written to the socket (\<^verbatim>\<open>this.socket.write\<close>),
  in the order of the calls.
\<close>

record parser =
  parserBuffer :: buffer
  parserState :: parse_state
  parserBytes :: int
  parserBasicBytes :: int
  parserPacket :: "int option"
  inPackets :: "int \<Rightarrow> rtmp_packet option"
  inChunkSize :: int
  ackSize :: int
  inAckSize :: int
  inLastAck :: int
  dispatched :: "rtmp_packet list"
  socket_written :: "buffer list"

text \<open>The parser of a new session (the constructor).\<close>

definition new_parser :: parser where
  "new_parser =
     \<lparr>parserBuffer = replicate 18 0, parserState = RTMP_PARSE_INIT, parserBytes = 0,
      parserBasicBytes = 0, parserPacket = None, inPackets = (\<lambda>c. None), inChunkSize = 128,
      ackSize = 0, inAckSize = 0, inLastAck = 0, dispatched = [], socket_written = []\<rparr>"

text \<open>
  \<open>parserBuffer\<close> is the 18-byte buffer of the constructor for the whole life of the
  session, and the code reads it below index 18 only (3 + 11 + 4), so its reads are
  written with \<open>!\<close>, \<open>take\<close> and \<open>drop\<close>.
\<close>

definition pb_byte :: "'a parser_scheme \<Rightarrow> nat \<Rightarrow> int" where
  "pb_byte s i = uint (parserBuffer s ! i)"

definition pb_readUIntBE :: "'a parser_scheme \<Rightarrow> int \<Rightarrow> nat \<Rightarrow> int" where
  "pb_readUIntBE s off n = be_value (take n (drop (nat off) (parserBuffer s)))"

definition pb_readUInt32LE :: "'a parser_scheme \<Rightarrow> int \<Rightarrow> int" where
  "pb_readUInt32LE s off = le_value (take 4 (drop (nat off) (parserBuffer s)))"

text \<open>
  The inner loops \<^verbatim>\<open>while (this.parserBytes < size && offset < bytes)\<close> that move
  header bytes into \<open>parserBuffer\<close>.
\<close>

function fill_parserBuffer ::
  "buffer \<Rightarrow> int \<Rightarrow> int \<Rightarrow> int \<Rightarrow> 'a parser_scheme \<Rightarrow> int \<Rightarrow> 'a parser_scheme \<times> int" where
  "fill_parserBuffer data p nbytes sz s offset =
     (if parserBytes s < sz \<and> offset < nbytes then
        fill_parserBuffer data p nbytes sz
          (s\<lparr>parserBuffer := buf_set (parserBuffer s) (parserBytes s) (buf_at data (p + offset)),
             parserBytes := parserBytes s + 1\<rparr>)
          (offset + 1)
      else (s, offset))"
  by pat_completeness auto
termination
  by (relation "measure (\<lambda>(data, p, nbytes, sz, s, offset). nat (sz - parserBytes s))") auto

declare fill_parserBuffer.simps [simp del]

definition rtmpChunkMessageHeaderRead :: "'a parser_scheme \<Rightarrow> rtmp_packet \<Rightarrow> rtmp_packet" where
  "rtmpChunkMessageHeaderRead s pk =
     (let offset0 = parserBasicBytes s;
          pk1 = (if fmt (header pk) \<le> 2
                 then pk\<lparr>header := (header pk)\<lparr>timestamp := pb_readUIntBE s offset0 3\<rparr>\<rparr>
                 else pk);
          offset1 = (if fmt (header pk) \<le> 2 then offset0 + 3 else offset0);
          pk2 = (if fmt (header pk1) \<le> 1
                 then pk1\<lparr>header := (header pk1)\<lparr>len := pb_readUIntBE s offset1 3,
                                                   type_id := pb_byte s (nat (offset1 + 3))\<rparr>\<rparr>
                 else pk1);
          offset2 = (if fmt (header pk1) \<le> 1 then offset1 + 4 else offset1)
      in if fmt (header pk2) = 0
         then pk2\<lparr>header := (header pk2)\<lparr>stream_id := pb_readUInt32LE s offset2\<rparr>\<rparr>
         else pk2)"

text \<open>
  The chunk-stream id as \<^verbatim>\<open>rtmpPacketParse\<close> computes it. In
  \<^verbatim>\<open>64 + this.parserBuffer[1] + this.parserBuffer[2] << 8\<close> the sum binds tighter than
  the shift.
\<close>

definition rtmpPacketParse_cid :: "'a parser_scheme \<Rightarrow> int" where
  "rtmpPacketParse_cid s =
     (if parserBasicBytes s = 2 then 64 + pb_byte s 1
      else if parserBasicBytes s = 3 then js_shl (64 + pb_byte s 1 + pb_byte s 2) 8
      else js_and (pb_byte s 0) 0x3F)"

definition rtmpPacketParse :: "'a parser_scheme \<Rightarrow> 'a parser_scheme" where
  "rtmpPacketParse s =
     (let f = js_sar (pb_byte s 0) 6;
          c = rtmpPacketParse_cid s;
          pk0 = (case inPackets s c of None \<Rightarrow> RtmpPacket_create f c | Some pk \<Rightarrow> pk);
          pk1 = pk0\<lparr>header := (header pk0)\<lparr>fmt := f, cid := c\<rparr>\<rparr>
      in s\<lparr>parserPacket := Some c,
           inPackets := (inPackets s)(c \<mapsto> rtmpChunkMessageHeaderRead s pk1)\<rparr>)"

definition rtmpPacketAlloc :: "rtmp_packet \<Rightarrow> rtmp_packet" where
  "rtmpPacketAlloc pk =
     (if capacity pk < len (header pk)
      then pk\<lparr>payload := Some (replicate (nat (len (header pk) + 1024)) 0),
              capacity := len (header pk) + 1024\<rparr>
      else pk)"

text \<open>The packet that \<open>parserPacket\<close> refers to; \<^verbatim>\<open>null\<close> has no fields.\<close>

definition cur_packet :: "'a parser_scheme \<Rightarrow> error + rtmp_packet" where
  "cur_packet s =
     (case parserPacket s of
        None \<Rightarrow> Inl TypeError
      | Some c \<Rightarrow> (case inPackets s c of None \<Rightarrow> Inl TypeError | Some pk \<Rightarrow> Inr pk))"

definition set_packet :: "'a parser_scheme \<Rightarrow> rtmp_packet \<Rightarrow> 'a parser_scheme" where
  "set_packet s pk =
     (case parserPacket s of None \<Rightarrow> s | Some c \<Rightarrow> s\<lparr>inPackets := (inPackets s)(c \<mapsto> pk)\<rparr>)"

definition rtmpControlHandler :: "'a parser_scheme \<Rightarrow> error + 'a parser_scheme" where
  "rtmpControlHandler s =
     bindE (cur_packet s) (\<lambda>pk.
       if type_id (header pk) = 1 then
         (case payload pk of
            None \<Rightarrow> Inl TypeError
          | Some b \<Rightarrow> bindE (readUInt32BE b 0) (\<lambda>v. Inr (s\<lparr>inChunkSize := v\<rparr>)))
       else if type_id (header pk) = 5 then
         (case payload pk of
            None \<Rightarrow> Inl TypeError
          | Some b \<Rightarrow> bindE (readUInt32BE b 0) (\<lambda>v. Inr (s\<lparr>ackSize := v\<rparr>)))
       else Inr s)"

text \<open>
  The handlers of the layer above the parser, which \<^verbatim>\<open>rtmpHandler\<close> calls by the type of
  the message: \<^verbatim>\<open>rtmpAudioHandler\<close> (type 8), \<^verbatim>\<open>rtmpVideoHandler\<close> (type 9),
  \<^verbatim>\<open>rtmpInvokeHandler\<close> (types 17 and 20) and \<^verbatim>\<open>rtmpDataHandler\<close> (types 15 and 18).
  They work on the session and the broker and may raise; the parser is given them as
  a function \<open>H\<close> of the handler and the parser's fields, with the fields or the
  exception that the call leaves.
\<close>

datatype upper_handler = AudioHandler | VideoHandler | InvokeHandler | DataHandler

text \<open>
  \<^verbatim>\<open>rtmpHandler\<close>: the \<^verbatim>\<open>switch\<close> on the type of the message. The call is recorded in
  \<open>dispatched\<close>. \<^verbatim>\<open>rtmpEventHandler\<close> (type 4) has an empty body, and a type without a
  case only logs.
\<close>

definition rtmpHandler ::
  "(upper_handler \<Rightarrow> 'a parser_scheme \<Rightarrow> error + 'a parser_scheme) \<Rightarrow> 'a parser_scheme
     \<Rightarrow> error + 'a parser_scheme" where
  "rtmpHandler H s =
     bindE (cur_packet s) (\<lambda>pk.
       let s1 = s\<lparr>dispatched := dispatched s @ [pk]\<rparr>;
           t = type_id (header pk)
       in if t = 1 \<or> t = 2 \<or> t = 3 \<or> t = 5 \<or> t = 6 then rtmpControlHandler s1
          else if t = 4 then Inr s1
          else if t = 8 then H AudioHandler s1
          else if t = 9 then H VideoHandler s1
          else if t = 17 \<or> t = 20 then H InvokeHandler s1
          else if t = 15 \<or> t = 18 then H DataHandler s1
          else Inr s1)"

text \<open>Handlers that return and leave the parser's fields as they are.\<close>

definition quiet :: "upper_handler \<Rightarrow> 'a parser_scheme \<Rightarrow> error + 'a parser_scheme" where
  "quiet k s = Inr s"

text \<open>
  One turn of the \<^verbatim>\<open>while (offset < bytes)\<close> loop of \<^verbatim>\<open>rtmpChunkRead\<close>: the
  \<^verbatim>\<open>switch\<close> on \<open>parserState\<close>. The local \<^verbatim>\<open>extended_timestamp\<close> is read only where the
  same turn has just set it. With \<open>inChunkSize = 0\<close> the size of the payload state is
  \<^verbatim>\<open>NaN\<close>.
\<close>

definition rtmpChunkRead_step ::
  "(upper_handler \<Rightarrow> 'a parser_scheme \<Rightarrow> error + 'a parser_scheme) \<Rightarrow> buffer \<Rightarrow> int \<Rightarrow> int
     \<Rightarrow> 'a parser_scheme \<Rightarrow> int \<Rightarrow> error + 'a parser_scheme \<times> int" where
  "rtmpChunkRead_step H data p nbytes s offset =
     (case parserState s of
        RTMP_PARSE_INIT \<Rightarrow>
          (let s1 = s\<lparr>parserBytes := 1,
                      parserBuffer := buf_set (parserBuffer s) 0 (buf_at data (p + offset))\<rparr>;
               low = js_and (pb_byte s1 0) 0x3F;
               s2 = s1\<lparr>parserBasicBytes := (if low = 0 then 2 else if low = 1 then 3 else 1)\<rparr>
           in Inr (s2\<lparr>parserState := RTMP_PARSE_BASIC_HEADER\<rparr>, offset + 1))
      | RTMP_PARSE_BASIC_HEADER \<Rightarrow>
          (case fill_parserBuffer data p nbytes (parserBasicBytes s) s offset of
             (s1, offset1) \<Rightarrow>
               Inr (if parserBytes s1 \<ge> parserBasicBytes s1
                    then s1\<lparr>parserState := RTMP_PARSE_MESSAGE_HEADER\<rparr> else s1, offset1))
      | RTMP_PARSE_MESSAGE_HEADER \<Rightarrow>
          (case rtmpHeaderSize (js_sar (pb_byte s 0) 6) of
             None \<Rightarrow> Inl UndefinedValue
           | Some hs \<Rightarrow>
              (case fill_parserBuffer data p nbytes (hs + parserBasicBytes s) s offset of
                 (s1, offset1) \<Rightarrow>
                   Inr (if parserBytes s1 \<ge> hs + parserBasicBytes s
                        then (rtmpPacketParse s1)\<lparr>parserState := RTMP_PARSE_EXTENDED_TIMESTAMP\<rparr>
                        else s1, offset1)))
      | RTMP_PARSE_EXTENDED_TIMESTAMP \<Rightarrow>
          bindE (cur_packet s) (\<lambda>pk0.
            case rtmpHeaderSize (fmt (header pk0)) of
              None \<Rightarrow> Inl UndefinedValue
            | Some hs \<Rightarrow>
               (let sz = hs + parserBasicBytes s
                           + (if timestamp (header pk0) = 0xFFFFFF then 4 else 0)
                in case fill_parserBuffer data p nbytes sz s offset of
                     (s1, offset1) \<Rightarrow>
                       if parserBytes s1 \<ge> sz then
                         (let ts = (if timestamp (header pk0) = 0xFFFFFF
                                    then pb_readUIntBE s1 (hs + parserBasicBytes s1) 4
                                    else timestamp (header pk0));
                              pk1 = (if bytes pk0 = 0
                                     then rtmpPacketAlloc
                                            (if fmt (header pk0) = 0
                                             then pk0\<lparr>clock := ts, delta := 0\<rparr>
                                             else pk0\<lparr>delta := ts\<rparr>)
                                     else pk0)
                          in Inr ((set_packet s1 pk1)\<lparr>parserState := RTMP_PARSE_PAYLOAD\<rparr>,
                                  offset1))
                       else Inr (s1, offset1)))
      | RTMP_PARSE_PAYLOAD \<Rightarrow>
          bindE (cur_packet s) (\<lambda>pk0.
            if inChunkSize s = 0 then Inl NotANumber
            else
              (let sz = min (min (inChunkSize s - js_rem (bytes pk0) (inChunkSize s))
                                   (len (header pk0) - bytes pk0))
                              (nbytes - offset)
               in bindE (if sz > 0 then
                           (case payload pk0 of
                              None \<Rightarrow> Inl TypeError
                            | Some pl \<Rightarrow>
                                bindE (buf_copy data pl (bytes pk0) (p + offset) (p + offset + sz))
                                  (\<lambda>pl'. Inr (pk0\<lparr>payload := Some pl'\<rparr>)))
                         else Inr pk0) (\<lambda>pk1.
                    let pk2 = pk1\<lparr>bytes := bytes pk1 + sz\<rparr>;
                        offset1 = offset + sz
                    in if bytes pk2 \<ge> len (header pk2) then
                         bindE (rtmpHandler H
                                  (set_packet (s\<lparr>parserState := RTMP_PARSE_INIT\<rparr>)
                                     (pk2\<lparr>bytes := 0, clock := clock pk2 + delta pk2\<rparr>)))
                           (\<lambda>s'. Inr (s', offset1))
                       else if js_rem (bytes pk2) (inChunkSize s) = 0 then
                         Inr (set_packet (s\<lparr>parserState := RTMP_PARSE_INIT\<rparr>) pk2, offset1)
                       else Inr (set_packet s pk2, offset1)))))"

partial_function (option) rtmpChunkRead_loop ::
  "(upper_handler \<Rightarrow> 'a parser_scheme \<Rightarrow> error + 'a parser_scheme) \<Rightarrow> buffer \<Rightarrow> int \<Rightarrow> int
     \<Rightarrow> 'a parser_scheme \<Rightarrow> int \<Rightarrow> (error + 'a parser_scheme) option" where
  "rtmpChunkRead_loop H data p nbytes s offset =
     (if offset < nbytes then
        (case rtmpChunkRead_step H data p nbytes s offset of
           Inl e \<Rightarrow> Some (Inl e)
         | Inr (s', offset') \<Rightarrow> rtmpChunkRead_loop H data p nbytes s' offset')
      else Some (Inr s))"

declare rtmpChunkRead_loop.simps [code]

definition sendACK :: "'a parser_scheme \<Rightarrow> int \<Rightarrow> error + 'a parser_scheme" where
  "sendACK s sz =
     bindE (writeUInt32BE [0x02, 0, 0, 0, 0, 0, 0x04, 0x03, 0, 0, 0, 0, 0, 0, 0, 0] sz 12)
       (\<lambda>rtmpBuffer. Inr (s\<lparr>socket_written := socket_written s @ [rtmpBuffer]\<rparr>))"

text \<open>
  The acknowledgement accounting that ends \<^verbatim>\<open>rtmpChunkRead(data, p, bytes)\<close>, and
  \<^verbatim>\<open>rtmpChunkRead\<close>: the loop, then the accounting.
\<close>

definition acknowledge :: "buffer \<Rightarrow> 'a parser_scheme \<Rightarrow> error + 'a parser_scheme" where
  "acknowledge data s1 =
     (let s2 = s1\<lparr>inAckSize := inAckSize s1 + int (length data)\<rparr>;
          s3 = (if inAckSize s2 \<ge> 0xf0000000 then s2\<lparr>inAckSize := 0, inLastAck := 0\<rparr> else s2)
      in if ackSize s3 > 0 \<and> inAckSize s3 - inLastAck s3 \<ge> ackSize s3
         then sendACK (s3\<lparr>inLastAck := inAckSize s3\<rparr>) (inAckSize s3)
         else Inr s3)"

definition rtmpChunkRead ::
  "(upper_handler \<Rightarrow> 'a parser_scheme \<Rightarrow> error + 'a parser_scheme) \<Rightarrow> buffer \<Rightarrow> int \<Rightarrow> int
     \<Rightarrow> 'a parser_scheme \<Rightarrow> error + 'a parser_scheme" where
  "rtmpChunkRead H data p nbytes s =
     bindE (returned (rtmpChunkRead_loop H data p nbytes s 0)) (acknowledge data)"

subsection \<open>A message on the wire\<close>

text \<open>
  The layout that the properties below are stated with: the payload in pieces of \<open>n\<close>
  bytes, with \<open>sep\<close> (a type-3 basic header, and the extended timestamp if there is
  one) between two pieces.
\<close>

function chunked :: "nat \<Rightarrow> buffer \<Rightarrow> buffer \<Rightarrow> buffer" where
  "chunked n sep pl =
     (if n = 0 \<or> length pl \<le> n then pl else take n pl @ sep @ chunked n sep (drop n pl))"
  by pat_completeness auto
termination
  by (relation "measure (\<lambda>(n, sep, pl). length pl)") auto

declare chunked.simps [simp del]

text \<open>
  The message header of a type-0 or type-1 chunk (timestamp, length and type
  big-endian, and for type 0 the message stream id little-endian), the extended
  timestamp that follows it when the timestamp is \<open>0xFFFFFF\<close> or more, and the bytes of
  a whole message: basic header, message header, extended timestamp, and the payload
  in chunks.
\<close>

definition message_header :: "int \<Rightarrow> int \<Rightarrow> int \<Rightarrow> int \<Rightarrow> int \<Rightarrow> buffer" where
  "message_header f tsv l t sid =
     be_bytes 3 tsv @ be_bytes 3 l @ be_bytes 1 t @ (if f = 0 then le_bytes 4 sid else [])"

definition ext_timestamp :: "int \<Rightarrow> buffer" where
  "ext_timestamp ts = (if ts \<ge> 0xffffff then be_bytes 4 ts else [])"

definition chunk_stream :: "nat \<Rightarrow> int \<Rightarrow> int \<Rightarrow> int \<Rightarrow> int \<Rightarrow> int \<Rightarrow> buffer \<Rightarrow> buffer" where
  "chunk_stream C f c ts t sid P =
     rtmpChunkBasicHeaderCreate f c
     @ message_header f (if ts \<ge> 0xffffff then 0xffffff else ts) (int (length P)) t sid
     @ ext_timestamp ts
     @ chunked C (rtmpChunkBasicHeaderCreate 3 c @ ext_timestamp ts) P"

section \<open>AMF codec\<close>

subsection \<open>Strings and values of JavaScript\<close>

text \<open>
  A string of JavaScript is a sequence of UTF-16 code units; its \<^verbatim>\<open>length\<close> counts them.
  \<open>js\<close> turns an ASCII literal into such a string.
\<close>

type_synonym jstring = "nat list"

definition js :: "string \<Rightarrow> jstring" where
  "js s = map of_char s"

text \<open>
  \<^verbatim>\<open>Buffer.from(str, 'utf8')\<close>: a surrogate pair is one code point of four bytes, a lone
  surrogate is encoded as U+FFFD.
\<close>

fun utf8_encode :: "jstring \<Rightarrow> buffer" where
  "utf8_encode [] = []"
| "utf8_encode (u # us) =
     (if u < 0x80 then of_nat u # utf8_encode us
      else if u < 0x800 then of_nat (0xC0 + u div 64) # of_nat (0x80 + u mod 64) # utf8_encode us
      else if 0xD800 \<le> u \<and> u < 0xDC00 then
        (case us of
           [] \<Rightarrow> [0xEF, 0xBF, 0xBD]
         | l # r \<Rightarrow>
             if 0xDC00 \<le> l \<and> l < 0xE000 then
               (let cp = 0x10000 + (u - 0xD800) * 0x400 + (l - 0xDC00)
                in of_nat (0xF0 + cp div 0x40000) # of_nat (0x80 + cp div 0x1000 mod 64)
                   # of_nat (0x80 + cp div 64 mod 64) # of_nat (0x80 + cp mod 64)
                   # utf8_encode r)
             else 0xEF # 0xBF # 0xBD # utf8_encode us)
      else if 0xDC00 \<le> u \<and> u < 0xE000 then 0xEF # 0xBF # 0xBD # utf8_encode us
      else of_nat (0xE0 + u div 0x1000) # of_nat (0x80 + u div 64 mod 64)
           # of_nat (0x80 + u mod 64) # utf8_encode us)"

text \<open>
  \<^verbatim>\<open>buf.toString('utf8')\<close>: every maximal ill-formed part of the input becomes U+FFFD;
  a code point past U+FFFF becomes a surrogate pair.
\<close>

definition utf8_cont :: "8 word \<Rightarrow> bool" where
  "utf8_cont b = (0x80 \<le> b \<and> b \<le> 0xBF)"

fun utf8_decode :: "buffer \<Rightarrow> jstring" where
  "utf8_decode [] = []"
| "utf8_decode (b0 # bs) =
     (if b0 < 0x80 then unat b0 # utf8_decode bs
      else if 0xC2 \<le> b0 \<and> b0 \<le> 0xDF then
        (case bs of
           b1 # r1 \<Rightarrow>
             if utf8_cont b1 then ((unat b0 - 0xC0) * 64 + (unat b1 - 0x80)) # utf8_decode r1
             else 0xFFFD # utf8_decode bs
         | [] \<Rightarrow> [0xFFFD])
      else if 0xE0 \<le> b0 \<and> b0 \<le> 0xEF then
        (case bs of
           b1 # r1 \<Rightarrow>
             if (if b0 = 0xE0 then 0xA0 \<le> b1 \<and> b1 \<le> 0xBF
                 else if b0 = 0xED then 0x80 \<le> b1 \<and> b1 \<le> 0x9F
                 else utf8_cont b1) then
               (case r1 of
                  b2 # r2 \<Rightarrow>
                    if utf8_cont b2 then
                      ((unat b0 - 0xE0) * 0x1000 + (unat b1 - 0x80) * 64 + (unat b2 - 0x80))
                      # utf8_decode r2
                    else 0xFFFD # utf8_decode r1
                | [] \<Rightarrow> [0xFFFD])
             else 0xFFFD # utf8_decode bs
         | [] \<Rightarrow> [0xFFFD])
      else if 0xF0 \<le> b0 \<and> b0 \<le> 0xF4 then
        (case bs of
           b1 # r1 \<Rightarrow>
             if (if b0 = 0xF0 then 0x90 \<le> b1 \<and> b1 \<le> 0xBF
                 else if b0 = 0xF4 then 0x80 \<le> b1 \<and> b1 \<le> 0x8F
                 else utf8_cont b1) then
               (case r1 of
                  b2 # r2 \<Rightarrow>
                    if utf8_cont b2 then
                      (case r2 of
                         b3 # r3 \<Rightarrow>
                           if utf8_cont b3 then
                             (let cp = (unat b0 - 0xF0) * 0x40000 + (unat b1 - 0x80) * 0x1000
                                       + (unat b2 - 0x80) * 64 + (unat b3 - 0x80)
                              in (0xD800 + (cp - 0x10000) div 0x400)
                                 # (0xDC00 + (cp - 0x10000) mod 0x400) # utf8_decode r3)
                           else 0xFFFD # utf8_decode r2
                       | [] \<Rightarrow> [0xFFFD])
                    else 0xFFFD # utf8_decode r1
                | [] \<Rightarrow> [0xFFFD])
             else 0xFFFD # utf8_decode bs
         | [] \<Rightarrow> [0xFFFD])
      else 0xFFFD # utf8_decode bs)"

text \<open>
  \<^verbatim>\<open>buf.slice(start)\<close> (a negative start counts from the end) and
  \<^verbatim>\<open>buf.toString('utf8', start, end)\<close> (both ends are clamped to the buffer).
\<close>

definition buf_slice :: "buffer \<Rightarrow> int \<Rightarrow> buffer" where
  "buf_slice buf k = (if k < 0 then drop (nat (int (length buf) + k)) buf else drop (nat k) buf)"

definition buf_toString :: "buffer \<Rightarrow> int \<Rightarrow> int \<Rightarrow> jstring" where
  "buf_toString buf a b = utf8_decode (take (nat (b - a)) (drop (nat a) buf))"

text \<open>
  The values that the codec handles. A number is its IEEE-754 double, given by its 64
  bits, so that \<^verbatim>\<open>writeDoubleBE\<close> and \<^verbatim>\<open>readDoubleBE\<close> move these bits (the codec
  does no arithmetic on the numbers it carries; a \<^verbatim>\<open>NaN\<close> is read back with the bits it
  was written with). An object is the list of its own enumerable properties in the
  order of \<^verbatim>\<open>for (k in o)\<close>; an array carries the flag \<^verbatim>\<open>sarray\<close> that
  \<^verbatim>\<open>amf0markSArray\<close> sets.
\<close>

datatype jsval =
    JUndefined
  | JNull
  | JBool bool
  | JNumber "64 word"
  | JString jstring
  | JObject "(jstring \<times> jsval) list"
  | JArray bool "jsval list"

text \<open>The double of an integer below \<open>2 ^ 53\<close> in absolute value (exact).\<close>

definition double_of_int :: "int \<Rightarrow> 64 word" where
  "double_of_int n =
     (if n = 0 then 0
      else
        let e = floorlog 2 (nat \<bar>n\<bar>) - 1;
            frac = (\<bar>n\<bar> - 2 ^ e) * 2 ^ (52 - e)
        in word_of_int ((if n < 0 then 2 ^ 63 else 0) + (1023 + int e) * 2 ^ 52 + frac))"

definition writeDoubleBE :: "buffer \<Rightarrow> 64 word \<Rightarrow> int \<Rightarrow> error + buffer" where
  "writeDoubleBE buf d off =
     (if off < 0 \<or> off + 8 > int (length buf) then Inl RangeError
      else Inr (buf_patch buf off (be_bytes 8 (uint d))))"

definition readDoubleBE :: "buffer \<Rightarrow> int \<Rightarrow> error + 64 word" where
  "readDoubleBE buf off = bindE (readUIntBE buf off 8) (\<lambda>v. Inr (word_of_int v))"

text \<open>The decimal numeral of a natural number, as \<^verbatim>\<open>String(n)\<close> gives it.\<close>

fun dec_str :: "nat \<Rightarrow> jstring" where
  "dec_str n = (if n < 10 then [48 + n] else dec_str (n div 10) @ [48 + n mod 10])"

declare dec_str.simps [simp del]

text \<open>
  The own properties of an object are enumerated with the array indices first, in
  ascending order, and then the other keys in the order of their creation. An array
  index is the canonical numeral of a number below \<open>2 ^ 32 - 1\<close>.
\<close>

definition array_index :: "jstring \<Rightarrow> nat option" where
  "array_index k =
     (if k \<noteq> [] \<and> list_all (\<lambda>c. 48 \<le> c \<and> c \<le> 57) k \<and> (length k = 1 \<or> hd k \<noteq> 48)
         \<and> foldl (\<lambda>a c. a * 10 + (c - 48)) 0 k < 2 ^ 32 - 1
      then Some (foldl (\<lambda>a c. a * 10 + (c - 48)) 0 k) else None)"

fun obj_insert_index :: "nat \<Rightarrow> jstring \<Rightarrow> jsval \<Rightarrow> (jstring \<times> jsval) list \<Rightarrow> (jstring \<times> jsval) list" where
  "obj_insert_index i k v [] = [(k, v)]"
| "obj_insert_index i k v ((k', v') # kvs) =
     (case array_index k' of
        Some j \<Rightarrow> if j < i then (k', v') # obj_insert_index i k v kvs else (k, v) # (k', v') # kvs
      | None \<Rightarrow> (k, v) # (k', v') # kvs)"

text \<open>
  The assignment \<^verbatim>\<open>obj[k] = v\<close> on an object made by \<^verbatim>\<open>{}\<close>. The key \<^verbatim>\<open>__proto__\<close>
  sets the prototype instead of a property, which this embedding does not model.
\<close>

definition obj_set :: "(jstring \<times> jsval) list \<Rightarrow> jstring \<Rightarrow> jsval \<Rightarrow> error + (jstring \<times> jsval) list" where
  "obj_set kvs k v =
     (if k = js ''__proto__'' then Inl Unmodelled
      else if k \<in> fst ` set kvs then Inr (map (\<lambda>(k', v'). if k' = k then (k', v) else (k', v')) kvs)
      else case array_index k of
             Some i \<Rightarrow> Inr (obj_insert_index i k v kvs)
           | None \<Rightarrow> Inr (kvs @ [(k, v)]))"

definition obj_get :: "(jstring \<times> jsval) list \<Rightarrow> jstring \<Rightarrow> jsval" where
  "obj_get kvs k = (case map_of kvs k of None \<Rightarrow> JUndefined | Some v \<Rightarrow> v)"

subsection \<open>AMF0 encoder\<close>

definition amf0encNumber :: "64 word \<Rightarrow> error + buffer" where
  "amf0encNumber num =
     bindE (buf_alloc 9) (\<lambda>b0.
     bindE (writeUInt8 b0 0x00 0) (\<lambda>b1. writeDoubleBE b1 num 1))"

definition amf0encBool :: "bool \<Rightarrow> error + buffer" where
  "amf0encBool num =
     bindE (buf_alloc 2) (\<lambda>b0.
     bindE (writeUInt8 b0 0x01 0) (\<lambda>b1. writeUInt8 b1 (if num then 1 else 0) 1))"

definition amf0encNull :: "error + buffer" where
  "amf0encNull = bindE (buf_alloc 1) (\<lambda>b0. writeUInt8 b0 0x05 0)"

definition amf0encUndefined :: "error + buffer" where
  "amf0encUndefined = bindE (buf_alloc 1) (\<lambda>b0. writeUInt8 b0 0x06 0)"

definition amf0encUString :: "jstring \<Rightarrow> error + buffer" where
  "amf0encUString str =
     (let data = utf8_encode str
      in bindE (buf_alloc 2) (\<lambda>b0.
         bindE (writeUInt16BE b0 (int (length data)) 0) (\<lambda>sLen. Inr (sLen @ data))))"

definition amf0encString :: "jstring \<Rightarrow> error + buffer" where
  "amf0encString str =
     bindE (buf_alloc 3) (\<lambda>b0.
     bindE (writeUInt8 b0 0x02 0) (\<lambda>b1.
     bindE (writeUInt16BE b1 (int (length str)) 1) (\<lambda>buf. Inr (buf @ utf8_encode str))))"

text \<open>
  \<^verbatim>\<open>amf0EncodeOne\<close> with the encoders that call it back: \<^verbatim>\<open>amf0encObject\<close> (the
  \<^verbatim>\<open>for (k in o)\<close> loop is \<open>amf0encObject_props\<close>), \<^verbatim>\<open>amf0encArray\<close>, whose
  \<^verbatim>\<open>for (k in a)\<close> runs over the indices of the array (\<open>amf0encArray_props\<close>), and
  \<^verbatim>\<open>amf0encSArray\<close> (\<open>amf0encSArray_items\<close>). \<^verbatim>\<open>amfType\<close> sends the numbers to
  \<^verbatim>\<open>amf0encNumber\<close>, the booleans to \<^verbatim>\<open>amf0encBool\<close>, the strings to
  \<^verbatim>\<open>amf0encString\<close>, an array to \<^verbatim>\<open>amf0encSArray\<close> when its \<^verbatim>\<open>sarray\<close> is set and to
  \<^verbatim>\<open>amf0encArray\<close> otherwise, and any other object to \<^verbatim>\<open>amf0encObject\<close>.
\<close>

fun amf0EncodeOne :: "jsval \<Rightarrow> error + buffer"
  and amf0encObject_props :: "(jstring \<times> jsval) list \<Rightarrow> buffer \<Rightarrow> error + buffer"
  and amf0encArray_props :: "nat \<Rightarrow> jsval list \<Rightarrow> buffer \<Rightarrow> error + buffer"
  and amf0encSArray_items :: "jsval list \<Rightarrow> buffer \<Rightarrow> error + buffer" where
  "amf0EncodeOne JUndefined = amf0encUndefined"
| "amf0EncodeOne JNull = amf0encNull"
| "amf0EncodeOne (JBool b) = amf0encBool b"
| "amf0EncodeOne (JNumber d) = amf0encNumber d"
| "amf0EncodeOne (JString s) = amf0encString s"
| "amf0EncodeOne (JObject kvs) =
     bindE (buf_alloc 1) (\<lambda>b0.
     bindE (writeUInt8 b0 0x03 0) (\<lambda>data0.
     bindE (amf0encObject_props kvs data0) (\<lambda>data.
     bindE (buf_alloc 1) (\<lambda>t0.
     bindE (writeUInt8 t0 0x09 0) (\<lambda>termCode.
     bindE (amf0encUString []) (\<lambda>e. Inr (data @ e @ termCode)))))))"
| "amf0EncodeOne (JArray sarray a) =
     (if sarray then
        bindE (buf_alloc 5) (\<lambda>b0.
        bindE (writeUInt8 b0 0x0A 0) (\<lambda>b1.
        bindE (writeUInt32BE b1 (int (length a)) 1) (\<lambda>buf. amf0encSArray_items a buf)))
      else
        bindE (buf_alloc 5) (\<lambda>b0.
        bindE (writeUInt8 b0 8 0) (\<lambda>b1.
        bindE (writeUInt32BE b1 (int (length a)) 1) (\<lambda>buf.
        bindE (buf_alloc 1) (\<lambda>d0.
        bindE (writeUInt8 d0 0x03 0) (\<lambda>data0.
        bindE (amf0encArray_props 0 a data0) (\<lambda>data1.
        bindE (buf_alloc 1) (\<lambda>t0.
        bindE (writeUInt8 t0 0x09 0) (\<lambda>termCode.
        bindE (amf0encUString []) (\<lambda>e.
          Inr (buf @ buf_slice (data1 @ e @ termCode) 1)))))))))))"
| "amf0encObject_props [] data = Inr data"
| "amf0encObject_props ((k, v) # kvs) data =
     bindE (amf0encUString k) (\<lambda>ek.
     bindE (amf0EncodeOne v) (\<lambda>ev. amf0encObject_props kvs (data @ ek @ ev)))"
| "amf0encArray_props i [] data = Inr data"
| "amf0encArray_props i (v # vs) data =
     bindE (amf0encUString (dec_str i)) (\<lambda>ek.
     bindE (amf0EncodeOne v) (\<lambda>ev. amf0encArray_props (Suc i) vs (data @ ek @ ev)))"
| "amf0encSArray_items [] buf = Inr buf"
| "amf0encSArray_items (v # vs) buf =
     bindE (amf0EncodeOne v) (\<lambda>ev. amf0encSArray_items vs (buf @ ev))"

subsection \<open>AMF3 integers\<close>

definition amf3encUI29 :: "int \<Rightarrow> error + buffer" where
  "amf3encUI29 num =
     (let len0 = (0::int);
          len1 = (if num < 0x80 then 1 else len0);
          len2 = (if num < 0x4000 then 2 else len1);
          len3 = (if num < 0x200000 then 3 else len2);
          len4 = (if num \<ge> 0x200000 then 4 else len3)
      in bindE (buf_alloc len4) (\<lambda>buf.
           if len4 = 1 then writeUInt8 buf num 0
           else if len4 = 2 then
             bindE (writeUInt8 buf (js_and num 0x7F) 0) (\<lambda>b1.
             writeUInt8 b1 (js_or (js_sar num 7) 0x80) 1)
           else if len4 = 3 then
             bindE (writeUInt8 buf (js_and num 0x7F) 0) (\<lambda>b1.
             bindE (writeUInt8 b1 (js_and (js_sar num 7) 0x7F) 1) (\<lambda>b2.
             writeUInt8 b2 (js_or (js_sar num 14) 0x80) 2))
           else if len4 = 4 then
             bindE (writeUInt8 buf (js_and num 0xFF) 0) (\<lambda>b1.
             bindE (writeUInt8 b1 (js_and (js_sar num 8) 0x7F) 1) (\<lambda>b2.
             bindE (writeUInt8 b2 (js_or (js_sar num 15) 0x7F) 2) (\<lambda>b3.
             writeUInt8 b3 (js_or (js_sar num 22) 0x7F) 3)))
           else Inr buf))"

text \<open>
  The \<^verbatim>\<open>do ... while (len < 5 || b > 0x7F)\<close> loop of \<^verbatim>\<open>amf3decUI29\<close>, from the values of
  \<^verbatim>\<open>val\<close> and \<^verbatim>\<open>len\<close> before a turn to \<^verbatim>\<open>val\<close>, \<^verbatim>\<open>len\<close> and \<^verbatim>\<open>b\<close> after the last one.
  \<^verbatim>\<open>readUInt8\<close> raises past the end of the buffer.
\<close>

function amf3decUI29_loop :: "buffer \<Rightarrow> int \<Rightarrow> int \<Rightarrow> error + int \<times> int \<times> int" where
  "amf3decUI29_loop buf val len0 =
     (if len0 < 0 \<or> len0 + 1 > int (length buf) then Inl RangeError
      else
        let b = uint (buf ! nat len0);
            len1 = len0 + 1;
            val1 = js_shl val 7 + js_and b 0x7F
        in if len1 < 5 \<or> b > 0x7F then amf3decUI29_loop buf val1 len1
           else Inr (val1, len1, b))"
  by pat_completeness auto
termination
  by (relation "measure (\<lambda>(buf, val, len0). nat (int (length buf) - len0))") auto

text \<open>The results \<^verbatim>\<open>{ len, value }\<close> of the decoders are pairs \<open>(len, value)\<close>.\<close>

definition amf3decUI29 :: "buffer \<Rightarrow> error + int \<times> int" where
  "amf3decUI29 buf =
     bindE (amf3decUI29_loop buf 0 1) (\<lambda>(val, len1, b).
       Inr (len1, if len1 = 5 then js_or val b else val))"

definition amf3decInteger :: "buffer \<Rightarrow> error + int \<times> int" where
  "amf3decInteger buf =
     bindE (amf3decUI29 buf) (\<lambda>(len1, v).
       Inr (len1, if v > 0x0FFFFFFF then js_and v 0x0FFFFFFF - 0x10000000 else v))"

definition amf3encInteger :: "int \<Rightarrow> error + buffer" where
  "amf3encInteger num =
     bindE (buf_alloc 1) (\<lambda>b0.
     bindE (writeUInt8 b0 0x4 0) (\<lambda>buf.
     bindE (amf3encUI29 (js_and num 0x3FFFFFFF)) (\<lambda>u. Inr (buf @ u))))"

text \<open>
  \<^verbatim>\<open>amf3DecodeOne\<close>; \<open>None\<close> is the \<^verbatim>\<open>null\<close> that \<^verbatim>\<open>amfXDecodeOne\<close> returns for an
  unknown marker. The decoders of strings, XML and byte arrays raise after reading the
  length (\<^verbatim>\<open>sLen & 1\<close> is taken of the result object and is 0); \<^verbatim>\<open>amf3decArray\<close> raises
  or returns the length \<^verbatim>\<open>NaN\<close>, and \<^verbatim>\<open>amf3decObject\<close> returns an object without
  \<^verbatim>\<open>len\<close> and \<^verbatim>\<open>value\<close>.
\<close>

definition amf3DecodeOne :: "buffer \<Rightarrow> error + (int \<times> jsval) option" where
  "amf3DecodeOne buffer =
     bindE (readUInt8 buffer 0) (\<lambda>m.
       if m = 0x00 then Inr (Some (1, JUndefined))
       else if m = 0x01 then Inr (Some (1, JNull))
       else if m = 0x02 then Inr (Some (1, JBool False))
       else if m = 0x03 then Inr (Some (1, JBool True))
       else if m = 0x04 then
         bindE (amf3decInteger buffer) (\<lambda>(l, v). Inr (Some (l, JNumber (double_of_int v))))
       else if m = 0x05 then bindE (readDoubleBE buffer 1) (\<lambda>d. Inr (Some (9, JNumber d)))
       else if m = 0x06 \<or> m = 0x07 \<or> m = 0x0B \<or> m = 0x0C then
         bindE (amf3decUI29 buffer) (\<lambda>r. Inl GenericError)
       else if m = 0x08 then
         bindE (amf3decUI29 buffer) (\<lambda>(l, v).
         bindE (readDoubleBE buffer l) (\<lambda>ts. Inr (Some (l + 8, JNumber ts))))
       else if m = 0x09 then
         bindE (amf3decUI29 (buf_slice buffer 1)) (\<lambda>(l, v).
           if js_rem v 2 = 1 then Inl GenericError else Inl NotANumber)
       else if m = 0x0A then Inl UndefinedValue
       else Inr None)"

subsection \<open>AMF0 decoder\<close>

text \<open>
  \<^verbatim>\<open>amf0DecodeOne\<close> with the loops of \<^verbatim>\<open>amf0decObject\<close> and \<^verbatim>\<open>amf0decSArray\<close>, which
  call it back. The first argument bounds the calls that are still allowed (each call
  uses one); \<open>Diverges\<close> is the result when none is left. A decoder that gets
  \<^verbatim>\<open>null\<close> from \<^verbatim>\<open>amf0DecodeOne\<close> raises on reading its \<^verbatim>\<open>value\<close>.
\<close>

fun amf0DecodeOne_f :: "nat \<Rightarrow> buffer \<Rightarrow> error + (int \<times> jsval) option"
  and amf0decObject_loop ::
    "nat \<Rightarrow> buffer \<Rightarrow> int \<Rightarrow> (jstring \<times> jsval) list \<Rightarrow> error + int \<times> (jstring \<times> jsval) list"
  and amf0decSArray_loop ::
    "nat \<Rightarrow> buffer \<Rightarrow> int \<Rightarrow> int \<Rightarrow> jsval list \<Rightarrow> error + int \<times> jsval list" where
  "amf0DecodeOne_f 0 buffer = Inl Diverges"
| "amf0DecodeOne_f (Suc n) buffer =
     bindE (readUInt8 buffer 0) (\<lambda>m.
       if m = 0x00 then bindE (readDoubleBE buffer 1) (\<lambda>d. Inr (Some (9, JNumber d)))
       else if m = 0x01 then bindE (readUInt8 buffer 1) (\<lambda>b. Inr (Some (2, JBool (b \<noteq> 0))))
       else if m = 0x02 \<or> m = 0x0F then
         bindE (readUInt16BE buffer 1) (\<lambda>sLen.
           Inr (Some (3 + sLen, JString (buf_toString buffer 3 (3 + sLen)))))
       else if m = 0x03 then
         bindE (amf0decObject_loop n (buf_slice buffer 1) 1 [])
           (\<lambda>(l, obj). Inr (Some (l, JObject obj)))
       else if m = 0x05 then Inr (Some (1, JNull))
       else if m = 0x06 then Inr (Some (1, JUndefined))
       else if m = 0x07 then
         bindE (readUInt16BE buffer 1) (\<lambda>index.
           Inr (Some (3, JString (js ''ref'' @ dec_str (nat index)))))
       else if m = 0x08 then
         bindE (amf0decObject_loop n (buf_slice (buf_slice buffer 4) 1) 1 [])
           (\<lambda>(l, obj). Inr (Some (5 + l, JObject obj)))
       else if m = 0x0A then
         bindE (readUInt32BE buffer 1) (\<lambda>count.
         bindE (amf0decSArray_loop n buffer count 5 [])
           (\<lambda>(l, a). Inr (Some (l, JArray True a))))
       else if m = 0x0B then bindE (readDoubleBE buffer 3) (\<lambda>ts. Inr (Some (11, JNumber ts)))
       else if m = 0x0C then
         bindE (readUInt32BE buffer 1) (\<lambda>sLen.
           Inr (Some (5 + sLen, JString (buf_toString buffer 5 (5 + sLen)))))
       else if m = 0x10 then
         bindE (readUInt16BE buffer 1) (\<lambda>sLen.
         bindE (amf0decObject_loop n (buf_slice (buf_slice buffer (3 + sLen - 1)) 1) 1 [])
           (\<lambda>(l, obj).
         bindE (obj_set obj (js ''__className__'') (JString (buf_toString buffer 3 (3 + sLen))))
           (\<lambda>obj'. Inr (Some (3 + sLen + l - 1, JObject obj')))))
       else if m = 0x11 then amf3DecodeOne (buf_slice buffer 1)
       else Inr None)"
| "amf0decObject_loop 0 iBuf l obj = Inl Diverges"
| "amf0decObject_loop (Suc n) iBuf l obj =
     bindE (readUInt8 iBuf 0) (\<lambda>b.
       if b \<noteq> 0x09 then
         bindE (readUInt16BE iBuf 0) (\<lambda>sLen.
           if int (length iBuf) < 2 + sLen then Inr (l + (2 + sLen), obj)
           else
             bindE (readUInt8 (buf_slice iBuf (2 + sLen)) 0) (\<lambda>e.
               if e = 0x09 then Inr (l + (2 + sLen) + 1, obj)
               else if buf_toString iBuf 2 (2 + sLen) = [] then Inr (l + (2 + sLen), obj)
               else
                 bindE (amf0DecodeOne_f n (buf_slice iBuf (2 + sLen))) (\<lambda>r.
                   case r of
                     None \<Rightarrow> Inl TypeError
                   | Some (vlen, v) \<Rightarrow>
                       bindE (obj_set obj (buf_toString iBuf 2 (2 + sLen)) v) (\<lambda>obj'.
                         amf0decObject_loop n (buf_slice iBuf (2 + sLen + vlen))
                           (l + (2 + sLen) + vlen) obj'))))
       else Inr (l, obj))"
| "amf0decSArray_loop 0 buf count l a = Inl Diverges"
| "amf0decSArray_loop (Suc n) buf count l a =
     (if count \<noteq> 0 then
        bindE (amf0DecodeOne_f n (buf_slice buf l)) (\<lambda>r.
          case r of
            None \<Rightarrow> Inl TypeError
          | Some (vlen, v) \<Rightarrow> amf0decSArray_loop n buf (count - 1) (l + vlen) (a @ [v]))
      else Inr (l, a))"

text \<open>
  A call of \<^verbatim>\<open>amf0DecodeOne\<close> on a longer buffer, and a turn of a loop, go on with a
  shorter buffer or stop, so that the length of the buffer bounds the calls.
\<close>

definition amf0DecodeOne :: "buffer \<Rightarrow> error + (int \<times> jsval) option" where
  "amf0DecodeOne buffer = amf0DecodeOne_f (Suc (length buffer)) buffer"

subsection \<open>Commands and data messages\<close>

definition rtmpCmdCode_table :: "(string \<times> string list) list" where
  "rtmpCmdCode_table =
     [(''_result'', [''transId'', ''cmdObj'', ''info'']),
      (''_error'', [''transId'', ''cmdObj'', ''info'', ''streamId'']),
      (''onStatus'', [''transId'', ''cmdObj'', ''info'']),
      (''releaseStream'', [''transId'', ''cmdObj'', ''streamName'']),
      (''getStreamLength'', [''transId'', ''cmdObj'', ''streamId'']),
      (''getMovLen'', [''transId'', ''cmdObj'', ''streamId'']),
      (''FCPublish'', [''transId'', ''cmdObj'', ''streamName'']),
      (''FCUnpublish'', [''transId'', ''cmdObj'', ''streamName'']),
      (''onFCPublish'', [''transId'', ''cmdObj'', ''info'']),
      (''connect'', [''transId'', ''cmdObj'', ''args'']),
      (''call'', [''transId'', ''cmdObj'', ''args'']),
      (''createStream'', [''transId'', ''cmdObj'']),
      (''close'', [''transId'', ''cmdObj'']),
      (''play'', [''transId'', ''cmdObj'', ''streamName'', ''start'', ''duration'', ''reset'']),
      (''play2'', [''transId'', ''cmdObj'', ''params'']),
      (''deleteStream'', [''transId'', ''cmdObj'', ''streamId'']),
      (''closeStream'', [''transId'', ''cmdObj'']),
      (''receiveAudio'', [''transId'', ''cmdObj'', ''bool'']),
      (''receiveVideo'', [''transId'', ''cmdObj'', ''bool'']),
      (''publish'', [''transId'', ''cmdObj'', ''streamName'', ''type'']),
      (''seek'', [''transId'', ''cmdObj'', ''ms'']),
      (''pause'', [''transId'', ''cmdObj'', ''pause'', ''ms''])]"

definition rtmpDataCode_table :: "(string \<times> string list) list" where
  "rtmpDataCode_table =
     [(''@setDataFrame'', [''method'', ''dataObj'']),
      (''onMetaData'', [''dataObj'']),
      (''|RtmpSampleAccess'', [''bool1'', ''bool2''])]"

text \<open>
  The lookup \<^verbatim>\<open>table[name]\<close> followed by \<^verbatim>\<open>.forEach\<close>. A name that
  \<^verbatim>\<open>Object.prototype\<close> has is found there, and what is found has no \<^verbatim>\<open>forEach\<close>. A name
  that is not a string is turned into a property key first: \<^verbatim>\<open>undefined\<close>, \<^verbatim>\<open>null\<close>, a
  boolean and a number give a key that the tables do not have; an object gives
  \<^verbatim>\<open>[object Object]\<close> through \<^verbatim>\<open>Object.prototype.toString\<close>, unless it has an own
  property \<^verbatim>\<open>toString\<close>, which is no function here, and then the conversion raises
  (\<^verbatim>\<open>valueOf\<close>, own or inherited, gives no primitive value); for an array the embedding
  stops.
\<close>

definition object_prototype_names :: "string list" where
  "object_prototype_names =
     [''constructor'', ''hasOwnProperty'', ''isPrototypeOf'', ''propertyIsEnumerable'',
      ''toLocaleString'', ''toString'', ''valueOf'', ''__proto__'', ''__defineGetter__'',
      ''__defineSetter__'', ''__lookupGetter__'', ''__lookupSetter__'']"

definition schema_of :: "(string \<times> string list) list \<Rightarrow> jsval \<Rightarrow> error + jstring list option" where
  "schema_of table v =
     (case v of
        JString name \<Rightarrow>
          if name \<in> set (map js object_prototype_names) then Inl TypeError
          else Inr (map_option (map js) (map_of (map (\<lambda>(k, fs). (js k, fs)) table) name))
      | JArray sarray a \<Rightarrow> Inl Unmodelled
      | JObject props \<Rightarrow>
          if js ''toString'' \<in> fst ` set props then Inl TypeError else Inr None
      | _ \<Rightarrow> Inr None)"

fun decode_fields ::
  "jstring list \<Rightarrow> buffer \<Rightarrow> (jstring \<times> jsval) list \<Rightarrow> error + (jstring \<times> jsval) list" where
  "decode_fields [] buffer resp = Inr resp"
| "decode_fields (n # ns) buffer resp =
     (if length buffer > 0 then
        bindE (amf0DecodeOne buffer) (\<lambda>r.
          case r of
            None \<Rightarrow> Inl TypeError
          | Some (l, v) \<Rightarrow>
              bindE (obj_set resp n v) (\<lambda>resp'. decode_fields ns (buf_slice buffer l) resp'))
      else decode_fields ns buffer resp)"

definition decode_message :: "(string \<times> string list) list \<Rightarrow> buffer \<Rightarrow> error + jsval" where
  "decode_message table dbuf =
     bindE (amf0DecodeOne dbuf) (\<lambda>r.
       case r of
         None \<Rightarrow> Inl TypeError
       | Some (l, v) \<Rightarrow>
           bindE (schema_of table v) (\<lambda>sch.
             case sch of
               Some flds \<Rightarrow>
                 bindE (decode_fields flds (buf_slice dbuf l) [(js ''cmd'', v)])
                   (\<lambda>resp. Inr (JObject resp))
             | None \<Rightarrow> Inr (JObject [(js ''cmd'', v)])))"

definition decodeAMF0Cmd :: "buffer \<Rightarrow> error + jsval" where
  "decodeAMF0Cmd dbuf = decode_message rtmpCmdCode_table dbuf"

definition decodeAmf0Data :: "buffer \<Rightarrow> error + jsval" where
  "decodeAmf0Data dbuf = decode_message rtmpDataCode_table dbuf"

text \<open>
  The loop of the encoders over the names of the schema:
  \<^verbatim>\<open>if (opt.hasOwnProperty(n)) { data = Buffer.concat([data, amf0EncodeOne(opt[n])]) }\<close>.
  When \<open>opt\<close> has an own property \<^verbatim>\<open>hasOwnProperty\<close>, that property is called, and it
  is no function here.
\<close>

fun encode_fields :: "jstring list \<Rightarrow> (jstring \<times> jsval) list \<Rightarrow> buffer \<Rightarrow> error + buffer" where
  "encode_fields [] opt data = Inr data"
| "encode_fields (n # ns) opt data =
     (if js ''hasOwnProperty'' \<in> fst ` set opt then Inl TypeError
      else if n \<in> fst ` set opt
      then bindE (amf0EncodeOne (obj_get opt n)) (\<lambda>e. encode_fields ns opt (data @ e))
      else encode_fields ns opt data)"

definition encode_message :: "(string \<times> string list) list \<Rightarrow> (jstring \<times> jsval) list \<Rightarrow> error + buffer" where
  "encode_message table opt =
     bindE (amf0EncodeOne (obj_get opt (js ''cmd''))) (\<lambda>data.
     bindE (schema_of table (obj_get opt (js ''cmd''))) (\<lambda>sch.
       case sch of
         Some flds \<Rightarrow> encode_fields flds opt data
       | None \<Rightarrow> Inr data))"

definition encodeAMF0Cmd :: "(jstring \<times> jsval) list \<Rightarrow> error + buffer" where
  "encodeAMF0Cmd opt = encode_message rtmpCmdCode_table opt"

definition encodeAMF0Data :: "(jstring \<times> jsval) list \<Rightarrow> error + buffer" where
  "encodeAMF0Data opt = encode_message rtmpDataCode_table opt"

section \<open>Sessions and the broker\<close>

subsection \<open>State\<close>

text \<open>
  A session object: the parser fields above and the fields of \<^verbatim>\<open>NodeRtmpSession\<close> that
  the operations below use. \<open>sess_id\<close> is \<^verbatim>\<open>this.id\<close>; \<open>auth_publish\<close> and
  \<open>auth_play\<close> are \<^verbatim>\<open>config.auth && config.auth.publish\<close> and
  \<^verbatim>\<open>config.auth && config.auth.play\<close>; \<open>socket_destroyed\<close> records
  \<^verbatim>\<open>socket.destroy()\<close>; \<open>pingInterval\<close> is true while the timer is set; \<open>playArgs\<close>
  and \<open>publishArgs\<close> hold the query string that \<^verbatim>\<open>QueryString.parse\<close> is given
  (\<open>None\<close> for \<^verbatim>\<open>undefined\<close>). The sets \<open>players\<close> and the GOP queues are lists in
  the order of insertion. Left out are the descriptive codec fields (names, profile,
  sample rate, channels, width, height, level), which come from the module
  \<^verbatim>\<open>core/av\<close> that is not part of the sources, and the timers.
\<close>

type_synonym session_id = string

text \<open>The result of \<^verbatim>\<open>NodeFlvSession.createFlvTag(packet)\<close>, which is not part of the sources.\<close>

datatype flv_tag = FlvTag rtmp_packet

record session = parser +
  sess_id :: session_id
  auth_publish :: bool
  auth_play :: bool
  socket_destroyed :: bool
  isIPC :: bool
  isLocal :: bool
  isStarting :: bool
  isPublishing :: bool
  isPlaying :: bool
  isIdling :: bool
  isPause :: bool
  isFirstAudioReceived :: bool
  isFirstVideoReceived :: bool
  isReceiveAudio :: bool
  isReceiveVideo :: bool
  metaData :: "buffer option"
  aacSequenceHeader :: "buffer option"
  avcSequenceHeader :: "buffer option"
  audioCodec :: int
  videoCodec :: int
  gopCacheEnable :: bool
  rtmpGopCacheQueue :: "buffer list option"
  flvGopCacheQueue :: "flv_tag list option"
  outChunkSize :: int
  pingInterval :: bool
  appname :: jstring
  playStreamId :: int
  playStreamPath :: jstring
  playArgs :: "jstring option"
  publishStreamId :: int
  publishStreamPath :: jstring
  publishArgs :: "jstring option"
  players :: "session_id list"

text \<open>
  The broker (\<^verbatim>\<open>core/ctx.js\<close>) and the session objects. \<open>heap\<close> holds every session
  object by its id, registered or not; \<open>sessions\<close> holds the keys of the map
  \<^verbatim>\<open>context.sessions\<close>, whose value at a key is the object of that id; \<open>events\<close>
  records the calls of \<^verbatim>\<open>nodeEvent.emit\<close> (name and session id). The listeners are
  outside the sources and are taken to change nothing.
\<close>

record ctx =
  heap :: "session_id \<Rightarrow> session option"
  sessions :: "session_id list"
  publishers :: "jstring \<Rightarrow> session_id option"
  idlePlayers :: "session_id list"
  events :: "(string \<times> session_id) list"

text \<open>
  A call returns with the state it leaves, or raises with the state at that point.
\<close>

datatype outcome = Returns ctx | Throws error ctx

definition final_ctx :: "outcome \<Rightarrow> ctx" where
  "final_ctx r = (case r of Returns c \<Rightarrow> c | Throws e c \<Rightarrow> c)"

definition thenO :: "outcome \<Rightarrow> (ctx \<Rightarrow> outcome) \<Rightarrow> outcome" where
  "thenO r f = (case r of Returns c \<Rightarrow> f c | Throws e c \<Rightarrow> Throws e c)"

definition liftE :: "ctx \<Rightarrow> error + 'a \<Rightarrow> ('a \<Rightarrow> outcome) \<Rightarrow> outcome" where
  "liftE c m f = (case m of Inl e \<Rightarrow> Throws e c | Inr x \<Rightarrow> f x)"

text \<open>
  \<open>with_this\<close> reads the object \<^verbatim>\<open>this\<close> of a method call; \<open>sessions_get\<close> is
  \<^verbatim>\<open>context.sessions.get(id)\<close>, \<^verbatim>\<open>undefined\<close> for a key that the map does not have.
\<close>

definition with_this :: "session_id \<Rightarrow> ctx \<Rightarrow> (session \<Rightarrow> outcome) \<Rightarrow> outcome" where
  "with_this i c f = (case heap c i of None \<Rightarrow> Throws Unmodelled c | Some s \<Rightarrow> f s)"

definition sessions_get :: "ctx \<Rightarrow> session_id \<Rightarrow> session option" where
  "sessions_get c i = (if i \<in> set (sessions c) then heap c i else None)"

definition upd :: "session_id \<Rightarrow> (session \<Rightarrow> session) \<Rightarrow> ctx \<Rightarrow> ctx" where
  "upd i f c = (case heap c i of None \<Rightarrow> c | Some s \<Rightarrow> c\<lparr>heap := (heap c)(i \<mapsto> f s)\<rparr>)"

definition set_add :: "'a list \<Rightarrow> 'a \<Rightarrow> 'a list" where
  "set_add xs x = (if x \<in> set xs then xs else xs @ [x])"

definition set_delete :: "'a list \<Rightarrow> 'a \<Rightarrow> 'a list" where
  "set_delete xs x = removeAll x xs"

definition emit :: "string \<Rightarrow> session_id \<Rightarrow> ctx \<Rightarrow> ctx" where
  "emit name i c = c\<lparr>events := events c @ [(name, i)]\<rparr>"

text \<open>\<^verbatim>\<open>if (!this.isIPC) context.nodeEvent.emit(name, this.id, ...)\<close>.\<close>

definition emit_unless_ipc :: "string \<Rightarrow> session_id \<Rightarrow> ctx \<Rightarrow> ctx" where
  "emit_unless_ipc name i c =
     (case heap c i of
        None \<Rightarrow> c
      | Some s \<Rightarrow> if isIPC s then c else emit name i c)"

subsection \<open>Sending\<close>

definition socket_write :: "session_id \<Rightarrow> buffer \<Rightarrow> ctx \<Rightarrow> outcome" where
  "socket_write i b c =
     with_this i c (\<lambda>s. Returns (upd i (\<lambda>s. s\<lparr>socket_written := socket_written s @ [b]\<rparr>) c))"

text \<open>
  The packets that the senders build: \<^verbatim>\<open>RtmpPacket.create()\<close>, then the assignments to
  \<open>fmt\<close> (type 0), \<open>cid\<close>, \<open>type\<close>, \<open>payload\<close>, \<open>length\<close>, \<open>stream_id\<close> and
  \<open>timestamp\<close>. \<^verbatim>\<open>packet.payload.length\<close> raises for the payload \<^verbatim>\<open>null\<close>.
\<close>

definition make_packet :: "int \<Rightarrow> int \<Rightarrow> buffer option \<Rightarrow> int \<Rightarrow> int \<Rightarrow> error + rtmp_packet" where
  "make_packet c t pl sid ts =
     (case pl of
        None \<Rightarrow> Inl TypeError
      | Some b \<Rightarrow>
          Inr ((RtmpPacket_create 0 0)
                 \<lparr>header := \<lparr>fmt = 0, cid = c, timestamp = ts, len = int (length b),
                              type_id = t, stream_id = sid\<rparr>,
                  payload := Some b\<rparr>))"

definition send_packet :: "session_id \<Rightarrow> error + rtmp_packet \<Rightarrow> ctx \<Rightarrow> outcome" where
  "send_packet i pk c =
     with_this i c (\<lambda>s.
       liftE c (bindE pk (rtmpChunksCreate (outChunkSize s))) (\<lambda>chunks. socket_write i chunks c))"

definition sendStreamStatus :: "session_id \<Rightarrow> int \<Rightarrow> int \<Rightarrow> ctx \<Rightarrow> outcome" where
  "sendStreamStatus i st sid c =
     liftE c (bindE (writeUInt16BE [0x02, 0, 0, 0, 0, 0, 0x06, 0x04, 0, 0, 0, 0,
                                    0, 0, 0, 0, 0, 0] st 12)
                (\<lambda>b. writeUInt32BE b sid 14))
       (\<lambda>rtmpBuffer. socket_write i rtmpBuffer c)"

definition sendInvokeMessage :: "session_id \<Rightarrow> int \<Rightarrow> (jstring \<times> jsval) list \<Rightarrow> ctx \<Rightarrow> outcome" where
  "sendInvokeMessage i sid opt c =
     send_packet i (bindE (encodeAMF0Cmd opt) (\<lambda>pl. make_packet 3 20 (Some pl) sid 0)) c"

definition sendDataMessage :: "session_id \<Rightarrow> (jstring \<times> jsval) list \<Rightarrow> int \<Rightarrow> ctx \<Rightarrow> outcome" where
  "sendDataMessage i opt sid c =
     send_packet i (bindE (encodeAMF0Data opt) (\<lambda>pl. make_packet 6 18 (Some pl) sid 0)) c"

text \<open>The object \<^verbatim>\<open>opt\<close> that \<^verbatim>\<open>sendStatusMessage(sid, level, code, description)\<close> sends.\<close>

definition status_opt :: "jsval \<Rightarrow> jsval \<Rightarrow> jsval \<Rightarrow> (jstring \<times> jsval) list" where
  "status_opt level code description =
     [(js ''cmd'', JString (js ''onStatus'')),
      (js ''transId'', JNumber (double_of_int 0)),
      (js ''cmdObj'', JNull),
      (js ''info'', JObject [(js ''level'', level), (js ''code'', code),
                              (js ''description'', description)])]"

definition sendStatusMessage :: "session_id \<Rightarrow> int \<Rightarrow> jsval \<Rightarrow> jsval \<Rightarrow> jsval \<Rightarrow> ctx \<Rightarrow> outcome" where
  "sendStatusMessage i sid level code description c =
     sendInvokeMessage i sid (status_opt level code description) c"

text \<open>
  \<^verbatim>\<open>sendRtmpSampleAccess(sid)\<close>. \<^verbatim>\<open>respondPlay\<close> calls it without an argument; the
  stream id \<^verbatim>\<open>undefined\<close> is written as 0 by \<^verbatim>\<open>writeUInt32LE\<close>.
\<close>

definition sendRtmpSampleAccess :: "session_id \<Rightarrow> int option \<Rightarrow> ctx \<Rightarrow> outcome" where
  "sendRtmpSampleAccess i sid c =
     sendDataMessage i
       [(js ''cmd'', JString (js ''|RtmpSampleAccess'')),
        (js ''bool1'', JBool False), (js ''bool2'', JBool False)]
       (case sid of None \<Rightarrow> 0 | Some n \<Rightarrow> n) c"

definition respondPlay :: "session_id \<Rightarrow> ctx \<Rightarrow> outcome" where
  "respondPlay i c =
     with_this i c (\<lambda>s.
       thenO (sendStreamStatus i 0x00 (playStreamId s) c) (\<lambda>c1.
       thenO (sendStatusMessage i (playStreamId s) (JString (js ''status''))
                (JString (js ''NetStream.Play.Reset''))
                (JString (js ''Playing and resetting stream.'')) c1) (\<lambda>c2.
       thenO (sendStatusMessage i (playStreamId s) (JString (js ''status''))
                (JString (js ''NetStream.Play.Start''))
                (JString (js ''Started playing stream.'')) c2) (\<lambda>c3.
       sendRtmpSampleAccess i None c3))))"

subsection \<open>Joining a publisher\<close>

text \<open>
  The loop of \<^verbatim>\<open>onStartPlay\<close> over the GOP queue of the publisher \<open>p\<close>: each buffer of
  the queue gets the play stream id written at offset 8, in place, and is written to
  the socket of the subscriber \<open>i\<close>. \<open>k\<close> is the position in the queue.
\<close>

fun startPlay_gop :: "session_id \<Rightarrow> session_id \<Rightarrow> int \<Rightarrow> nat \<Rightarrow> nat \<Rightarrow> ctx \<Rightarrow> outcome" where
  "startPlay_gop i p sid k 0 c = Returns c"
| "startPlay_gop i p sid k (Suc n) c =
     (case heap c p of
        None \<Rightarrow> Throws Unmodelled c
      | Some pub \<Rightarrow>
         (case rtmpGopCacheQueue pub of
            None \<Rightarrow> Returns c
          | Some q \<Rightarrow>
              if k < length q then
                liftE c (writeUInt32LE (q ! k) sid 8) (\<lambda>chunks.
                  thenO (socket_write i chunks
                           (upd p (\<lambda>s. s\<lparr>rtmpGopCacheQueue := Some (q[k := chunks])\<rparr>) c))
                    (startPlay_gop i p sid (Suc k) n))
              else Returns c))"

definition onStartPlay :: "session_id \<Rightarrow> ctx \<Rightarrow> outcome" where
  "onStartPlay i c =
     with_this i c (\<lambda>s.
       case publishers c (playStreamPath s) of
         None \<Rightarrow> Throws TypeError c
       | Some p \<Rightarrow>
          (case sessions_get c p of
             None \<Rightarrow> Throws TypeError c
           | Some pub \<Rightarrow>
              (let c0 = upd p (\<lambda>ps. ps\<lparr>players := set_add (players ps) (sess_id s)\<rparr>) c;
                   sid = playStreamId s
               in thenO (if metaData pub \<noteq> None
                         then send_packet i (make_packet 6 18 (metaData pub) sid 0) c0
                         else Returns c0) (\<lambda>c1.
                  thenO (if audioCodec pub = 10
                         then send_packet i (make_packet 4 8 (aacSequenceHeader pub) sid 0) c1
                         else Returns c1) (\<lambda>c2.
                  thenO (if videoCodec pub = 7 \<or> videoCodec pub = 12
                         then send_packet i (make_packet 5 9 (avcSequenceHeader pub) sid 0) c2
                         else Returns c2) (\<lambda>c3.
                  thenO (case rtmpGopCacheQueue pub of
                           None \<Rightarrow> Returns c3
                         | Some q \<Rightarrow> startPlay_gop i p sid 0 (length q) c3) (\<lambda>c4.
                  Returns (emit_unless_ipc ''postPlay'' i
                             (upd i (\<lambda>ts. ts\<lparr>isIdling := False, isPlaying := True\<rparr>) c4)))))))))"

subsection \<open>Commands\<close>

text \<open>
  \<^verbatim>\<open>onPause(invokeMessage)\<close>; \<open>pause\<close> is the flag \<^verbatim>\<open>invokeMessage.pause\<close>. The last
  line of the source is \<^verbatim>\<open>this.sendStatusMessage(this.playStreamId, c, d)\<close>: three
  arguments for the parameters \<^verbatim>\<open>(sid, level, code, description)\<close>.
\<close>

definition onPause :: "session_id \<Rightarrow> bool \<Rightarrow> ctx \<Rightarrow> outcome" where
  "onPause i pause c =
     with_this i c (\<lambda>s0.
       let c0 = upd i (\<lambda>ts. ts\<lparr>isPause := pause\<rparr>) c;
           cc = (if pause then js ''NetStream.Pause.Notify'' else js ''NetStream.Unpause.Notify'');
           d = (if pause then js ''Paused live'' else js ''Unpaused live'');
           sid = playStreamId s0
       in thenO
            (if \<not> pause then
               thenO (sendStreamStatus i 0x00 sid c0) (\<lambda>c1.
                 case publishers c1 (playStreamPath s0) of
                   None \<Rightarrow> Returns c1
                 | Some p \<Rightarrow>
                    (case sessions_get c1 p of
                       None \<Rightarrow> Throws TypeError c1
                     | Some pub \<Rightarrow>
                        thenO (if audioCodec pub = 10 then
                                 liftE c1 (cur_packet pub) (\<lambda>pp.
                                   send_packet i
                                     (make_packet 4 8 (aacSequenceHeader pub) sid (clock pp)) c1)
                               else Returns c1) (\<lambda>c2.
                          if videoCodec pub = 7 \<or> videoCodec pub = 12 then
                            liftE c2 (cur_packet pub) (\<lambda>pp.
                              send_packet i
                                (make_packet 5 9 (avcSequenceHeader pub) sid (clock pp)) c2)
                          else Returns c2)))
             else sendStreamStatus i 0x01 sid c0)
            (\<lambda>c3. sendStatusMessage i sid (JString cc) (JString d) JUndefined c3))"

text \<open>\<^verbatim>\<open>str.split('?')[0]\<close> and \<^verbatim>\<open>str.split('?')[1]\<close>; 63 is the question mark.\<close>

definition split_q0 :: "jstring \<Rightarrow> jstring" where
  "split_q0 str = takeWhile (\<lambda>ch. ch \<noteq> 63) str"

definition split_q1 :: "jstring \<Rightarrow> jstring option" where
  "split_q1 str =
     (case dropWhile (\<lambda>ch. ch \<noteq> 63) str of
        [] \<Rightarrow> None
      | q # r \<Rightarrow> Some (takeWhile (\<lambda>ch. ch \<noteq> 63) r))"

text \<open>
  The loop of \<^verbatim>\<open>onPublish\<close> over \<^verbatim>\<open>context.idlePlayers\<close>, here over the members at
  the start of the loop (the loop deletes the member it is at, and adds none).
\<close>

fun publish_idle :: "jstring \<Rightarrow> session_id list \<Rightarrow> ctx \<Rightarrow> outcome" where
  "publish_idle path [] c = Returns c"
| "publish_idle path (j # rest) c =
     (case sessions_get c j of
        None \<Rightarrow> Throws TypeError c
      | Some idlePlayer \<Rightarrow>
          if playStreamPath idlePlayer = path then
            thenO (onStartPlay j c) (\<lambda>c1.
              publish_idle path rest (c1\<lparr>idlePlayers := set_delete (idlePlayers c1) j\<rparr>))
          else publish_idle path rest c)"

text \<open>
  \<^verbatim>\<open>onPublish(invokeMessage)\<close>; \<open>streamName\<close> is \<^verbatim>\<open>invokeMessage.streamName\<close>, and
  \<open>verifyAuth\<close> stands for \<^verbatim>\<open>NodeCoreUtils.verifyAuth\<close> (not part of the sources) applied
  to the \<^verbatim>\<open>sign\<close> of the parsed query string, the path and the configured secret. The
  \<^verbatim>\<open>setTimeout\<close> that announces \<^verbatim>\<open>postPublish\<close> later is left out.
\<close>

definition onPublish ::
  "(jstring option \<Rightarrow> jstring \<Rightarrow> bool) \<Rightarrow> session_id \<Rightarrow> jsval \<Rightarrow> ctx \<Rightarrow> outcome" where
  "onPublish verifyAuth i streamName c =
     with_this i c (\<lambda>s0.
       case streamName of
         JString name \<Rightarrow>
           liftE c (cur_packet s0) (\<lambda>pp.
             let path = js ''/'' @ appname s0 @ js ''/'' @ split_q0 name;
                 sid = stream_id (header pp);
                 c0 = emit_unless_ipc ''prePublish'' i
                        (upd i (\<lambda>ts. ts\<lparr>publishStreamPath := path, publishArgs := split_q1 name,
                                         publishStreamId := sid\<rparr>) c)
             in if \<not> isStarting s0 then Returns c0
                else if auth_publish s0 \<and> \<not> isLocal s0 \<and> \<not> isIPC s0
                        \<and> \<not> verifyAuth (split_q1 name) path then
                  sendStatusMessage i sid (JString (js ''error''))
                    (JString (js ''NetStream.publish.Unauthorized''))
                    (JString (js ''Authorization required.'')) c0
                else if publishers c0 path \<noteq> None then
                  sendStatusMessage i sid (JString (js ''error''))
                    (JString (js ''NetStream.Publish.BadName''))
                    (JString (js ''Stream already publishing'')) c0
                else if isPublishing s0 then
                  sendStatusMessage i sid (JString (js ''error''))
                    (JString (js ''NetStream.Publish.BadConnection''))
                    (JString (js ''Connection already publishing'')) c0
                else
                  thenO (sendStatusMessage i sid (JString (js ''status''))
                           (JString (js ''NetStream.Publish.Start''))
                           (JString (path @ js '' is now published.''))
                           (upd i (\<lambda>ts. ts\<lparr>isPublishing := True\<rparr>)
                              (c0\<lparr>publishers := (publishers c0)(path \<mapsto> sess_id s0)\<rparr>)))
                    (\<lambda>c1. publish_idle path (idlePlayers c1) c1))
       | _ \<Rightarrow> Returns c)"

definition onPlay ::
  "(jstring option \<Rightarrow> jstring \<Rightarrow> bool) \<Rightarrow> session_id \<Rightarrow> jsval \<Rightarrow> ctx \<Rightarrow> outcome" where
  "onPlay verifyAuth i streamName c =
     with_this i c (\<lambda>s0.
       case streamName of
         JString name \<Rightarrow>
           liftE c (cur_packet s0) (\<lambda>pp.
             let path = js ''/'' @ appname s0 @ js ''/'' @ split_q0 name;
                 sid = stream_id (header pp);
                 c0 = emit_unless_ipc ''prePlay'' i
                        (upd i (\<lambda>ts. ts\<lparr>playStreamPath := path, playArgs := split_q1 name,
                                         playStreamId := sid\<rparr>) c)
             in if \<not> isStarting s0 then Returns c0
                else if auth_play s0 \<and> \<not> isLocal s0 \<and> \<not> isIPC s0
                        \<and> \<not> verifyAuth (split_q1 name) path then
                  sendStatusMessage i sid (JString (js ''error''))
                    (JString (js ''NetStream.play.Unauthorized''))
                    (JString (js ''Authorization required.'')) c0
                else
                  thenO (if isPlaying s0 then
                           sendStatusMessage i sid (JString (js ''error''))
                             (JString (js ''NetStream.Play.BadConnection''))
                             (JString (js ''Connection already playing'')) c0
                         else respondPlay i c0) (\<lambda>c1.
                    if publishers c1 path \<noteq> None then onStartPlay i c1
                    else Returns ((upd i (\<lambda>ts. ts\<lparr>isIdling := True\<rparr>) c1)
                                    \<lparr>idlePlayers := set_add (idlePlayers c1) (sess_id s0)\<rparr>)))
       | _ \<Rightarrow> Returns c)"

text \<open>
  The two loops of \<^verbatim>\<open>onDeleteStream\<close> over \<^verbatim>\<open>this.players\<close>. Every session of the
  registry is a \<^verbatim>\<open>NodeRtmpSession\<close> (the HTTP server that makes the other kind is not
  part of the sources); for an id that the registry does not have, \<^verbatim>\<open>player\<close> is
  \<^verbatim>\<open>undefined\<close>, and \<^verbatim>\<open>player.stop()\<close> and \<^verbatim>\<open>player.isPlaying = false\<close> raise.
\<close>

fun unpublish_notify :: "session_id list \<Rightarrow> ctx \<Rightarrow> outcome" where
  "unpublish_notify [] c = Returns c"
| "unpublish_notify (j # rest) c =
     (case sessions_get c j of
        None \<Rightarrow> Throws TypeError c
      | Some player \<Rightarrow>
          thenO (sendStatusMessage j (playStreamId player) (JString (js ''status''))
                   (JString (js ''NetStream.Play.UnpublishNotify''))
                   (JString (js ''stream is now unpublished.'')) c)
            (unpublish_notify rest))"

fun unpublish_idle :: "session_id list \<Rightarrow> ctx \<Rightarrow> outcome" where
  "unpublish_idle [] c = Returns c"
| "unpublish_idle (j # rest) c =
     (case sessions_get c j of
        None \<Rightarrow> Throws TypeError (c\<lparr>idlePlayers := set_add (idlePlayers c) j\<rparr>)
      | Some player \<Rightarrow>
          thenO (sendStreamStatus j 0x01 (playStreamId player)
                   (upd j (\<lambda>ts. ts\<lparr>isPlaying := False, isIdling := True\<rparr>)
                      (c\<lparr>idlePlayers := set_add (idlePlayers c) j\<rparr>)))
            (unpublish_idle rest))"

text \<open>
  \<^verbatim>\<open>onDeleteStream(invokeMessage)\<close>; \<open>streamId\<close> is \<^verbatim>\<open>invokeMessage.streamId\<close>. In
  \<^verbatim>\<open>if (publisherId !== null)\<close> the id is \<^verbatim>\<open>undefined\<close>, not \<^verbatim>\<open>null\<close>, when the map has
  no publisher for the path, so the branch is always taken.
\<close>

definition onDeleteStream_play :: "session_id \<Rightarrow> ctx \<Rightarrow> outcome" where
  "onDeleteStream_play i c =
     with_this i c (\<lambda>s0.
       thenO
         (if isIdling s0 then
            Returns (upd i (\<lambda>ts. ts\<lparr>isIdling := False\<rparr>)
                       (c\<lparr>idlePlayers := set_delete (idlePlayers c) (sess_id s0)\<rparr>))
          else
            (case (case publishers c (playStreamPath s0) of
                     None \<Rightarrow> None
                   | Some p \<Rightarrow> map_option (\<lambda>ps. p) (sessions_get c p)) of
               None \<Rightarrow> Throws TypeError c
             | Some p \<Rightarrow>
                 Returns (upd i (\<lambda>ts. ts\<lparr>isPlaying := False\<rparr>)
                            (emit_unless_ipc ''donePlay'' i
                               (upd p (\<lambda>ps. ps\<lparr>players := set_delete (players ps) (sess_id s0)\<rparr>)
                                  c)))))
         (\<lambda>c1.
            thenO (if isStarting s0 then
                     sendStatusMessage i (playStreamId s0) (JString (js ''status''))
                       (JString (js ''NetStream.Play.Stop''))
                       (JString (js ''Stopped playing stream.'')) c1
                   else Returns c1)
              (\<lambda>c2. Returns (upd i (\<lambda>ts. ts\<lparr>playStreamId := 0, playStreamPath := []\<rparr>) c2))))"

definition onDeleteStream_publish :: "session_id \<Rightarrow> ctx \<Rightarrow> outcome" where
  "onDeleteStream_publish i c =
     with_this i c (\<lambda>s0.
       thenO
         (if isPublishing s0 then
            thenO (if isStarting s0 then
                     sendStatusMessage i (publishStreamId s0) (JString (js ''status''))
                       (JString (js ''NetStream.Unpublish.Success''))
                       (JString (publishStreamPath s0 @ js '' is now unpublished.''))
                       (emit_unless_ipc ''donePublish'' i c)
                   else Returns (emit_unless_ipc ''donePublish'' i c)) (\<lambda>c1.
            thenO (with_this i c1 (\<lambda>s1. unpublish_notify (players s1) c1)) (\<lambda>c2.
            thenO (with_this i c2 (\<lambda>s2. unpublish_idle (players s2) c2)) (\<lambda>c3.
              Returns
                (upd i (\<lambda>ts. ts\<lparr>rtmpGopCacheQueue := map_option (\<lambda>q. []) (rtmpGopCacheQueue ts),
                                 flvGopCacheQueue := map_option (\<lambda>q. []) (flvGopCacheQueue ts),
                                 players := [], isPublishing := False\<rparr>)
                   (c3\<lparr>publishers := (publishers c3)(publishStreamPath s0 := None)\<rparr>)))))
          else Returns c)
         (\<lambda>c4. Returns (upd i (\<lambda>ts. ts\<lparr>publishStreamId := 0, publishStreamPath := []\<rparr>) c4)))"

definition onDeleteStream :: "session_id \<Rightarrow> int \<Rightarrow> ctx \<Rightarrow> outcome" where
  "onDeleteStream i streamId c =
     thenO (with_this i c (\<lambda>s0.
              if streamId = playStreamId s0 then onDeleteStream_play i c else Returns c)) (\<lambda>c1.
       with_this i c1 (\<lambda>s1.
         if streamId = publishStreamId s1 then onDeleteStream_publish i c1 else Returns c1))"

subsection \<open>Stopping\<close>

definition stop :: "session_id \<Rightarrow> ctx \<Rightarrow> outcome" where
  "stop i c =
     with_this i c (\<lambda>s0.
       if isStarting s0 then
         thenO (let c0 = upd i (\<lambda>ts. ts\<lparr>isStarting := False\<rparr>) c
                in if playStreamId s0 > 0 then onDeleteStream i (playStreamId s0) c0
                   else Returns c0) (\<lambda>c1.
         thenO (with_this i c1 (\<lambda>s1.
                  if publishStreamId s1 > 0 then onDeleteStream i (publishStreamId s1) c1
                  else Returns c1)) (\<lambda>c2.
           Returns
             (upd i (\<lambda>ts. ts\<lparr>socket_destroyed := True\<rparr>)
                ((emit_unless_ipc ''doneConnect'' i (upd i (\<lambda>ts. ts\<lparr>pingInterval := False\<rparr>) c2))
                   \<lparr>sessions := set_delete (sessions c2) (sess_id s0)\<rparr>))))
       else Returns c)"

subsection \<open>Media messages\<close>

text \<open>
  The loop over \<^verbatim>\<open>this.players\<close> that ends the media handlers. \<open>gate\<close> is
  \<open>isReceiveAudio\<close> or \<open>isReceiveVideo\<close>, \<open>p\<close> the publisher. The buffer \<open>chunks\<close>
  is one object: each write of a play stream id at offset 8 changes it in place, and
  with it the last member of the publisher's queue when the handler has put the buffer
  there (\<open>cached\<close>). An id that the registry does not have is skipped.
\<close>

fun fanout ::
  "(session \<Rightarrow> bool) \<Rightarrow> session_id \<Rightarrow> session_id list \<Rightarrow> buffer \<Rightarrow> bool \<Rightarrow> ctx \<Rightarrow> outcome" where
  "fanout gate p [] chunks cached c = Returns c"
| "fanout gate p (j # rest) chunks cached c =
     (case sessions_get c j of
        None \<Rightarrow> fanout gate p rest chunks cached c
      | Some ps \<Rightarrow>
          if isStarting ps \<and> isPlaying ps \<and> \<not> isPause ps \<and> gate ps then
            liftE c (writeUInt32LE chunks (playStreamId ps) 8) (\<lambda>chunks'.
              thenO (socket_write j chunks'
                       (if cached
                        then upd p (\<lambda>ts. ts\<lparr>rtmpGopCacheQueue :=
                                           map_option (\<lambda>q. butlast q @ [chunks'])
                                             (rtmpGopCacheQueue ts)\<rparr>) c
                        else c))
                (fanout gate p rest chunks' cached))
          else fanout gate p rest chunks cached c)"

text \<open>
  \<^verbatim>\<open>this.rtmpGopCacheQueue.add(rtmpChunks); this.flvGopCacheQueue.add(flvTag)\<close>; the
  second raises when the FLV queue is \<^verbatim>\<open>null\<close>.
\<close>

definition gop_add :: "session_id \<Rightarrow> buffer \<Rightarrow> flv_tag \<Rightarrow> ctx \<Rightarrow> outcome" where
  "gop_add i chunks tag c =
     with_this i c (\<lambda>s.
       let c1 = upd i (\<lambda>ts. ts\<lparr>rtmpGopCacheQueue :=
                                map_option (\<lambda>q. q @ [chunks]) (rtmpGopCacheQueue ts)\<rparr>) c
       in case flvGopCacheQueue s of
            None \<Rightarrow> Throws TypeError c1
          | Some fq \<Rightarrow> Returns (upd i (\<lambda>ts. ts\<lparr>flvGopCacheQueue := Some (fq @ [tag])\<rparr>) c1))"

text \<open>\<^verbatim>\<open>this.rtmpGopCacheQueue.clear(); this.flvGopCacheQueue.clear()\<close>.\<close>

definition gop_clear :: "session_id \<Rightarrow> ctx \<Rightarrow> outcome" where
  "gop_clear i c =
     with_this i c (\<lambda>s.
       let c1 = upd i (\<lambda>ts. ts\<lparr>rtmpGopCacheQueue := Some []\<rparr>) c
       in case flvGopCacheQueue s of
            None \<Rightarrow> Throws TypeError c1
          | Some fq \<Rightarrow> Returns (upd i (\<lambda>ts. ts\<lparr>flvGopCacheQueue := Some []\<rparr>) c1))"

text \<open>
  The payload \<^verbatim>\<open>this.parserPacket.payload.slice(0, this.parserPacket.header.length)\<close> of
  the message that the parser has dispatched, and its first byte as the bitwise
  operators read it (0 for \<^verbatim>\<open>undefined\<close>).
\<close>

definition message_payload :: "rtmp_packet \<Rightarrow> error + buffer" where
  "message_payload pp =
     (case payload pp of None \<Rightarrow> Inl TypeError | Some pb \<Rightarrow> Inr (take (nat (len (header pp))) pb))"

definition first_byte :: "buffer \<Rightarrow> int" where
  "first_byte pl = (case buf_at pl 0 of None \<Rightarrow> 0 | Some v \<Rightarrow> v)"

text \<open>
  The first part of \<^verbatim>\<open>rtmpAudioHandler\<close>, \<^verbatim>\<open>if (!this.isFirstAudioReceived) { ... }\<close>,
  without the descriptive fields.
\<close>

definition audio_first :: "buffer \<Rightarrow> session \<Rightarrow> session" where
  "audio_first pl s =
     (if \<not> isFirstAudioReceived s then
        (let sound_format = js_and (js_sar (first_byte pl) 4) 0x0f;
             s1 = s\<lparr>audioCodec := sound_format\<rparr>
         in if sound_format = 10 then
              (if buf_at pl 1 = Some 0
               then s1\<lparr>isFirstAudioReceived := True, aacSequenceHeader := Some pl\<rparr>
               else s1)
            else s1\<lparr>isFirstAudioReceived := True\<rparr>)
      else s)"

definition rtmpAudioHandler :: "session_id \<Rightarrow> ctx \<Rightarrow> outcome" where
  "rtmpAudioHandler i c =
     with_this i c (\<lambda>s0.
       liftE c (bindE (cur_packet s0) (\<lambda>pp. bindE (message_payload pp) (\<lambda>pl. Inr (pp, pl))))
         (\<lambda>(pp, pl).
            let s1 = audio_first pl s0;
                c1 = upd i (\<lambda>ts. s1) c
            in liftE c1 (bindE (make_packet 4 8 (Some pl) 0 (clock pp)) (\<lambda>pk.
                         bindE (rtmpChunksCreate (outChunkSize s1) pk) (\<lambda>ch. Inr (pk, ch))))
                 (\<lambda>(packet, rtmpChunks).
                    let cached = (rtmpGopCacheQueue s1 \<noteq> None
                                  \<and> \<not> (aacSequenceHeader s1 \<noteq> None \<and> buf_at pl 1 = Some 0))
                    in thenO (if cached then gop_add i rtmpChunks (FlvTag packet) c1
                              else Returns c1)
                         (fanout isReceiveAudio i (players s1) rtmpChunks cached))))"

text \<open>The part \<^verbatim>\<open>if (!this.isFirstVideoReceived) { ... }\<close> of \<^verbatim>\<open>rtmpVideoHandler\<close>.\<close>

definition video_first :: "buffer \<Rightarrow> session \<Rightarrow> session" where
  "video_first pl s =
     (if \<not> isFirstVideoReceived s then
        (let codec_id = js_and (first_byte pl) 0x0f;
             frame_type = js_and (js_sar (first_byte pl) 4) 0x0f;
             s1 = s\<lparr>videoCodec := codec_id\<rparr>
         in if codec_id = 7 \<or> codec_id = 12 then
              (if frame_type = 1 \<and> buf_at pl 1 = Some 0
               then s1\<lparr>isFirstVideoReceived := True, avcSequenceHeader := Some pl,
                       rtmpGopCacheQueue := (if gopCacheEnable s then Some [] else None),
                       flvGopCacheQueue := (if gopCacheEnable s then Some [] else None)\<rparr>
               else s1)
            else s1\<lparr>isFirstVideoReceived := True\<rparr>)
      else s)"

definition rtmpVideoHandler :: "session_id \<Rightarrow> ctx \<Rightarrow> outcome" where
  "rtmpVideoHandler i c =
     with_this i c (\<lambda>s0.
       liftE c (bindE (cur_packet s0) (\<lambda>pp. bindE (message_payload pp) (\<lambda>pl. Inr (pp, pl))))
         (\<lambda>(pp, pl).
            let codec_id = js_and (first_byte pl) 0x0f;
                frame_type = js_and (js_sar (first_byte pl) 4) 0x0f;
                s1 = video_first pl s0;
                c1 = upd i (\<lambda>ts. s1) c
            in liftE c1 (bindE (make_packet 5 9 (Some pl) 0 (clock pp)) (\<lambda>pk.
                         bindE (rtmpChunksCreate (outChunkSize s1) pk) (\<lambda>ch. Inr (pk, ch))))
                 (\<lambda>(packet, rtmpChunks).
                    let caching = ((codec_id = 7 \<or> codec_id = 12) \<and> rtmpGopCacheQueue s1 \<noteq> None);
                        cached = (caching \<and> \<not> (frame_type = 1 \<and> buf_at pl 1 = Some 0))
                    in thenO (if caching \<and> frame_type = 1 \<and> buf_at pl 1 = Some 1
                              then gop_clear i c1 else Returns c1) (\<lambda>c2.
                       thenO (if cached then gop_add i rtmpChunks (FlvTag packet) c2
                              else Returns c2)
                         (fanout isReceiveVideo i (players s1) rtmpChunks cached)))))"

text \<open>
  The state of a session's parser when it dispatches a message: \<open>parserPacket\<close> is a
  packet with the message's header and clock, whose buffer holds the payload.
\<close>

definition dispatching :: "rtmp_packet \<Rightarrow> session \<Rightarrow> session" where
  "dispatching pk s =
     s\<lparr>parserPacket := Some (cid (header pk)), inPackets := (inPackets s)(cid (header pk) \<mapsto> pk)\<rparr>"

text \<open>A session as the constructor makes it and \<^verbatim>\<open>run()\<close> starts it.\<close>

definition new_session :: "session_id \<Rightarrow> bool \<Rightarrow> bool \<Rightarrow> bool \<Rightarrow> bool \<Rightarrow> int \<Rightarrow> session" where
  "new_session i authPublish authPlay local gop chunk_size =
     parser.extend new_parser
       (session.fields i authPublish authPlay False False local True False False False False
          False False True True None None None 0 0 gop None None
          (if chunk_size \<noteq> 0 then chunk_size else 128) False [] 0 [] None 0 [] None [])"

definition new_ctx :: ctx where
  "new_ctx = \<lparr>heap = (\<lambda>i. None), sessions = [], publishers = (\<lambda>p. None), idlePlayers = [],
              events = []\<rparr>"

text \<open>\<^verbatim>\<open>new NodeRtmpSession(config, socket)\<close> followed by \<^verbatim>\<open>run()\<close>.\<close>

definition accept :: "session \<Rightarrow> ctx \<Rightarrow> ctx" where
  "accept s c = c\<lparr>heap := (heap c)(sess_id s \<mapsto> s), sessions := set_add (sessions c) (sess_id s)\<rparr>"

subsection \<open>Reading back what a session has sent\<close>

text \<open>
  The messages that a peer with the chunk size \<open>chunkSize\<close> gets out of one written
  buffer: the buffer goes through \<^verbatim>\<open>rtmpChunkRead\<close> of a new parser whose handlers
  above return (\<open>quiet\<close>), and each dispatched message is given with its header and
  its payload.
\<close>

definition received :: "int \<Rightarrow> buffer \<Rightarrow> error + (rtmp_header \<times> buffer) list" where
  "received chunkSize data =
     bindE (rtmpChunkRead quiet data 0 (int (length data)) (new_parser\<lparr>inChunkSize := chunkSize\<rparr>))
       (\<lambda>s. Inr (map (\<lambda>pk. (header pk, case message_payload pk of Inl e \<Rightarrow> [] | Inr pl \<Rightarrow> pl))
                   (dispatched s)))"

text \<open>The subscriber of the scenarios: session \<open>B\<close>, playing stream 1 of \<open>/live/stream1\<close>.\<close>

definition subscriber :: session where
  "subscriber =
     (new_session ''B'' False False False True 0)
       \<lparr>appname := js ''live'', playStreamId := 1, playStreamPath := js ''/live/stream1''\<rparr>"


text \<open>
  Session \<open>A\<close> of the application \<open>live\<close>, on a server that asks for a signature to
  play; its parser has dispatched a command on message stream 1.
\<close>

definition guarded_viewer :: session where
  "guarded_viewer =
     dispatching
       ((RtmpPacket_create 0 3)
          \<lparr>header := \<lparr>fmt = 0, cid = 3, timestamp = 0, len = 0, type_id = 20, stream_id = 1\<rparr>\<rparr>)
       ((new_session ''A'' False True False True 0)\<lparr>appname := js ''live''\<rparr>)"

subsection \<open>A second publisher for a path\<close>

text \<open>
  The status object that \<^verbatim>\<open>onPublish\<close> sends for a path that has a publisher, and the
  payload of the command message that carries it.
\<close>

definition badname_status :: "(jstring \<times> jsval) list" where
  "badname_status =
     status_opt (JString (js ''error'')) (JString (js ''NetStream.Publish.BadName''))
       (JString (js ''Stream already publishing''))"

definition badname_payload :: buffer where
  "badname_payload = (case encodeAMF0Cmd badname_status of Inl e \<Rightarrow> [] | Inr pl \<Rightarrow> pl)"

text \<open>
  What a peer reads from the buffers that a session has written to its socket: for each
  buffer the command messages in it, by type, message stream id and decoded command.
\<close>

definition sent_commands :: "session \<Rightarrow> (int \<times> int \<times> (error + jsval)) list list" where
  "sent_commands s =
     map (\<lambda>b. case received (outChunkSize s) b of
                 Inl e \<Rightarrow> []
               | Inr ms \<Rightarrow> map (\<lambda>(h, pl). (type_id h, stream_id h, decodeAMF0Cmd pl)) ms)
       (socket_written s)"

text \<open>
  The scenarios. Session \<open>B\<close> publishes \<open>/live/stream1\<close> on its message stream 1 and has
  the player \<open>P\<close>. A session of the application \<open>live\<close> has dispatched a command on
  message stream 1 (\<open>publish_attempt\<close>); \<open>busy_publisher\<close> is such a session \<open>A\<close> that
  publishes \<open>/live/other\<close> already. \<open>one_publisher a\<close> is the broker with \<open>B\<close> and \<open>a\<close>
  registered.
\<close>

definition incumbent :: session where
  "incumbent =
     (new_session ''B'' False False False True 0)
       \<lparr>appname := js ''live'', isPublishing := True, publishStreamId := 1,
        publishStreamPath := js ''/live/stream1'', players := [''P'']\<rparr>"

definition publish_attempt :: "session_id \<Rightarrow> bool \<Rightarrow> session" where
  "publish_attempt i authPublish =
     dispatching
       ((RtmpPacket_create 0 3)
          \<lparr>header := \<lparr>fmt = 0, cid = 3, timestamp = 0, len = 0, type_id = 20, stream_id = 1\<rparr>\<rparr>)
       ((new_session i authPublish False False True 0)\<lparr>appname := js ''live''\<rparr>)"

definition busy_publisher :: session where
  "busy_publisher =
     (publish_attempt ''A'' False)
       \<lparr>isPublishing := True, publishStreamId := 1, publishStreamPath := js ''/live/other''\<rparr>"

definition one_publisher :: "session \<Rightarrow> ctx" where
  "one_publisher a =
     (accept a (accept incumbent new_ctx))
       \<lparr>publishers := (\<lambda>p. if p = js ''/live/stream1'' then Some ''B''
                             else if isPublishing a \<and> p = publishStreamPath a then Some (sess_id a)
                             else None)\<rparr>"

subsection \<open>A publisher and its media messages\<close>

text \<open>
  Session \<open>P\<close>, with the GOP cache enabled, publishes \<open>/live/stream1\<close> (\<open>live_stream\<close> is
  the broker with this one session). \<open>on_audio\<close> and \<open>on_video\<close> are the calls of the
  media handlers by \<^verbatim>\<open>rtmpHandler\<close> for a message with the payload \<open>pl\<close> that the parser
  of the session has put together: \<open>parserPacket\<close> has the length of the payload in
  its header, the clock 0, and a buffer of 1024 bytes more than the payload, as
  \<^verbatim>\<open>rtmpPacketAlloc\<close> makes it.
\<close>

definition broadcaster :: session where
  "broadcaster =
     (new_session ''P'' False False False True 0)
       \<lparr>appname := js ''live'', isPublishing := True, publishStreamId := 1,
        publishStreamPath := js ''/live/stream1''\<rparr>"

definition live_stream :: ctx where
  "live_stream =
     (accept broadcaster new_ctx)
       \<lparr>publishers := (\<lambda>p. if p = js ''/live/stream1'' then Some ''P'' else None)\<rparr>"

definition media_message :: "int \<Rightarrow> int \<Rightarrow> buffer \<Rightarrow> rtmp_packet" where
  "media_message c t pl =
     (RtmpPacket_create 0 c)
       \<lparr>header := \<lparr>fmt = 0, cid = c, timestamp = 0, len = int (length pl), type_id = t,
                    stream_id = 1\<rparr>,
        payload := Some (pl @ replicate 1024 0), capacity := int (length pl) + 1024\<rparr>"

definition on_audio :: "session_id \<Rightarrow> buffer \<Rightarrow> ctx \<Rightarrow> outcome" where
  "on_audio i pl c = rtmpAudioHandler i (upd i (dispatching (media_message 4 8 pl)) c)"

definition on_video :: "session_id \<Rightarrow> buffer \<Rightarrow> ctx \<Rightarrow> outcome" where
  "on_video i pl c = rtmpVideoHandler i (upd i (dispatching (media_message 6 9 pl)) c)"


chapter \<open>Properties\<close>

section \<open>JavaScript integers in range\<close>

lemma ToInt32_id: "- (2 ^ 31) \<le> x \<Longrightarrow> x < 2 ^ 31 \<Longrightarrow> ToInt32 x = x"
  by (simp add: ToInt32_def)

lemma js_shl_small: "0 \<le> a \<Longrightarrow> a < 2 ^ 16 \<Longrightarrow> 0 \<le> k \<Longrightarrow> k \<le> 8 \<Longrightarrow> js_shl a k = a * 2 ^ nat k"
proof -
  assume a: "0 \<le> a" "a < 2 ^ 16" and k: "0 \<le> k" "k \<le> 8"
  have "a * 2 ^ nat k \<le> a * 2 ^ 8"
    using a k by (intro mult_left_mono power_increasing) auto
  also have "\<dots> < 2 ^ 31" using a by simp
  finally have "a * 2 ^ nat k < 2 ^ 31" .
  moreover have "0 \<le> a * 2 ^ nat k" using a by simp
  moreover have "k mod 32 = k" using k by simp
  moreover have "- (2 ^ 31) \<le> a * 2 ^ nat k" using a by (simp add: order_trans [of _ 0])
  moreover have "ToInt32 a = a" using a by (simp add: ToInt32_id)
  ultimately show ?thesis
    by (simp add: js_shl_def ToInt32_id push_bit_eq_mult)
qed

lemma js_and_nonneg: "0 \<le> a \<Longrightarrow> a < 2 ^ 31 \<Longrightarrow> 0 \<le> b \<Longrightarrow> b < 2 ^ 31 \<Longrightarrow> js_and a b = a AND b"
  by (simp add: js_and_def ToInt32_id)

lemma js_or_nonneg: "0 \<le> a \<Longrightarrow> a < 2 ^ 31 \<Longrightarrow> 0 \<le> b \<Longrightarrow> b < 2 ^ 31 \<Longrightarrow> js_or a b = a OR b"
  by (simp add: js_or_def ToInt32_id)

lemma js_sar_nonneg: "0 \<le> a \<Longrightarrow> a < 2 ^ 31 \<Longrightarrow> 0 \<le> k \<Longrightarrow> k < 32 \<Longrightarrow> js_sar a k = a div 2 ^ nat k"
  by (simp add: js_sar_def ToInt32_id drop_bit_eq_div)

lemma and_255: "(a::int) AND 255 = a mod 256"
proof -
  have "a AND mask 8 = take_bit 8 a" by (simp add: take_bit_eq_mask)
  then show ?thesis by (simp add: take_bit_eq_mod mask_eq_exp_minus_1)
qed

lemma and_63: "(a::int) AND 63 = a mod 64"
proof -
  have "a AND mask 6 = take_bit 6 a" by (simp add: take_bit_eq_mask)
  then show ?thesis by (simp add: take_bit_eq_mod mask_eq_exp_minus_1)
qed

lemma or_shift6: "0 \<le> (c::int) \<Longrightarrow> c < 64 \<Longrightarrow> (f * 64) OR c = f * 64 + c"
proof -
  assume c: "0 \<le> c" "c < 64"
  have "push_bit 6 f + take_bit 6 c = push_bit 6 f OR take_bit 6 c"
    by (rule disjunctive_add_eq_or) (simp add: bit_eq_iff bit_simps)
  moreover have "take_bit 6 c = c" using c by (simp add: take_bit_int_eq_self)
  ultimately show ?thesis by (simp add: push_bit_eq_mult)
qed

lemma or_0_js: "js_or a 0 = ToInt32 a" by (simp add: js_or_def ToInt32_def)

lemma basic1:
  assumes "0 \<le> f" "f \<le> 3" "0 \<le> c" "c \<le> 63"
  shows "rtmpChunkBasicHeaderCreate f c = [word_of_int (f * 64 + c)]"
proof -
  have s: "js_shl f 6 = f * 64" using assms js_shl_small[of f 6] by simp
  have "js_or (f * 64) c = (f * 64) OR c" using assms by (intro js_or_nonneg) auto
  then show ?thesis using assms by (simp add: rtmpChunkBasicHeaderCreate_def s or_shift6)
qed

lemma basic2:
  assumes "0 \<le> f" "f \<le> 3" "64 \<le> c" "c \<le> 318"
  shows "rtmpChunkBasicHeaderCreate f c = [word_of_int (f * 64), word_of_int (c - 64)]"
proof -
  have s: "js_shl f 6 = f * 64" using assms js_shl_small[of f 6] by simp
  have o: "js_or (f * 64) 0 = f * 64" using assms by (simp add: or_0_js ToInt32_id)
  have a: "js_and (c - 64) 0xFF = (c - 64) mod 256" using assms js_and_nonneg[of "c - 64" 255] by (simp add: and_255)
  show ?thesis using assms by (simp add: rtmpChunkBasicHeaderCreate_def s o a)
qed

lemma basic3:
  assumes "0 \<le> f" "f \<le> 3" "319 \<le> c" "c \<le> 65599"
  shows "rtmpChunkBasicHeaderCreate f c = [word_of_int (f * 64 + 1), word_of_int ((c - 64) mod 256), word_of_int ((c - 64) div 256)]"
proof -
  have s: "js_shl f 6 = f * 64" using assms js_shl_small[of f 6] by simp
  have o: "js_or (f * 64) 1 = f * 64 + 1" using assms js_or_nonneg[of "f * 64" 1] or_shift6[of 1 f] by simp
  have a: "js_and (c - 64) 0xFF = (c - 64) mod 256" using assms js_and_nonneg[of "c - 64" 255] by (simp add: and_255)
  have d: "js_sar (c - 64) 8 = (c - 64) div 256" using assms js_sar_nonneg[of "c - 64" 8] by simp
  have "(c - 64) div 256 < 256" using assms by simp
  moreover have "0 \<le> (c - 64) div 256" using assms by simp
  ultimately have b: "js_and ((c - 64) div 256) 0xFF = (c - 64) div 256"
    using js_and_nonneg[of "(c - 64) div 256" 255] by (simp add: and_255)
  show ?thesis using assms by (simp add: rtmpChunkBasicHeaderCreate_def s o a d b)
qed

lemma uint8_small: "0 \<le> x \<Longrightarrow> x < 256 \<Longrightarrow> uint (word_of_int x :: 8 word) = x"
  by (simp add: uint_word_of_int)

lemma nth0_single: "[x] ! 0 = x" by simp
lemma nth_pair: "[x, y] ! 0 = x" "[x, y] ! 1 = y" by simp_all
lemma nth_triple: "[x, y, z] ! 0 = x" "[x, y, z] ! 1 = y" "[x, y, z] ! 2 = z" by simp_all

section \<open>The basic header\<close>

text \<open>
  C4, as amended. For every \<open>fmt\<close> in 0..3 \<^verbatim>\<open>rtmpChunkBasicHeaderCreate(fmt, cid)\<close> puts
  \<open>fmt\<close> in the two high bits of the first byte and emits one byte with \<open>cid\<close> in the
  low six bits for every cid in 2..63, two bytes with low six bits 0 and second byte
  \<open>cid - 64\<close> for every cid in 64..318, and three bytes with low six bits 1 and
  \<open>cid - 64\<close> little-endian in the last two bytes for every cid in 319..65599. (The
  claim has the two-byte form up to 319; the guard of the code is \<^verbatim>\<open>cid >= 64 + 255\<close>.)
\<close>

theorem basic_header_layout:
  assumes "0 \<le> f" "f \<le> 3" "2 \<le> c" "c \<le> 65599"
  shows "let out = rtmpChunkBasicHeaderCreate f c in
           drop_bit 6 (uint (out ! 0)) = f \<and>
           (if c \<le> 63 then length out = 1 \<and> uint (out ! 0) AND 63 = c
            else if c \<le> 318 then length out = 2 \<and> uint (out ! 0) AND 63 = 0 \<and> uint (out ! 1) = c - 64
            else length out = 3 \<and> uint (out ! 0) AND 63 = 1
                 \<and> uint (out ! 1) + 256 * uint (out ! 2) = c - 64)"
proof -
  consider "c \<le> 63" | "64 \<le> c" "c \<le> 318" | "319 \<le> c" by linarith
  then show ?thesis
  proof cases
    case 1
    have e: "rtmpChunkBasicHeaderCreate f c = [word_of_int (f * 64 + c)]"
      using assms 1 by (intro basic1) auto
    have u: "uint (word_of_int (f * 64 + c) :: 8 word) = f * 64 + c"
      using assms 1 by (intro uint8_small) auto
    have "(f * 64 + c) div 64 = f" "(f * 64 + c) mod 64 = c" using assms 1 by auto
    then show ?thesis using 1 unfolding Let_def e nth0_single u
      by (simp add: and_63 drop_bit_eq_div)
  next
    case 2
    have e: "rtmpChunkBasicHeaderCreate f c = [word_of_int (f * 64), word_of_int (c - 64)]"
      using assms 2 by (intro basic2) auto
    have u: "uint (word_of_int (f * 64) :: 8 word) = f * 64"
      using assms by (intro uint8_small) auto
    have v: "uint (word_of_int (c - 64) :: 8 word) = c - 64"
      using 2 by (intro uint8_small) auto
    show ?thesis using 2 unfolding Let_def e nth_pair u v
      by (simp add: and_63 drop_bit_eq_div)
  next
    case 3
    have e: "rtmpChunkBasicHeaderCreate f c =
               [word_of_int (f * 64 + 1), word_of_int ((c - 64) mod 256), word_of_int ((c - 64) div 256)]"
      using assms 3 by (intro basic3) auto
    have u: "uint (word_of_int (f * 64 + 1) :: 8 word) = f * 64 + 1"
      using assms by (intro uint8_small) auto
    have v: "uint (word_of_int ((c - 64) mod 256) :: 8 word) = (c - 64) mod 256"
      by (intro uint8_small) auto
    have w: "uint (word_of_int ((c - 64) div 256) :: 8 word) = (c - 64) div 256"
      using assms 3 by (intro uint8_small) auto
    have m: "(f * 64 + 1) mod 64 = 1" "(f * 64 + 1) div 64 = f" by simp_all
    show ?thesis using 3 m unfolding Let_def e nth_triple u v w
      by (simp add: and_63 drop_bit_eq_div)
  qed
qed

text \<open>The witness of C4: the boundary \<open>cid = 319\<close>, with \<open>fmt = 2\<close>.\<close>

theorem basic_header_layout_witness:
  "(0::int) \<le> 2 \<and> (2::int) \<le> 3 \<and> (2::int) \<le> 319 \<and> (319::int) \<le> 65599
   \<and> length (rtmpChunkBasicHeaderCreate 2 319) = 3
   \<and> uint (rtmpChunkBasicHeaderCreate 2 319 ! 1) + 256 * uint (rtmpChunkBasicHeaderCreate 2 319 ! 2) = 319 - 64"
  using basic_header_layout [of 2 319] by (simp add: Let_def)

text \<open>
  The counterexample of C4: for \<open>cid = 319\<close> the header has three bytes, not the two
  that the claim states for 64..319.
\<close>

theorem basic_header_319_counterexample:
  "rtmpChunkBasicHeaderCreate 0 319 = [1, 255, 0] \<and> length (rtmpChunkBasicHeaderCreate 0 319) \<noteq> 2"
  by (simp add: rtmpChunkBasicHeaderCreate_def js_or_def js_shl_def js_and_def js_sar_def ToInt32_def)

text \<open>
  C3 (a defect of the code). After the three basic-header bytes \<open>0x01, 0x01, 0x00\<close>
  (3-byte form, \<open>b1 = 1\<close>, \<open>b2 = 0\<close>) the parser's chunk-stream id is
  \<open>(64 + 1 + 0) << 8 = 16640\<close>, where the claim has \<open>64 + 1 + 0 * 256 = 65\<close>; the same
  value is the key of the packet once \<^verbatim>\<open>rtmpChunkRead\<close> has read a whole type-0 header
  that starts with these bytes.
\<close>

theorem parse_cid_three_byte_form:
  "rtmpPacketParse_cid (new_parser\<lparr>parserBuffer := [1, 1, 0] @ replicate 15 0, parserBasicBytes := 3\<rparr>) = 16640
   \<and> (16640 :: int) \<noteq> 64 + 1 + 0 * 256
   \<and> map_sum id parserPacket
        (rtmpChunkRead H [1, 1, 0, 0, 0, 0, 0, 0, 0, 0, 0, 0, 0, 0] 0 14 new_parser)
      = Inr (Some 16640)"
  by code_simp

section \<open>The chunk codec: encoding, then decoding\<close>

subsection \<open>Byte strings of numbers\<close>

lemma length_be_bytes [simp]: "length (be_bytes n v) = n"
  by (induction n arbitrary: v) auto

lemma length_le_bytes [simp]: "length (le_bytes n v) = n"
  by (simp add: le_bytes_def)

lemma uint8_mod: "uint (word_of_int x :: 8 word) = x mod 256"
  by (simp add: uint_word_of_int)

lemma be_value_snoc: "be_value (bs @ [b]) = be_value bs * 256 + uint b"
  by (simp add: be_value_def)

lemma be_value_be_bytes: "0 \<le> v \<Longrightarrow> v < 2 ^ (8 * n) \<Longrightarrow> be_value (be_bytes n v) = v"
proof (induction n arbitrary: v)
  case 0
  then show ?case by (simp add: be_value_def)
next
  case (Suc n)
  have "v div 256 < 2 ^ (8 * n)"
  proof -
    have "v < 256 * 2 ^ (8 * n)" using Suc.prems(2) by (simp add: power_add)
    then show ?thesis using Suc.prems(1) by (simp add: div_less_iff_less_mult mult.commute)
  qed
  moreover have "0 \<le> v div 256" using Suc.prems(1) by simp
  ultimately have "be_value (be_bytes n (v div 256)) = v div 256" by (rule Suc.IH[rotated])
  then show ?case by (simp add: be_value_snoc uint8_mod)
qed

lemma le_value_le_bytes: "0 \<le> v \<Longrightarrow> v < 2 ^ (8 * n) \<Longrightarrow> le_value (le_bytes n v) = v"
  by (simp add: le_value_def le_bytes_def be_value_be_bytes)

subsection \<open>The message header of the encoder\<close>

lemma buf_patch_app:
  "length mid = length bs \<Longrightarrow> off = int (length pre) \<Longrightarrow> buf_patch (pre @ mid @ post) off bs = pre @ bs @ post"
  by (simp add: buf_patch_def)

lemma writeUIntBE_app:
  assumes "0 \<le> v" "v < 2 ^ (8 * n)" "off = int (length pre)" "length mid = n"
  shows "writeUIntBE (pre @ mid @ post) v off n = Inr (pre @ be_bytes n v @ post)"
  using assms by (simp add: writeUIntBE_def buf_patch_app)

lemma writeUIntLE_app:
  assumes "0 \<le> v" "v < 2 ^ (8 * n)" "off = int (length pre)" "length mid = n"
  shows "writeUIntLE (pre @ mid @ post) v off n = Inr (pre @ le_bytes n v @ post)"
  using assms by (simp add: writeUIntLE_def buf_patch_app)

lemma length_message_header [simp]:
  "length (message_header f tsv l t sid) = (if f = 0 then 11 else 7)"
  by (simp add: message_header_def)

lemma zeros_lit:
  "replicate 11 (0::8 word) = [0,0,0,0,0,0,0,0,0,0,0]"
  "replicate 8 (0::8 word) = [0,0,0,0,0,0,0,0]"
  "replicate 7 (0::8 word) = [0,0,0,0,0,0,0]"
  "replicate 5 (0::8 word) = [0,0,0,0,0]"
  "replicate 4 (0::8 word) = [0,0,0,0]"
  by (simp_all add: numeral_eq_Suc)

lemma header_writes:
  assumes "0 \<le> tsv" "tsv < 2 ^ 24" "0 \<le> l" "l < 2 ^ 24" "0 \<le> t" "t < 256" "0 \<le> sid" "sid < 2 ^ 32"
  shows "bindE (writeUIntBE (replicate 11 0) tsv 0 3) (\<lambda>out1.
           bindE (bindE (writeUIntBE out1 l 3 3) (\<lambda>ob. writeUIntBE ob t 6 1)) (\<lambda>out2.
             writeUIntLE out2 sid 7 4))
         = Inr (message_header 0 tsv l t sid)"
proof -
  have w1: "writeUIntBE ([] @ [0,0,0] @ [0,0,0,0,0,0,0,0]) tsv 0 3 = Inr ([] @ be_bytes 3 tsv @ [0,0,0,0,0,0,0,0])"
    using assms by (intro writeUIntBE_app) auto
  have w2: "writeUIntBE (be_bytes 3 tsv @ [0,0,0] @ [0,0,0,0,0]) l 3 3 = Inr (be_bytes 3 tsv @ be_bytes 3 l @ [0,0,0,0,0])"
    using assms by (intro writeUIntBE_app) auto
  have w3: "writeUIntBE ((be_bytes 3 tsv @ be_bytes 3 l) @ [0] @ [0,0,0,0]) t 6 1
            = Inr ((be_bytes 3 tsv @ be_bytes 3 l) @ be_bytes 1 t @ [0,0,0,0])"
    using assms by (intro writeUIntBE_app) auto
  have w4: "writeUIntLE ((be_bytes 3 tsv @ be_bytes 3 l @ be_bytes 1 t) @ [0,0,0,0] @ []) sid 7 4
            = Inr ((be_bytes 3 tsv @ be_bytes 3 l @ be_bytes 1 t) @ le_bytes 4 sid @ [])"
    using assms by (intro writeUIntLE_app) auto
  show ?thesis
    using w1 w2 w3 w4 unfolding message_header_def bindE_def zeros_lit
    by (simp only: sum.case append_Nil append_Nil2 append_assoc append_Cons simp_thms if_True)
qed

lemma header_writes1:
  assumes "0 \<le> tsv" "tsv < 2 ^ 24" "0 \<le> l" "l < 2 ^ 24" "0 \<le> t" "t < 256"
  shows "bindE (writeUIntBE (replicate 7 0) tsv 0 3) (\<lambda>out1.
           bindE (bindE (writeUIntBE out1 l 3 3) (\<lambda>ob. writeUIntBE ob t 6 1)) (\<lambda>out2. Inr out2))
         = Inr (message_header 1 tsv l t sid)"
proof -
  have w1: "writeUIntBE ([] @ [0,0,0] @ [0,0,0,0]) tsv 0 3 = Inr ([] @ be_bytes 3 tsv @ [0,0,0,0])"
    using assms by (intro writeUIntBE_app) auto
  have w2: "writeUIntBE (be_bytes 3 tsv @ [0,0,0] @ [0]) l 3 3 = Inr (be_bytes 3 tsv @ be_bytes 3 l @ [0])"
    using assms by (intro writeUIntBE_app) auto
  have w3: "writeUIntBE ((be_bytes 3 tsv @ be_bytes 3 l) @ [0] @ []) t 6 1
            = Inr ((be_bytes 3 tsv @ be_bytes 3 l) @ be_bytes 1 t @ [])"
    using assms by (intro writeUIntBE_app) auto
  have f: "(1::int) \<noteq> 0" by simp
  show ?thesis
    using w1 w2 w3 unfolding message_header_def bindE_def zeros_lit
    by (simp only: sum.case append_Nil append_Nil2 append_assoc append_Cons f if_False)
qed

lemma rtmpChunkMessageHeaderCreate_fmt01:
  assumes "f = 0 \<or> f = 1" "0 \<le> ts" "0 \<le> l" "l < 2 ^ 24" "0 \<le> t" "t < 256" "0 \<le> sid" "sid < 2 ^ 32"
  shows "rtmpChunkMessageHeaderCreate \<lparr>fmt = f, cid = c, timestamp = ts, len = l, type_id = t, stream_id = sid\<rparr>
         = Inr (message_header f (if ts \<ge> 0xffffff then 0xffffff else ts) l t sid)"
proof (cases "f = 0")
  case True
  have a: "buf_alloc 11 = Inr (replicate 11 0)" by (simp add: buf_alloc_def)
  have e: "rtmpChunkMessageHeaderCreate \<lparr>fmt = 0, cid = c, timestamp = ts, len = l, type_id = t, stream_id = sid\<rparr>
        = bindE (writeUIntBE (replicate 11 0) (if ts \<ge> 0xffffff then 0xffffff else ts) 0 3) (\<lambda>out1.
           bindE (bindE (writeUIntBE out1 l 3 3) (\<lambda>ob. writeUIntBE ob t 6 1)) (\<lambda>out2.
             writeUIntLE out2 sid 7 4))"
    unfolding rtmpChunkMessageHeaderCreate_def
    by (simp add: js_rem_def rtmpHeaderSize_def a writeUInt8_def writeUInt32LE_def bindE_def [of "Inr _"]
          del: be_bytes.simps split del: if_split cong: if_cong)
  show ?thesis
  proof (cases "ts \<ge> 0xffffff")
    case True
    then show ?thesis using e header_writes [of 16777215 l t sid] assms \<open>f = 0\<close> by simp
  next
    case False
    then show ?thesis using e header_writes [of ts l t sid] assms \<open>f = 0\<close> by simp
  qed
next
  case False
  then have f1: "f = 1" using assms(1) by simp
  have a: "buf_alloc 7 = Inr (replicate 7 0)" by (simp add: buf_alloc_def)
  have e: "rtmpChunkMessageHeaderCreate \<lparr>fmt = 1, cid = c, timestamp = ts, len = l, type_id = t, stream_id = sid\<rparr>
        = bindE (writeUIntBE (replicate 7 0) (if ts \<ge> 0xffffff then 0xffffff else ts) 0 3) (\<lambda>out1.
           bindE (bindE (writeUIntBE out1 l 3 3) (\<lambda>ob. writeUIntBE ob t 6 1)) (\<lambda>out2. Inr out2))"
    unfolding rtmpChunkMessageHeaderCreate_def
    by (simp add: js_rem_def rtmpHeaderSize_def a writeUInt8_def writeUInt32LE_def bindE_def [of "Inr _"]
          del: be_bytes.simps split del: if_split cong: if_cong)
  show ?thesis
  proof (cases "ts \<ge> 0xffffff")
    case True
    then show ?thesis using e header_writes1 [of 16777215 l t sid] assms f1 by simp
  next
    case False
    then show ?thesis using e header_writes1 [of ts l t sid] assms f1 by simp
  qed
qed

subsection \<open>The loop of the encoder\<close>

lemma buf_copy_zeros:
  assumes "targetStart = int (length pre)" "sourceStart = int a" "sourceEnd = int (a + n)"
    "a + n \<le> length src" "0 < n" "n \<le> m"
  shows "buf_copy src (pre @ replicate m 0 @ post) targetStart sourceStart sourceEnd
         = Inr (pre @ take n (drop a src) @ replicate (m - n) 0 @ post)"
proof -
  have nb: "min (min (sourceEnd - sourceStart) (int (length (pre @ replicate m 0 @ post)) - targetStart))
                (int (length src) - sourceStart) = int n"
    using assms by auto
  have d: "drop (nat (targetStart + int n)) (pre @ replicate m 0 @ post) = replicate (m - n) 0 @ post"
    using assms by (simp add: nat_add_distrib)
  show ?thesis
    unfolding buf_copy_def Let_def nb d using assms by auto
qed

lemma writeUInt32BE_zeros:
  assumes "0 \<le> v" "v < 2 ^ 32" "off = int (length pre)"
  shows "writeUInt32BE (pre @ replicate 4 0 @ post) v off = Inr (pre @ be_bytes 4 v @ post)"
  unfolding writeUInt32BE_def using assms by (intro writeUIntBE_app) auto

lemma chunked_short: "length pl \<le> n \<Longrightarrow> chunked n sep pl = pl"
  by (subst chunked.simps) simp

lemma chunked_long: "0 < n \<Longrightarrow> n < length pl \<Longrightarrow> chunked n sep pl = take n pl @ sep @ chunked n sep (drop n pl)"
  by (subst chunked.simps) simp

lemma div_step: "0 < (C::nat) \<Longrightarrow> C < k \<Longrightarrow> (k - 1) div C = Suc ((k - C - 1) div C)"
proof -
  assume a: "0 < C" "C < k"
  then have "\<not> k - 1 < C" by arith
  then have "C \<le> k - 1" by simp
  with a(1) have "(k - 1) div C = Suc ((k - 1 - C) div C)" by (rule le_div_geq)
  moreover have "k - 1 - C = k - C - 1" by arith
  ultimately show ?thesis by simp
qed

lemma loop_correct:
  assumes C: "0 < C" and ts: "0 \<le> ts" "ts < 2 ^ 32"
    and sep: "sep = bh3 @ (if useExt then be_bytes 4 ts else [])" and bh3: "bh3 \<noteq> []"
  shows "1 \<le> k \<Longrightarrow> poff + k = length P \<Longrightarrow>
         rtmpChunksCreate_loop bh3 useExt ts (int C) (Some P) (int k) (int (length pre)) (int poff)
           (pre @ replicate (k + ((k - 1) div C) * length sep) 0)
         = Some (Inr (pre @ chunked C sep (drop poff P)))"
proof (induction k arbitrary: pre poff rule: less_induct)
  case (less k)
  show ?case
  proof (cases "C < k")
    case False
    then have kd: "(k - 1) div C = 0" using less.prems C by simp
    have c1: "buf_copy P (pre @ replicate k 0 @ []) (int (length pre)) (int poff) (int poff + int k)
              = Inr (pre @ take k (drop poff P) @ replicate (k - k) 0 @ [])"
      using less.prems by (intro buf_copy_zeros) auto
    have t: "take k (drop poff P) = drop poff P" using less.prems by simp
    have ch: "chunked C sep (drop poff P) = drop poff P"
      using False less.prems by (intro chunked_short) simp
    show ?thesis
      apply (subst rtmpChunksCreate_loop.simps)
      using False less.prems c1 t ch kd
      apply (simp add: rtmpChunksCreate_loop.simps [of _ _ _ _ _ 0])
      done
  next
    case True
    define k' where "k' = k - C"
    have k': "1 \<le> k'" "k' < k" "k = C + k'" using True C by (auto simp: k'_def)
    define z where "z = k' + ((k' - 1) div C) * length sep"
    have "k + ((k - 1) div C) * length sep = k + Suc ((k - C - 1) div C) * length sep"
      using div_step [OF C True] by simp
    also have "\<dots> = C + (length sep + ((k - C) + ((k - C - 1) div C) * length sep))"
      using True by simp
    finally have zeros: "k + ((k - 1) div C) * length sep = C + (length sep + z)"
      by (simp only: z_def k'_def)
    define piece where "piece = take C (drop poff P)"
    have lp: "length piece = C" using less.prems k' by (simp add: piece_def)
    have c1: "buf_copy P (pre @ replicate (C + (length sep + z)) 0 @ []) (int (length pre)) (int poff) (int poff + int C)
              = Inr (pre @ piece @ replicate (C + (length sep + z) - C) 0 @ [])"
      unfolding piece_def using less.prems k' C by (intro buf_copy_zeros) auto
    have ls: "length sep = length bh3 + (if useExt then 4 else 0)" by (simp add: sep)
    have c2: "buf_copy bh3 ((pre @ piece) @ replicate (length sep + z) 0 @ []) (int (length pre) + int C) 0 (int (length bh3))
              = Inr ((pre @ piece) @ take (length bh3) (drop 0 bh3) @ replicate (length sep + z - length bh3) 0 @ [])"
      using bh3 lp ls by (intro buf_copy_zeros) auto
    have chl: "chunked C sep (drop poff P) = piece @ sep @ chunked C sep (drop (poff + C) P)"
      using chunked_long [of C "drop poff P" sep] C True less.prems
      by (simp add: piece_def add.commute)
    have pk: "(poff + C) + k' = length P" using less.prems k' by arith
    have IH: "rtmpChunksCreate_loop bh3 useExt ts (int C) (Some P) (int k') (int (length pre')) (int (poff + C))
           (pre' @ replicate z 0) = Some (Inr (pre' @ chunked C sep (drop (poff + C) P)))" for pre'
      unfolding z_def by (rule less.IH [OF k'(2) k'(1) pk])
    have kk: "int k - int C = int k'" "0 < int k" "int C < int k" using k' True by auto
    have step: "rtmpChunksCreate_loop bh3 useExt ts (int C) (Some P) (int k) (int (length pre)) (int poff)
                  (pre @ replicate (C + (length sep + z)) 0)
                = rtmpChunksCreate_loop bh3 useExt ts (int C) (Some P) (int k') (int (length (pre @ piece @ sep)))
                    (int (poff + C)) ((pre @ piece @ sep) @ replicate z 0)"
    proof (cases useExt)
      case False
      have s: "sep = bh3" using False sep by simp
      show ?thesis
        apply (subst rtmpChunksCreate_loop.simps)
        using c1 c2 lp False kk
        apply (simp add: s add.assoc)
        done
    next
      case True
      have s: "sep = bh3 @ be_bytes 4 ts" using True sep by simp
      have r: "replicate (length sep + z - length bh3) (0::8 word) = replicate 4 0 @ replicate z 0"
        using s by (simp add: replicate_add [symmetric])
      have c3: "writeUInt32BE ((pre @ piece @ bh3) @ replicate 4 0 @ replicate z 0) ts (int (length pre) + int C + int (length bh3))
                = Inr ((pre @ piece @ bh3) @ be_bytes 4 ts @ replicate z 0)"
        using ts lp by (intro writeUInt32BE_zeros) auto
      show ?thesis
        apply (subst rtmpChunksCreate_loop.simps)
        using c1 c2 c3 lp True kk
        apply (simp add: s add.assoc replicate_add)
        done
    qed
    show ?thesis
      unfolding zeros step IH chl by simp
  qed
qed

lemma div_pred: "0 < (L::nat) \<Longrightarrow> (L - 1) div C = L div C - (if L mod C = 0 then 1 else 0)"
  by (cases L) (simp_all add: div_Suc)

lemma chunks_size:
  fixes L C b e :: nat
  assumes "0 < C" "0 < L" "b = 1 \<or> L \<le> C" "e = 0 \<or> e = 4"
  shows "(let n0 = int h + int L + int L div int C;
              n1 = (if e = 4 then n0 + (int L div int C) * 4 else n0)
          in (if js_rem (int L) (int C) = 0 then (if e = 4 then n1 - 1 - 4 else n1 - 1) else n1))
         = int (h + (L + ((L - 1) div C) * (b + e)))"
proof -
  have r: "js_rem (int L) (int C) = int (L mod C)"
    using assms by (simp add: js_rem_def zmod_int)
  have d: "int L div int C = int (L div C)" by (simp add: zdiv_int)
  have q: "(L - 1) div C = L div C - (if L mod C = 0 then 1 else 0)" using assms by (intro div_pred)
  have p: "L mod C = 0 \<Longrightarrow> 1 \<le> L div C"
    using assms by (metis One_nat_def Suc_leI div_greater_zero_iff mod_less_divisor mod_eq_0_iff_dvd dvd_imp_le)
  show ?thesis
  proof (cases "L \<le> C")
    case True
    show ?thesis
    proof (cases "L = C")
      case True
      then show ?thesis using assms r d by (auto simp add: Let_def)
    next
      case False
      then have "L < C" using True by simp
      then show ?thesis using assms r d by (auto simp add: Let_def)
    qed
  next
    case False
    then have b: "b = 1" using assms by simp
    show ?thesis
    proof (cases "L mod C = 0")
      case True
      then show ?thesis using assms r d q p b by (auto simp add: Let_def algebra_simps of_nat_diff)
    next
      case False
      then show ?thesis using assms r d q b by (auto simp add: Let_def algebra_simps)
    qed
  qed
qed

subsection \<open>The encoder in closed form\<close>

lemma basic_header_length:
  assumes "0 \<le> f" "f \<le> 3" "2 \<le> c" "c \<le> 65599"
  shows "length (rtmpChunkBasicHeaderCreate f c) = (if c \<le> 63 then 1 else if c \<le> 318 then 2 else 3)"
proof -
  consider "c \<le> 63" | "64 \<le> c" "c \<le> 318" | "319 \<le> c" by linarith
  then show ?thesis
  proof cases
    case 1 then show ?thesis using assms basic1 [of f c] by simp
  next
    case 2 then show ?thesis using assms basic2 [of f c] by simp
  next
    case 3 then show ?thesis using assms basic3 [of f c] by simp
  qed
qed

lemma rtmpChunksCreate_closed:
  fixes P :: buffer and C :: nat
  assumes hd: "header pk = \<lparr>fmt = f, cid = c, timestamp = ts, len = int (length P), type_id = t, stream_id = sid\<rparr>"
      and pl: "payload pk = Some P" and f: "f = 0 \<or> f = 1"
      and c: "2 \<le> c" "c \<le> 65599" and one: "c \<le> 63 \<or> length P \<le> C"
      and ts: "0 \<le> ts" "ts < 2 ^ 32"
      and P: "P \<noteq> []" "length P < 2 ^ 24"
      and t: "0 \<le> t" "t < 256" and sid: "0 \<le> sid" "sid < 2 ^ 32" and C: "0 < C"
  shows "rtmpChunksCreate (int C) pk = Inr (chunk_stream C f c ts t sid P)"
proof -
  define bh where "bh = rtmpChunkBasicHeaderCreate f c"
  define bh3 where "bh3 = rtmpChunkBasicHeaderCreate 3 c"
  define mh where "mh = message_header f (if ts \<ge> 0xffffff then 0xffffff else ts) (int (length P)) t sid"
  define ext where "ext = ext_timestamp ts"
  define sep where "sep = bh3 @ ext"
  define L where "L = length P"
  define z where "z = L + ((L - 1) div C) * length sep"
  define e where "e = length ext"
  define m :: nat where "m = (if f = 0 then 11 else 7)"
  have L: "0 < L" using P by (simp add: L_def)
  have f03: "0 \<le> f" "f \<le> 3" using f by auto
  have l1: "length bh = (if c \<le> 63 then 1 else if c \<le> 318 then 2 else 3)"
    unfolding bh_def using f03 c by (rule basic_header_length)
  have l3: "length bh3 = (if c \<le> 63 then 1 else if c \<le> 318 then 2 else 3)"
    unfolding bh3_def using _ _ c by (rule basic_header_length) simp_all
  have lbh: "0 < length bh" "0 < length bh3" "length bh3 = 1 \<or> L \<le> C"
    using one by (auto simp add: l1 l3 L_def)
  have bh3ne: "bh3 \<noteq> []" using lbh by auto
  have e: "e = 0 \<or> e = 4" "e = 4 \<longleftrightarrow> ts \<ge> 0xffffff"
    by (auto simp add: e_def ext_def ext_timestamp_def)
  have sepl: "length sep = length bh3 + e" by (simp add: sep_def e_def)
  have mhc: "rtmpChunkMessageHeaderCreate (header pk) = Inr mh"
    unfolding hd mh_def using ts P t sid by (intro rtmpChunkMessageHeaderCreate_fmt01 f) auto
  have lmh: "length mh = m" by (simp add: mh_def m_def)
  have m0: "0 < m" by (simp add: m_def)
  have n2: "(let n0 = int (length bh + m + e) + int L + int L div int C;
              n1 = (if e = 4 then n0 + (int L div int C) * 4 else n0)
          in (if js_rem (int L) (int C) = 0 then (if e = 4 then n1 - 1 - 4 else n1 - 1) else n1))
         = int (length bh + m + e + (L + ((L - 1) div C) * (length bh3 + e)))"
    using C L lbh(3) e(1) by (rule chunks_size)
  have alloc: "buf_alloc (int (length bh + m + e + z)) = Inr (replicate (length bh + m + e + z) 0)"
    by (simp add: buf_alloc_def)
  have c1: "buf_copy bh ([] @ replicate (length bh + m + e + z) 0 @ []) 0 0 (int (length bh))
            = Inr ([] @ take (length bh) (drop 0 bh) @ replicate (length bh + m + e + z - length bh) 0 @ [])"
    using lbh by (intro buf_copy_zeros) auto
  have c2: "buf_copy mh (bh @ replicate (m + e + z) 0 @ []) (int (length bh)) 0 (int (length mh))
            = Inr (bh @ take m (drop 0 mh) @ replicate (m + e + z - m) 0 @ [])"
    using lmh m0 by (intro buf_copy_zeros) auto
  have w: "e = 4 \<Longrightarrow> writeUInt32BE ((bh @ mh) @ replicate 4 0 @ replicate z 0) ts (int (length bh) + int m)
            = Inr ((bh @ mh) @ be_bytes 4 ts @ replicate z 0)"
    using ts lmh by (intro writeUInt32BE_zeros) auto
  have sep': "sep = bh3 @ (if ts \<ge> 0xffffff then be_bytes 4 ts else [])"
    by (simp add: sep_def ext_def ext_timestamp_def)
  have pz: "0 + L = length P" by (simp add: L_def)
  have loop: "rtmpChunksCreate_loop bh3 (ts \<ge> 0xffffff) ts (int C) (Some P) (int L) (int (length (bh @ mh @ ext))) (int 0)
              ((bh @ mh @ ext) @ replicate (L + ((L - 1) div C) * length sep) 0)
            = Some (Inr ((bh @ mh @ ext) @ chunked C sep (drop 0 P)))"
    using C ts sep' bh3ne _ pz by (rule loop_correct) (use L in simp)
  have after_ext: "(if 16777215 \<le> ts
                    then writeUInt32BE (bh @ mh @ replicate (e + z) 0) ts (int (length bh) + int m)
                    else Inr (bh @ mh @ replicate (e + z) 0))
                   = Inr ((bh @ mh @ ext) @ replicate z 0)"
  proof (cases "ts \<ge> 0xffffff")
    case True
    then have e4: "e = 4" using e by simp
    have x: "ext = be_bytes 4 ts" using True by (simp add: ext_def ext_timestamp_def)
    show ?thesis using True w [OF e4] by (simp add: e4 x replicate_add)
  next
    case False
    then have e0: "e = 0" using e by auto
    have x: "ext = []" using False by (simp add: ext_def ext_timestamp_def)
    show ?thesis using False by (simp add: e0 x)
  qed
  have sel: "fmt (header pk) = f" "cid (header pk) = c" "timestamp (header pk) = ts"
    "len (header pk) = int L" by (simp_all add: hd L_def)
  have eif: "(if ts \<ge> 0xffffff then 4 else 0) = int e" using e by auto
  have eq4: "(16777215 \<le> ts) = (e = 4)" using e by simp
  have size_eq: "(if js_rem (int L) (int C) = 0
                  then if 16777215 \<le> ts
                       then (if 16777215 \<le> ts
                             then int (length bh) + int m + int e + int L + int L div int C + int L div int C * 4
                             else int (length bh) + int m + int e + int L + int L div int C) - 1 - 4
                       else (if 16777215 \<le> ts
                             then int (length bh) + int m + int e + int L + int L div int C + int L div int C * 4
                             else int (length bh) + int m + int e + int L + int L div int C) - 1
                  else if 16777215 \<le> ts
                       then int (length bh) + int m + int e + int L + int L div int C + int L div int C * 4
                       else int (length bh) + int m + int e + int L + int L div int C)
                 = int (length bh + m + e + z)"
    using n2 unfolding Let_def eq4 z_def sepl by (simp split: if_splits)
  have c1': "buf_copy bh (replicate (length bh + m + e + z) 0) 0 0 (int (length bh))
             = Inr (bh @ replicate (m + e + z) 0)"
    using c1 by simp
  have c2': "buf_copy mh (bh @ replicate (m + e + z) 0) (int (length bh)) 0 (int m)
             = Inr (bh @ mh @ replicate (e + z) 0)"
    using c2 lmh by simp
  have off: "(if 16777215 \<le> ts then int (length bh) + int m + 4 else int (length bh) + int m)
             = int (length (bh @ mh @ ext))"
    using e lmh by (auto simp add: e_def)
  have loop': "rtmpChunksCreate_loop bh3 (16777215 \<le> ts) ts (int C) (Some P) (int L)
                 (int (length (bh @ mh @ ext))) 0 ((bh @ mh @ ext) @ replicate z 0)
               = Some (Inr (chunk_stream C f c ts t sid P))"
    using loop by (simp add: z_def chunk_stream_def bh_def bh3_def mh_def ext_def sep_def)
  have C0: "int C \<noteq> 0" using C by simp
  show ?thesis
    unfolding rtmpChunksCreate_def Let_def sel pl mhc bindE_def sum.case bh_def [symmetric] bh3_def [symmetric] lmh
    apply (simp only: eif)
    apply (simp only: size_eq alloc sum.case c1' c2' after_ext off loop' returned_def option.case C0 if_False)
    done
qed

subsection \<open>The loop of the decoder\<close>

lemma loop_step:
  "offset < nbytes \<Longrightarrow> rtmpChunkRead_step H data p nbytes s offset = Inr (s', offset')
   \<Longrightarrow> rtmpChunkRead_loop H data p nbytes s offset = rtmpChunkRead_loop H data p nbytes s' offset'"
  by (subst rtmpChunkRead_loop.simps) simp

lemma loop_done:
  "\<not> offset < nbytes \<Longrightarrow> rtmpChunkRead_loop H data p nbytes s offset = Some (Inr s)"
  by (subst rtmpChunkRead_loop.simps) simp

lemma length_buf_set [simp]: "length (buf_set b i v) = length b"
  by (simp add: buf_set_def)

lemma fill_closed:
  "parserBytes s = int pb \<Longrightarrow> sz = int (pb + k) \<Longrightarrow> offset = int ofs
   \<Longrightarrow> ofs + k \<le> length data \<Longrightarrow> nbytes = int (length data)
   \<Longrightarrow> pb + k \<le> length (parserBuffer s)
   \<Longrightarrow> fill_parserBuffer data 0 nbytes sz s offset
       = (s\<lparr>parserBuffer := take pb (parserBuffer s) @ take k (drop ofs data) @ drop (pb + k) (parserBuffer s),
            parserBytes := sz\<rparr>, offset + int k)"
proof (induction k arbitrary: s pb offset ofs)
  case 0
  then show ?case by (subst fill_parserBuffer.simps) simp
next
  case (Suc k)
  define s1 where "s1 = s\<lparr>parserBuffer := buf_set (parserBuffer s) (parserBytes s) (buf_at data (0 + offset)),
             parserBytes := parserBytes s + 1\<rparr>"
  have b: "parserBuffer s1 = (parserBuffer s)[pb := data ! ofs]"
    using Suc.prems by (simp add: s1_def buf_set_def buf_at_def)
  have ih: "fill_parserBuffer data 0 nbytes sz s1 (offset + 1)
       = (s1\<lparr>parserBuffer := take (Suc pb) (parserBuffer s1) @ take k (drop (Suc ofs) data) @ drop (Suc pb + k) (parserBuffer s1),
            parserBytes := sz\<rparr>, (offset + 1) + int k)"
    using Suc.prems by (intro Suc.IH [where pb = "Suc pb" and ofs = "Suc ofs"]) (auto simp add: s1_def)
  have t: "take (Suc pb) ((parserBuffer s)[pb := data ! ofs]) = take pb (parserBuffer s) @ [data ! ofs]"
    using Suc.prems by (simp add: take_Suc_conv_app_nth)
  have d: "take (Suc k) (drop ofs data) = data ! ofs # take k (drop (Suc ofs) data)"
    using Suc.prems by (simp add: take_Suc_conv_app_nth Cons_nth_drop_Suc [symmetric])
  have "fill_parserBuffer data 0 nbytes sz s offset = fill_parserBuffer data 0 nbytes sz s1 (offset + 1)"
    using Suc.prems by (subst fill_parserBuffer.simps) (simp add: s1_def)
  also have "\<dots> = (s\<lparr>parserBuffer := take pb (parserBuffer s) @ take (Suc k) (drop ofs data) @ drop (pb + Suc k) (parserBuffer s),
            parserBytes := sz\<rparr>, offset + int (Suc k))"
    unfolding ih b t d by (simp add: s1_def)
  finally show ?case .
qed

lemma loop_last:
  assumes "offset < nbytes"
    and "rtmpChunkRead_step H data p nbytes s offset = bindE r (\<lambda>s'. Inr (s', nbytes))"
  shows "rtmpChunkRead_loop H data p nbytes s offset = Some r"
proof (cases r)
  case (Inl e)
  then show ?thesis using assms by (subst rtmpChunkRead_loop.simps) (simp add: bindE_def)
next
  case (Inr s')
  have "rtmpChunkRead_loop H data p nbytes s offset = rtmpChunkRead_loop H data p nbytes s' nbytes"
    using assms Inr by (intro loop_step) (simp_all add: bindE_def)
  then show ?thesis using Inr by (simp add: loop_done)
qed

subsection \<open>The payload state\<close>

lemma payload_copy:
  assumes "b + m \<le> length P" "0 < m" "take m (drop ofs data) = take m (drop b P)" "ofs + m \<le> length data"
  shows "buf_copy data (take b P @ replicate (length P + 1024 - b) 0) (int b) (int ofs) (int ofs + int m)
         = Inr (take (b + m) P @ replicate (length P + 1024 - (b + m)) 0)"
proof -
  have "buf_copy data (take b P @ replicate (length P + 1024 - b) 0 @ []) (int b) (int ofs) (int ofs + int m)
        = Inr (take b P @ take m (drop ofs data) @ replicate (length P + 1024 - b - m) 0 @ [])"
    using assms by (intro buf_copy_zeros) auto
  then show ?thesis using assms by (simp add: take_add)
qed

lemma rtmpHandler_ok:
  assumes "cur_packet s = Inr pk" "payload pk = Some pl" "4 \<le> length pl"
    and "type_id (header pk) \<notin> {8, 9, 15, 17, 18, 20} \<or> H = quiet"
  shows "\<exists>s'. rtmpHandler H s = Inr s' \<and> dispatched s' = dispatched s @ [pk]
              \<and> inAckSize s' = inAckSize s \<and> inLastAck s' = inLastAck s"
proof -
  have c: "cur_packet (s\<lparr>dispatched := dispatched s @ [pk]\<rparr>) = Inr pk"
    using assms(1) by (auto simp add: cur_packet_def split: option.splits)
  have r: "readUInt32BE pl 0 = Inr (be_value (take 4 pl))"
    using assms(3) by (simp add: readUInt32BE_def readUIntBE_def)
  from assms(4) show ?thesis
  proof
    assume "type_id (header pk) \<notin> {8, 9, 15, 17, 18, 20}"
    then show ?thesis
      using assms(1,2)
      by (simp add: rtmpHandler_def rtmpControlHandler_def c r bindE_def Let_def)
  next
    assume "H = quiet"
    then show ?thesis
      using assms(1,2)
      by (simp add: rtmpHandler_def rtmpControlHandler_def c r bindE_def Let_def quiet_def)
  qed
qed

lemma payload_step_unfold:
  assumes "parserState s = RTMP_PARSE_PAYLOAD" "cur_packet s = Inr pk" "inChunkSize s \<noteq> 0"
    "payload pk = Some pl"
    "min (min (inChunkSize s - js_rem (bytes pk) (inChunkSize s)) (len (header pk) - bytes pk))
         (nbytes - offset) = sz"
    "0 < sz"
    "buf_copy data pl (bytes pk) (p + offset) (p + offset + sz) = Inr pl'"
  shows "rtmpChunkRead_step H data p nbytes s offset
         = (if bytes pk + sz \<ge> len (header pk) then
              bindE (rtmpHandler H (set_packet (s\<lparr>parserState := RTMP_PARSE_INIT\<rparr>)
                                    (pk\<lparr>payload := Some pl', bytes := 0, clock := clock pk + delta pk\<rparr>)))
                (\<lambda>s'. Inr (s', offset + sz))
            else if js_rem (bytes pk + sz) (inChunkSize s) = 0 then
              Inr (set_packet (s\<lparr>parserState := RTMP_PARSE_INIT\<rparr>)
                     (pk\<lparr>payload := Some pl', bytes := bytes pk + sz\<rparr>), offset + sz)
            else Inr (set_packet s (pk\<lparr>payload := Some pl', bytes := bytes pk + sz\<rparr>), offset + sz))"
  apply (simp only: rtmpChunkRead_step_def assms(1) parse_state.case assms(2) bindE_def sum.case
           Let_def assms(5) assms(4) option.case assms(7) assms(3) assms(6) if_True if_False)
  apply simp
  done

lemma js_rem_dvd: "0 < C \<Longrightarrow> C dvd b \<Longrightarrow> js_rem (int b) (int C) = 0"
  by (auto simp add: js_rem_def zmod_int [symmetric] simp del: of_nat_add)

lemma payload_step_mid:
  assumes st: "parserState s = RTMP_PARSE_PAYLOAD" "parserPacket s = Some c" "inPackets s c = Some pk"
      "inChunkSize s = int C" "0 < C"
    and pk: "bytes pk = int b" "len (header pk) = int (length P)"
      "payload pk = Some (take b P @ replicate (length P + 1024 - b) 0)"
    and b: "C dvd b" "b + C < length P"
    and data: "take C (drop ofs data) = take C (drop b P)" "ofs + C \<le> length data"
  shows "rtmpChunkRead_step H data 0 (int (length data)) s (int ofs)
         = Inr (set_packet (s\<lparr>parserState := RTMP_PARSE_INIT\<rparr>)
                  (pk\<lparr>payload := Some (take (b + C) P @ replicate (length P + 1024 - (b + C)) 0),
                      bytes := int b + int C\<rparr>), int ofs + int C)"
proof -
  have cp: "cur_packet s = Inr pk" using st by (simp add: cur_packet_def)
  have r: "js_rem (int b) (int C) = 0" using st(5) b(1) by (rule js_rem_dvd)
  have r2: "js_rem (int b + int C) (int C) = 0"
    using js_rem_dvd [of C "b + C"] st(5) b(1) by simp
  have sz: "min (min (inChunkSize s - js_rem (bytes pk) (inChunkSize s)) (len (header pk) - bytes pk))
                (int (length data) - int ofs) = int C"
    using b data by (simp add: st pk r)
  have cpy: "buf_copy data (take b P @ replicate (length P + 1024 - b) 0) (bytes pk) (0 + int ofs) (0 + int ofs + int C)
             = Inr (take (b + C) P @ replicate (length P + 1024 - (b + C)) 0)"
    using payload_copy [of b C P ofs data] b data st(5) by (simp add: pk)
  have c0: "inChunkSize s \<noteq> 0" "0 < int C" using st by simp_all
  have nd: "\<not> len (header pk) \<le> bytes pk + int C" using b by (simp add: pk)
  show ?thesis
    unfolding payload_step_unfold [OF st(1) cp c0(1) pk(3) sz c0(2) cpy]
    using nd r2 by (simp add: pk st)
qed

lemma payload_step_last:
  assumes st: "parserState s = RTMP_PARSE_PAYLOAD" "parserPacket s = Some c" "inPackets s c = Some pk"
      "inChunkSize s = int C" "0 < C"
    and pk: "bytes pk = int b" "len (header pk) = int (length P)"
      "payload pk = Some (take b P @ replicate (length P + 1024 - b) 0)"
    and b: "C dvd b" "b < length P" "length P \<le> b + C"
    and data: "drop ofs data = drop b P" "ofs \<le> length data"
  shows "rtmpChunkRead_step H data 0 (int (length data)) s (int ofs)
         = bindE (rtmpHandler H (set_packet (s\<lparr>parserState := RTMP_PARSE_INIT\<rparr>)
                                    (pk\<lparr>payload := Some (P @ replicate 1024 0), bytes := 0,
                                        clock := clock pk + delta pk\<rparr>)))
                (\<lambda>s'. Inr (s', int (length data)))"
proof -
  define m where "m = length P - b"
  have m: "0 < m" "b + m = length P" "m \<le> C" using b by (auto simp add: m_def)
  have ld: "length data - ofs = m"
    using arg_cong [OF data(1), of length] by (simp add: m_def)
  then have ld': "length data = ofs + m" using data(2) by simp
  have cp: "cur_packet s = Inr pk" using st by (simp add: cur_packet_def)
  have r: "js_rem (int b) (int C) = 0" using st(5) b(1) by (rule js_rem_dvd)
  have sz: "min (min (inChunkSize s - js_rem (bytes pk) (inChunkSize s)) (len (header pk) - bytes pk))
                (int (length data) - int ofs) = int m"
    using m by (simp add: st pk r ld')
  have cpy: "buf_copy data (take b P @ replicate (length P + 1024 - b) 0) (bytes pk) (0 + int ofs) (0 + int ofs + int m)
             = Inr (P @ replicate 1024 0)"
    using payload_copy [of b m P ofs data] m data ld' by (simp add: pk)
  have c0: "inChunkSize s \<noteq> 0" "0 < int m" using st m by simp_all
  have nd: "len (header pk) \<le> bytes pk + int m" using m by (simp add: pk)
  show ?thesis
    unfolding payload_step_unfold [OF st(1) cp c0(1) pk(3) sz c0(2) cpy]
    using nd by (simp add: ld')
qed

subsection \<open>The header states\<close>

lemma step_init:
  assumes "parserState s = RTMP_PARSE_INIT" "ofs < length data" "0 < length (parserBuffer s)"
  shows "rtmpChunkRead_step H data 0 nbytes s (int ofs)
         = Inr (s\<lparr>parserBytes := 1, parserBuffer := (parserBuffer s)[0 := data ! ofs],
                  parserBasicBytes := (if js_and (uint (data ! ofs)) 0x3F = 0 then 2
                                       else if js_and (uint (data ! ofs)) 0x3F = 1 then 3 else 1),
                  parserState := RTMP_PARSE_BASIC_HEADER\<rparr>, int ofs + 1)"
  using assms
  by (simp add: rtmpChunkRead_step_def Let_def buf_at_def buf_set_def pb_byte_def)

lemma step_basic:
  assumes "parserState s = RTMP_PARSE_BASIC_HEADER" "parserBytes s = int pb"
    "parserBasicBytes s = int (pb + k)" "ofs + k \<le> length data" "pb + k \<le> length (parserBuffer s)"
    and "offset = int ofs"
  shows "rtmpChunkRead_step H data 0 (int (length data)) s offset
         = Inr (s\<lparr>parserBuffer := take pb (parserBuffer s) @ take k (drop ofs data) @ drop (pb + k) (parserBuffer s),
                  parserBytes := int (pb + k), parserState := RTMP_PARSE_MESSAGE_HEADER\<rparr>, offset + int k)"
proof -
  have f: "fill_parserBuffer data 0 (int (length data)) (parserBasicBytes s) s offset
       = (s\<lparr>parserBuffer := take pb (parserBuffer s) @ take k (drop ofs data) @ drop (pb + k) (parserBuffer s),
            parserBytes := parserBasicBytes s\<rparr>, offset + int k)"
    using assms by (intro fill_closed) auto
  show ?thesis
    by (simp add: rtmpChunkRead_step_def assms(1) f) (simp add: assms(3))
qed

lemma step_message_header:
  assumes "parserState s = RTMP_PARSE_MESSAGE_HEADER" "rtmpHeaderSize (js_sar (pb_byte s 0) 6) = Some hs"
    "parserBytes s = int pb" "hs + parserBasicBytes s = int (pb + k)"
    "ofs + k \<le> length data" "pb + k \<le> length (parserBuffer s)"
    and "offset = int ofs"
  shows "rtmpChunkRead_step H data 0 (int (length data)) s offset
         = Inr ((rtmpPacketParse
                   (s\<lparr>parserBuffer := take pb (parserBuffer s) @ take k (drop ofs data) @ drop (pb + k) (parserBuffer s),
                      parserBytes := int (pb + k)\<rparr>))\<lparr>parserState := RTMP_PARSE_EXTENDED_TIMESTAMP\<rparr>,
                offset + int k)"
proof -
  have f: "fill_parserBuffer data 0 (int (length data)) (hs + parserBasicBytes s) s offset
       = (s\<lparr>parserBuffer := take pb (parserBuffer s) @ take k (drop ofs data) @ drop (pb + k) (parserBuffer s),
            parserBytes := hs + parserBasicBytes s\<rparr>, offset + int k)"
    using assms by (intro fill_closed) auto
  show ?thesis
    by (simp add: rtmpChunkRead_step_def assms(1,2) f) (simp add: assms(4))
qed

lemma step_extended_timestamp:
  assumes "parserState s = RTMP_PARSE_EXTENDED_TIMESTAMP" "cur_packet s = Inr pk0"
    "rtmpHeaderSize (fmt (header pk0)) = Some hs"
    "parserBytes s = int pb"
    "hs + parserBasicBytes s + (if timestamp (header pk0) = 0xFFFFFF then 4 else 0) = int (pb + k)"
    "ofs + k \<le> length data" "pb + k \<le> length (parserBuffer s)"
    and "offset = int ofs"
  shows "rtmpChunkRead_step H data 0 (int (length data)) s offset
         = Inr ((set_packet
                   (s\<lparr>parserBuffer := take pb (parserBuffer s) @ take k (drop ofs data) @ drop (pb + k) (parserBuffer s),
                      parserBytes := int (pb + k)\<rparr>)
                   (if bytes pk0 = 0
                    then rtmpPacketAlloc
                           (if fmt (header pk0) = 0
                            then pk0\<lparr>clock := (if timestamp (header pk0) = 0xFFFFFF
                                               then be_value (take 4 (drop (nat (hs + parserBasicBytes s))
                                                      (take pb (parserBuffer s) @ take k (drop ofs data) @ drop (pb + k) (parserBuffer s))))
                                               else timestamp (header pk0)), delta := 0\<rparr>
                            else pk0\<lparr>delta := (if timestamp (header pk0) = 0xFFFFFF
                                               then be_value (take 4 (drop (nat (hs + parserBasicBytes s))
                                                      (take pb (parserBuffer s) @ take k (drop ofs data) @ drop (pb + k) (parserBuffer s))))
                                               else timestamp (header pk0))\<rparr>)
                    else pk0))\<lparr>parserState := RTMP_PARSE_PAYLOAD\<rparr>,
                offset + int k)"
proof -
  define sz where "sz = hs + parserBasicBytes s + (if timestamp (header pk0) = 0xFFFFFF then 4 else 0)"
  have f: "fill_parserBuffer data 0 (int (length data)) sz s offset
       = (s\<lparr>parserBuffer := take pb (parserBuffer s) @ take k (drop ofs data) @ drop (pb + k) (parserBuffer s),
            parserBytes := sz\<rparr>, offset + int k)"
    using assms unfolding sz_def by (intro fill_closed) auto
  have szk: "sz = int (pb + k)" using assms(5) by (simp add: sz_def)
  show ?thesis
    apply (simp only: rtmpChunkRead_step_def assms(1) parse_state.case assms(2) bindE_def sum.case
             assms(3) option.case Let_def sz_def [symmetric] f prod.case)
    apply (simp add: szk pb_readUIntBE_def)
    done
qed

lemma fill_none: "sz \<le> parserBytes s \<Longrightarrow> fill_parserBuffer data p nbytes sz s offset = (s, offset)"
  by (subst fill_parserBuffer.simps) simp

lemma step_basic0:
  assumes "parserState s = RTMP_PARSE_BASIC_HEADER" "parserBasicBytes s \<le> parserBytes s"
  shows "rtmpChunkRead_step H data p nbytes s offset = Inr (s\<lparr>parserState := RTMP_PARSE_MESSAGE_HEADER\<rparr>, offset)"
  using assms by (simp add: rtmpChunkRead_step_def fill_none)

lemma step_message_header0:
  assumes "parserState s = RTMP_PARSE_MESSAGE_HEADER" "rtmpHeaderSize (js_sar (pb_byte s 0) 6) = Some hs"
    "hs + parserBasicBytes s \<le> parserBytes s"
  shows "rtmpChunkRead_step H data p nbytes s offset
         = Inr ((rtmpPacketParse s)\<lparr>parserState := RTMP_PARSE_EXTENDED_TIMESTAMP\<rparr>, offset)"
  using assms by (simp add: rtmpChunkRead_step_def fill_none)

lemma step_extended_timestamp0:
  assumes "parserState s = RTMP_PARSE_EXTENDED_TIMESTAMP" "cur_packet s = Inr pk0"
    "rtmpHeaderSize (fmt (header pk0)) = Some hs" "timestamp (header pk0) \<noteq> 0xFFFFFF"
    "hs + parserBasicBytes s \<le> parserBytes s"
  shows "rtmpChunkRead_step H data p nbytes s offset
         = Inr ((set_packet s
                   (if bytes pk0 = 0
                    then rtmpPacketAlloc
                           (if fmt (header pk0) = 0
                            then pk0\<lparr>clock := timestamp (header pk0), delta := 0\<rparr>
                            else pk0\<lparr>delta := timestamp (header pk0)\<rparr>)
                    else pk0))\<lparr>parserState := RTMP_PARSE_PAYLOAD\<rparr>, offset)"
  using assms by (simp add: rtmpChunkRead_step_def fill_none bindE_def Let_def)

subsection \<open>A continuation header\<close>

lemma byte_fmt_cid:
  assumes "0 \<le> f" "f \<le> 3" "0 \<le> c" "c \<le> 63"
  shows "uint (word_of_int (f * 64 + c) :: 8 word) = f * 64 + c"
    and "js_and (f * 64 + c) 0x3F = c"
    and "js_sar (f * 64 + c) 6 = f"
proof -
  show "uint (word_of_int (f * 64 + c) :: 8 word) = f * 64 + c"
    using assms by (intro uint8_small) auto
  have "js_and (f * 64 + c) 0x3F = (f * 64 + c) AND 63"
    using assms by (intro js_and_nonneg) auto
  then show "js_and (f * 64 + c) 0x3F = c" using assms by (simp add: and_63)
  have "js_sar (f * 64 + c) 6 = (f * 64 + c) div 2 ^ nat 6"
    using assms by (intro js_sar_nonneg) auto
  then show "js_sar (f * 64 + c) 6 = f" using assms by simp
qed

lemma parse_continuation:
  assumes "parserBasicBytes s = 1" "pb_byte s 0 = 192 + c" "2 \<le> c" "c \<le> 63" "inPackets s c = Some pk"
  shows "rtmpPacketParse s
         = s\<lparr>parserPacket := Some c,
              inPackets := (inPackets s)(c \<mapsto> pk\<lparr>header := (header pk)\<lparr>fmt := 3, cid := c\<rparr>\<rparr>)\<rparr>"
proof -
  have a: "js_and (192 + c) 63 = c" "js_sar (192 + c) 6 = 3"
    using assms byte_fmt_cid [of 3 c] by auto
  show ?thesis
    by (simp add: rtmpPacketParse_def rtmpPacketParse_cid_def assms a Let_def rtmpChunkMessageHeaderRead_def)
qed

lemma continuation_header:
  fixes s :: "'a parser_scheme"
  assumes st: "parserState s = RTMP_PARSE_INIT" "inPackets s c = Some pk" "length (parserBuffer s) = 18"
    and c: "2 \<le> c" "c \<le> 63"
    and pk: "bytes pk \<noteq> 0" "timestamp (header pk) = (if ts \<ge> 0xffffff then 0xffffff else ts)"
    and data: "drop ofs data = rtmpChunkBasicHeaderCreate 3 c @ ext_timestamp ts @ rest" "rest \<noteq> []"
  shows "\<exists>s4. rtmpChunkRead_loop H data 0 (int (length data)) s (int ofs)
              = rtmpChunkRead_loop H data 0 (int (length data)) s4 (int (ofs + 1 + length (ext_timestamp ts)))
            \<and> parserState s4 = RTMP_PARSE_PAYLOAD \<and> parserPacket s4 = Some c
            \<and> inPackets s4 c = Some (pk\<lparr>header := (header pk)\<lparr>fmt := 3, cid := c\<rparr>\<rparr>)
            \<and> inChunkSize s4 = inChunkSize s \<and> length (parserBuffer s4) = 18
            \<and> dispatched s4 = dispatched s \<and> inAckSize s4 = inAckSize s \<and> inLastAck s4 = inLastAck s"
proof -
  define b3 :: "8 word" where "b3 = word_of_int (3 * 64 + c)"
  define e where "e = length (ext_timestamp ts)"
  define n where "n = int (length data)"
  have bh3: "rtmpChunkBasicHeaderCreate 3 c = [b3]" using c basic1 [of 3 c] by (simp add: b3_def)
  have d: "drop ofs data = b3 # ext_timestamp ts @ rest" using data by (simp add: bh3)
  have ld: "length data - ofs = 1 + e + length rest"
    using arg_cong [OF d, of length] by (simp add: e_def)
  have "1 \<le> length rest" using data(2) by (cases rest) simp_all
  then have lt: "ofs < length data" "ofs + 1 + e < length data" using ld by arith+
  have nth: "data ! ofs = b3" using d lt by (metis nth_via_drop)
  have u: "uint b3 = 192 + c" "js_and (192 + c) 63 = c" "js_sar (192 + c) 6 = 3"
    using byte_fmt_cid [of 3 c] c by (simp_all add: b3_def)
  have e: "e = (if timestamp (header pk) = 0xFFFFFF then 4 else 0)"
    using pk(2) by (auto simp add: e_def ext_timestamp_def)
  define s1 where "s1 = s\<lparr>parserBytes := 1, parserBuffer := (parserBuffer s)[0 := b3],
                  parserBasicBytes := 1, parserState := RTMP_PARSE_BASIC_HEADER\<rparr>"
  have 1: "rtmpChunkRead_step H data 0 n s (int ofs) = Inr (s1, int ofs + 1)"
    using step_init [where s = s and ofs = ofs and data = data and nbytes = n and H = H] st lt c by (simp add: nth u s1_def)
  define s2 where "s2 = s1\<lparr>parserState := RTMP_PARSE_MESSAGE_HEADER\<rparr>"
  have 2: "rtmpChunkRead_step H data 0 n s1 (int ofs + 1) = Inr (s2, int ofs + 1)"
    unfolding s2_def by (rule step_basic0) (simp_all add: s1_def)
  define pk1 where "pk1 = pk\<lparr>header := (header pk)\<lparr>fmt := 3, cid := c\<rparr>\<rparr>"
  define s3 where "s3 = s2\<lparr>parserPacket := Some c, inPackets := (inPackets s2)(c \<mapsto> pk1),
                          parserState := RTMP_PARSE_EXTENDED_TIMESTAMP\<rparr>"
  have pb0: "pb_byte s2 0 = 192 + c" using st by (simp add: pb_byte_def s2_def s1_def u)
  have hs: "rtmpHeaderSize (js_sar (pb_byte s2 0) 6) = Some 0" by (simp add: pb0 u rtmpHeaderSize_def)
  have pp: "rtmpPacketParse s2 = s2\<lparr>parserPacket := Some c, inPackets := (inPackets s2)(c \<mapsto> pk1)\<rparr>"
    unfolding pk1_def using _ pb0 c by (rule parse_continuation) (simp_all add: s2_def s1_def st)
  have 3: "rtmpChunkRead_step H data 0 n s2 (int ofs + 1) = Inr (s3, int ofs + 1)"
    using step_message_header0 [where s = s2 and hs = 0 and H = H and data = data and p = 0 and nbytes = n and offset = "int ofs + 1", OF _ hs]
    by (simp add: pp s3_def) (simp add: s2_def s1_def)
  have cp: "cur_packet s3 = Inr pk1" by (simp add: cur_packet_def s3_def)
  have hs3: "rtmpHeaderSize (fmt (header pk1)) = Some 0" by (simp add: pk1_def rtmpHeaderSize_def)
  have b0: "bytes pk1 \<noteq> 0" using pk(1) by (simp add: pk1_def)
  have "\<exists>s4. rtmpChunkRead_step H data 0 n s3 (int ofs + 1) = Inr (s4, int ofs + 1 + int e)
            \<and> parserState s4 = RTMP_PARSE_PAYLOAD \<and> parserPacket s4 = Some c
            \<and> inPackets s4 c = Some pk1
            \<and> inChunkSize s4 = inChunkSize s \<and> length (parserBuffer s4) = 18
            \<and> dispatched s4 = dispatched s \<and> inAckSize s4 = inAckSize s \<and> inLastAck s4 = inLastAck s"
  proof (cases "timestamp (header pk) = 0xFFFFFF")
    case True
    then have e4: "e = 4" using e by simp
    have t1: "timestamp (header pk1) = 0xFFFFFF" using True by (simp add: pk1_def)
    have pb3: "parserBytes s3 = int 1" "parserBasicBytes s3 = 1" "length (parserBuffer s3) = 18"
      "parserState s3 = RTMP_PARSE_EXTENDED_TIMESTAMP"
      using st by (simp_all add: s3_def s2_def s1_def)
    have sz: "0 + parserBasicBytes s3 + (if timestamp (header pk1) = 0xFFFFFF then 4 else 0) = int (1 + 4)"
      using t1 pb3 by simp
    have r1: "(ofs + 1) + 4 \<le> length data" "1 + 4 \<le> length (parserBuffer s3)" "int ofs + 1 = int (ofs + 1)"
      using lt e4 pb3 by simp_all
    define s4 where "s4 = (set_packet
                   (s3\<lparr>parserBuffer := take 1 (parserBuffer s3) @ take 4 (drop (ofs + 1) data) @ drop (1 + 4) (parserBuffer s3),
                      parserBytes := int (1 + 4)\<rparr>) pk1)\<lparr>parserState := RTMP_PARSE_PAYLOAD\<rparr>"
    have x: "rtmpChunkRead_step H data 0 (int (length data)) s3 (int ofs + 1) = Inr (s4, int ofs + 1 + int 4)"
      using step_extended_timestamp [OF pb3(4) cp hs3 pb3(1) sz r1] b0 by (simp add: s4_def)
    have "rtmpChunkRead_step H data 0 n s3 (int ofs + 1) = Inr (s4, int ofs + 1 + int e)"
      using x by (simp add: n_def e4)
    moreover have "parserState s4 = RTMP_PARSE_PAYLOAD \<and> parserPacket s4 = Some c
            \<and> inPackets s4 c = Some pk1
            \<and> inChunkSize s4 = inChunkSize s \<and> length (parserBuffer s4) = 18
            \<and> dispatched s4 = dispatched s \<and> inAckSize s4 = inAckSize s \<and> inLastAck s4 = inLastAck s"
      using lt st e4 by (simp add: s4_def set_packet_def s3_def s2_def s1_def)
    ultimately show ?thesis by blast
  next
    case False
    then have e0: "e = 0" using e by simp
    have t1: "timestamp (header pk1) \<noteq> 0xFFFFFF" using False by (simp add: pk1_def)
    have x: "rtmpChunkRead_step H data 0 n s3 (int ofs + 1)
             = Inr ((set_packet s3 pk1)\<lparr>parserState := RTMP_PARSE_PAYLOAD\<rparr>, int ofs + 1)"
      using step_extended_timestamp0 [where s = s3 and hs = 0 and H = H and data = data and p = 0 and nbytes = n and offset = "int ofs + 1", OF _ cp hs3 t1] b0
      by (simp add: s3_def s2_def s1_def)
    define s4 where "s4 = (set_packet s3 pk1)\<lparr>parserState := RTMP_PARSE_PAYLOAD\<rparr>"
    have "rtmpChunkRead_step H data 0 n s3 (int ofs + 1) = Inr (s4, int ofs + 1 + int e)"
      using x by (simp add: e0 s4_def)
    moreover have "parserState s4 = RTMP_PARSE_PAYLOAD \<and> parserPacket s4 = Some c
            \<and> inPackets s4 c = Some pk1
            \<and> inChunkSize s4 = inChunkSize s \<and> length (parserBuffer s4) = 18
            \<and> dispatched s4 = dispatched s \<and> inAckSize s4 = inAckSize s \<and> inLastAck s4 = inLastAck s"
      using lt st by (simp add: s4_def set_packet_def s3_def s2_def s1_def)
    ultimately show ?thesis by blast
  qed
  then obtain s4 where 4: "rtmpChunkRead_step H data 0 n s3 (int ofs + 1) = Inr (s4, int ofs + 1 + int e)"
     and props: "parserState s4 = RTMP_PARSE_PAYLOAD" "parserPacket s4 = Some c" "inPackets s4 c = Some pk1"
    "inChunkSize s4 = inChunkSize s" "length (parserBuffer s4) = 18" "dispatched s4 = dispatched s"
    "inAckSize s4 = inAckSize s" "inLastAck s4 = inLastAck s"
    by blast
  have "rtmpChunkRead_loop H data 0 n s (int ofs) = rtmpChunkRead_loop H data 0 n s1 (int ofs + 1)"
    using lt by (intro loop_step [OF _ 1]) (simp add: n_def)
  also have "\<dots> = rtmpChunkRead_loop H data 0 n s2 (int ofs + 1)"
    using lt by (intro loop_step [OF _ 2]) (simp add: n_def)
  also have "\<dots> = rtmpChunkRead_loop H data 0 n s3 (int ofs + 1)"
    using lt by (intro loop_step [OF _ 3]) (simp add: n_def)
  also have "\<dots> = rtmpChunkRead_loop H data 0 n s4 (int ofs + 1 + int e)"
    using lt by (intro loop_step [OF _ 4]) (simp add: n_def)
  finally have run0: "rtmpChunkRead_loop H data 0 n s (int ofs) = rtmpChunkRead_loop H data 0 n s4 (int ofs + 1 + int e)" .
  have eq: "int ofs + 1 + int e = int (ofs + 1 + e)" by simp
  note run = run0 [unfolded eq]
  show ?thesis
    using run props unfolding n_def e_def pk1_def by blast
qed

subsection \<open>The chunks of the payload\<close>

lemma chunked_nonempty: "pl \<noteq> [] \<Longrightarrow> chunked n sep pl \<noteq> []"
  by (subst chunked.simps) auto

lemma drop_append_eq:
  assumes "drop ofs data = xs @ ys" "xs \<noteq> []"
  shows "drop (ofs + length xs) data = ys" "take (length xs) (drop ofs data) = xs"
    "ofs + length xs \<le> length data"
proof -
  have "drop (ofs + length xs) data = drop (length xs) (drop ofs data)" by (simp add: add.commute)
  then show "drop (ofs + length xs) data = ys" using assms by simp
  show "take (length xs) (drop ofs data) = xs" using assms by simp
  have "length (drop ofs data) = length xs + length ys" using assms by simp
  moreover have "1 \<le> length xs" using assms(2) by (cases xs) simp_all
  ultimately show "ofs + length xs \<le> length data" by simp
qed

lemma payload_loop:
  fixes s :: "'a parser_scheme"
  assumes C: "0 < C" and c2: "2 \<le> c" and c63: "c \<le> 63 \<or> length P \<le> C"
  shows "parserState s = RTMP_PARSE_PAYLOAD \<Longrightarrow> parserPacket s = Some c \<Longrightarrow> inPackets s c = Some pk
     \<Longrightarrow> inChunkSize s = int C \<Longrightarrow> length (parserBuffer s) = 18
     \<Longrightarrow> bytes pk = int b \<Longrightarrow> len (header pk) = int (length P)
     \<Longrightarrow> payload pk = Some (take b P @ replicate (length P + 1024 - b) 0)
     \<Longrightarrow> timestamp (header pk) = (if ts \<ge> 0xffffff then 0xffffff else ts)
     \<Longrightarrow> cid (header pk) = c
     \<Longrightarrow> C dvd b \<Longrightarrow> b < length P
     \<Longrightarrow> drop ofs data = chunked C (rtmpChunkBasicHeaderCreate 3 c @ ext_timestamp ts) (drop b P)
     \<Longrightarrow> \<exists>sd q. rtmpChunkRead_loop H data 0 (int (length data)) s (int ofs) = Some (rtmpHandler H sd)
            \<and> cur_packet sd = Inr q \<and> dispatched sd = dispatched s
            \<and> inAckSize sd = inAckSize s \<and> inLastAck sd = inLastAck s
            \<and> cid (header q) = c \<and> timestamp (header q) = timestamp (header pk)
            \<and> len (header q) = int (length P) \<and> type_id (header q) = type_id (header pk)
            \<and> stream_id (header q) = stream_id (header pk)
            \<and> clock q = clock pk + delta pk
            \<and> payload q = Some (P @ replicate 1024 0)"
proof (induction "length P - b" arbitrary: s pk b ofs rule: less_induct)
  case less
  define sep where "sep = rtmpChunkBasicHeaderCreate 3 c @ ext_timestamp ts"
  note st = less.prems(1-5)
  note pk = less.prems(6-10)
  note b = less.prems(11,12)
  note data = less.prems(13) [folded sep_def]
  show ?case
  proof (cases "b + C < length P")
    case False
    then have le: "length P \<le> b + C" by simp
    have d: "drop ofs data = drop b P" using data le by (simp add: chunked_short)
    have ol: "ofs < length data"
      using arg_cong [OF d, of length] b by simp
    define q where "q = pk\<lparr>payload := Some (P @ replicate 1024 0), bytes := 0, clock := clock pk + delta pk\<rparr>"
    define s1 where "s1 = set_packet (s\<lparr>parserState := RTMP_PARSE_INIT\<rparr>) q"
    have step: "rtmpChunkRead_step H data 0 (int (length data)) s (int ofs)
         = bindE (rtmpHandler H s1) (\<lambda>s'. Inr (s', int (length data)))"
      unfolding s1_def q_def
      using st(1,2,3,4) C pk(1,2,3) b(1,2) le d by (rule payload_step_last) (use ol in simp)
    have cq: "cur_packet s1 = Inr q" using st by (simp add: s1_def set_packet_def cur_packet_def)
    have s1f: "dispatched s1 = dispatched s" "inAckSize s1 = inAckSize s" "inLastAck s1 = inLastAck s"
      using st by (simp_all add: s1_def set_packet_def)
    have "rtmpChunkRead_loop H data 0 (int (length data)) s (int ofs) = Some (rtmpHandler H s1)"
      using _ step by (rule loop_last) (use ol in simp)
    moreover have "cid (header q) = c \<and> timestamp (header q) = timestamp (header pk)
            \<and> len (header q) = int (length P) \<and> type_id (header q) = type_id (header pk)
            \<and> stream_id (header q) = stream_id (header pk)
            \<and> clock q = clock pk + delta pk
            \<and> payload q = Some (P @ replicate 1024 0)"
      using pk by (simp add: q_def)
    ultimately show ?thesis using cq s1f by blast
  next
    case True
    have c: "2 \<le> c" "c \<le> 63" using c2 c63 True by auto
    define rest where "rest = chunked C sep (drop (b + C) P)"
    have d: "drop ofs data = take C (drop b P) @ sep @ rest"
      using data True C by (simp add: chunked_long rest_def add.commute)
    have lt: "length (take C (drop b P)) = C" using True by simp
    have tne: "take C (drop b P) \<noteq> []" using True C by auto
    have d1: "drop (ofs + C) data = sep @ rest" "take C (drop ofs data) = take C (drop b P)"
      "ofs + C \<le> length data"
      using drop_append_eq [OF d tne] lt by simp_all
    have rne: "rest \<noteq> []" unfolding rest_def using True by (intro chunked_nonempty) simp
    define pk1 where "pk1 = pk\<lparr>payload := Some (take (b + C) P @ replicate (length P + 1024 - (b + C)) 0),
                      bytes := int b + int C\<rparr>"
    define s1 where "s1 = set_packet (s\<lparr>parserState := RTMP_PARSE_INIT\<rparr>) pk1"
    have step: "rtmpChunkRead_step H data 0 (int (length data)) s (int ofs) = Inr (s1, int ofs + int C)"
      unfolding s1_def pk1_def
      using st(1,2,3,4) C pk(1,2,3) b(1) True d1(2,3) by (rule payload_step_mid)
    have ol: "ofs < length data" using d1(3) C by simp
    have run1: "rtmpChunkRead_loop H data 0 (int (length data)) s (int ofs)
          = rtmpChunkRead_loop H data 0 (int (length data)) s1 (int (ofs + C))"
      using ol loop_step [OF _ step] by simp
    have s1p: "parserState s1 = RTMP_PARSE_INIT" "inPackets s1 c = Some pk1" "length (parserBuffer s1) = 18"
      "inChunkSize s1 = int C" "dispatched s1 = dispatched s" "inAckSize s1 = inAckSize s"
      "inLastAck s1 = inLastAck s"
      using st by (simp_all add: s1_def set_packet_def)
    have pk1p: "bytes pk1 \<noteq> 0" "timestamp (header pk1) = (if ts \<ge> 0xffffff then 0xffffff else ts)"
      using pk C by (simp_all add: pk1_def)
    have d1': "drop (ofs + C) data = rtmpChunkBasicHeaderCreate 3 c @ ext_timestamp ts @ rest"
      using d1(1) by (simp add: sep_def)
    obtain s4 where s4: "rtmpChunkRead_loop H data 0 (int (length data)) s1 (int (ofs + C))
              = rtmpChunkRead_loop H data 0 (int (length data)) s4 (int (ofs + C + 1 + length (ext_timestamp ts)))"
            "parserState s4 = RTMP_PARSE_PAYLOAD" "parserPacket s4 = Some c"
            "inPackets s4 c = Some (pk1\<lparr>header := (header pk1)\<lparr>fmt := 3, cid := c\<rparr>\<rparr>)"
            "inChunkSize s4 = inChunkSize s1" "length (parserBuffer s4) = 18"
            "dispatched s4 = dispatched s1" "inAckSize s4 = inAckSize s1" "inLastAck s4 = inLastAck s1"
      using continuation_header [OF s1p(1,2,3) c pk1p d1' rne] by blast
    define pk2 where "pk2 = pk1\<lparr>header := (header pk1)\<lparr>fmt := 3, cid := c\<rparr>\<rparr>"
    have lsep: "length sep = 1 + length (ext_timestamp ts)"
      using c basic1 [of 3 c] by (simp add: sep_def)
    have sne: "sep \<noteq> []" using lsep by auto
    have "drop (ofs + C + length sep) data = rest" using d1(1) sne by (rule drop_append_eq(1))
    then have "drop (ofs + C + (1 + length (ext_timestamp ts))) data = rest" by (simp only: lsep)
    then have d2: "drop (ofs + C + 1 + length (ext_timestamp ts)) data = chunked C (rtmpChunkBasicHeaderCreate 3 c @ ext_timestamp ts) (drop (b + C) P)"
      by (simp add: rest_def sep_def add.assoc)
    have m: "length P - (b + C) < length P - b" using True C by simp
    have "\<exists>sd q. rtmpChunkRead_loop H data 0 (int (length data)) s4 (int (ofs + C + 1 + length (ext_timestamp ts))) = Some (rtmpHandler H sd)
            \<and> cur_packet sd = Inr q \<and> dispatched sd = dispatched s4
            \<and> inAckSize sd = inAckSize s4 \<and> inLastAck sd = inLastAck s4
            \<and> cid (header q) = c \<and> timestamp (header q) = timestamp (header pk2)
            \<and> len (header q) = int (length P) \<and> type_id (header q) = type_id (header pk2)
            \<and> stream_id (header q) = stream_id (header pk2)
            \<and> clock q = clock pk2 + delta pk2
            \<and> payload q = Some (P @ replicate 1024 0)"
    proof (rule less.hyps [OF m s4(2,3)])
      show "inPackets s4 c = Some pk2" using s4(4) by (simp add: pk2_def)
      show "inChunkSize s4 = int C" using s4(5) s1p by simp
      show "length (parserBuffer s4) = 18" by (rule s4(6))
      show "bytes pk2 = int (b + C)" by (simp add: pk2_def pk1_def)
      show "len (header pk2) = int (length P)" using pk by (simp add: pk2_def pk1_def)
      show "payload pk2 = Some (take (b + C) P @ replicate (length P + 1024 - (b + C)) 0)"
        by (simp add: pk2_def pk1_def)
      show "timestamp (header pk2) = (if ts \<ge> 0xffffff then 0xffffff else ts)"
        using pk by (simp add: pk2_def pk1_def)
      show "cid (header pk2) = c" by (simp add: pk2_def)
      show "C dvd b + C" using b by simp
      show "b + C < length P" by (rule True)
      show "drop (ofs + C + 1 + length (ext_timestamp ts)) data = chunked C (rtmpChunkBasicHeaderCreate 3 c @ ext_timestamp ts) (drop (b + C) P)"
        by (rule d2)
    qed
    then obtain sd q where r: "rtmpChunkRead_loop H data 0 (int (length data)) s4 (int (ofs + C + 1 + length (ext_timestamp ts))) = Some (rtmpHandler H sd)"
            "cur_packet sd = Inr q \<and> dispatched sd = dispatched s4"
            "inAckSize sd = inAckSize s4" "inLastAck sd = inLastAck s4"
            "cid (header q) = c" "timestamp (header q) = timestamp (header pk2)"
            "len (header q) = int (length P)" "type_id (header q) = type_id (header pk2)"
            "stream_id (header q) = stream_id (header pk2)"
            "clock q = clock pk2 + delta pk2"
            "payload q = Some (P @ replicate 1024 0)" by blast
    have f: "timestamp (header pk2) = timestamp (header pk)" "type_id (header pk2) = type_id (header pk)"
      "stream_id (header pk2) = stream_id (header pk)" "clock pk2 = clock pk" "delta pk2 = delta pk"
      by (simp_all add: pk2_def pk1_def)
    have "rtmpChunkRead_loop H data 0 (int (length data)) s (int ofs) = Some (rtmpHandler H sd)"
      using run1 s4(1) r(1) by simp
    then show ?thesis
      using r(2-11) s4(7,8,9) s1p(5,6,7) unfolding f by auto
  qed
qed

subsection \<open>The first header\<close>

lemma read_fields:
  assumes "B = pre @ message_header f tsv l t sid @ tail" "length pre = k"
  shows "take 3 (drop k B) = be_bytes 3 tsv" "take 3 (drop (k + 3) B) = be_bytes 3 l"
    "B ! (k + 6) = word_of_int t" "f = 0 \<Longrightarrow> take 4 (drop (k + 7) B) = le_bytes 4 sid"
proof -
  define rest where "rest = (if f = 0 then le_bytes 4 sid else []) @ tail"
  have l3: "length (be_bytes 3 tsv) = 3" "length (be_bytes 3 l) = 3" "length (le_bytes 4 sid) = 4" by simp_all
  have B: "B = pre @ be_bytes 3 tsv @ be_bytes 3 l @ [word_of_int t] @ rest"
    by (simp add: assms message_header_def rest_def del: be_bytes.simps) (simp add: numeral_eq_Suc)
  have d1: "drop k B = be_bytes 3 tsv @ be_bytes 3 l @ [word_of_int t] @ rest"
    unfolding B using assms(2) by simp
  show "take 3 (drop k B) = be_bytes 3 tsv" unfolding d1 using l3 by (simp del: be_bytes.simps)
  have d4: "drop (k + 3) B = drop 3 (drop k B)" by (simp add: add.commute)
  have d4': "drop (k + 3) B = be_bytes 3 l @ [word_of_int t] @ rest"
    unfolding d4 d1 using l3 by (simp del: be_bytes.simps)
  show "take 3 (drop (k + 3) B) = be_bytes 3 l" unfolding d4' using l3 by (simp del: be_bytes.simps)
  have d7: "drop (k + 6) B = drop 3 (drop (k + 3) B)" by (simp add: add.commute)
  have d7': "drop (k + 6) B = [word_of_int t] @ rest"
    unfolding d7 d4' using l3 by (simp del: be_bytes.simps)
  have "k + 6 < length B" unfolding B using l3 assms(2) by (simp del: be_bytes.simps)
  then have "B ! (k + 6) = hd (drop (k + 6) B)" by (simp add: hd_drop_conv_nth)
  then show "B ! (k + 6) = word_of_int t" unfolding d7' by simp
  have d8: "drop (k + 7) B = drop 1 (drop (k + 6) B)" by (simp add: add.commute)
  have d8': "drop (k + 7) B = rest" unfolding d8 d7' by simp
  show "take 4 (drop (k + 7) B) = le_bytes 4 sid" if "f = 0"
    unfolding d8' rest_def using l3 that by simp
qed

lemma parse_first:
  assumes "parserBasicBytes s = int k" "parserBuffer s = pre @ message_header f tsv l t sid @ tail"
    "length pre = k" "rtmpPacketParse_cid s = c" "js_sar (pb_byte s 0) 6 = f" "inPackets s c = None"
    "f = 0 \<or> f = 1"
    "0 \<le> tsv" "tsv < 2 ^ 24" "0 \<le> l" "l < 2 ^ 24" "0 \<le> t" "t < 256" "0 \<le> sid" "sid < 2 ^ 32"
  shows "rtmpPacketParse s
         = s\<lparr>parserPacket := Some c,
              inPackets := (inPackets s)(c \<mapsto>
                 \<lparr>header = \<lparr>fmt = f, cid = c, timestamp = tsv, len = l, type_id = t,
                             stream_id = (if f = 0 then sid else 0)\<rparr>,
                  clock = 0, delta = 0, payload = None, capacity = 0, bytes = 0\<rparr>)\<rparr>"
proof -
  note rf = read_fields [OF assms(2,3)]
  have n: "nat (int k) = k" "nat (int k + 3) = k + 3" "nat (int k + 3 + 3) = k + 6" "nat (int k + 3 + 4) = k + 7"
    by simp_all
  have v: "pb_readUIntBE s (int k) 3 = tsv" "pb_readUIntBE s (int k + 3) 3 = l"
    "pb_byte s (nat (int k + 3 + 3)) = t"
    unfolding pb_readUIntBE_def pb_byte_def n rf(1,2,3)
    using assms(8-13) be_value_be_bytes [of tsv 3] be_value_be_bytes [of l 3]
    by (simp_all add: uint8_small del: be_bytes.simps)
  have v4: "pb_readUInt32LE s (int k + 3 + 4) = sid" if "f = 0"
    unfolding pb_readUInt32LE_def n rf(4) [OF that]
    using assms(14,15) le_value_le_bytes [of sid 4] by simp
  have v2: "pb_byte s (nat (6 + int k)) = t"
    using v(3) by (simp_all add: algebra_simps)
  have v5: "pb_readUInt32LE s (7 + int k) = sid" if "f = 0"
    using v4 [OF that] by (simp add: algebra_simps)
  from assms(7) show ?thesis
  proof
    assume f: "f = 0"
    show ?thesis
      unfolding rtmpPacketParse_def Let_def assms(4,5,6) option.case rtmpChunkMessageHeaderRead_def assms(1)
      by (simp add: v v2 v5 [OF f] f RtmpPacket_create_def)
  next
    assume f: "f = 1"
    show ?thesis
      unfolding rtmpPacketParse_def Let_def assms(4,5,6) option.case rtmpChunkMessageHeaderRead_def assms(1)
      by (simp add: v v2 f RtmpPacket_create_def)
  qed
qed

lemma basic_header_first:
  assumes "f = 0 \<or> f = 1" "2 \<le> c" "c \<le> 318"
  shows "\<exists>b0 pt. rtmpChunkBasicHeaderCreate f c = b0 # pt \<and> length pt \<le> 1
           \<and> (if js_and (uint b0) 0x3F = 0 then 2 else if js_and (uint b0) 0x3F = 1 then 3 else 1)
               = int (length (b0 # pt))
           \<and> js_sar (uint b0) 6 = f
           \<and> (\<forall>s :: 'a parser_scheme. parserBasicBytes s = int (length (b0 # pt))
                  \<longrightarrow> take (length (b0 # pt)) (parserBuffer s) = b0 # pt
                  \<longrightarrow> rtmpPacketParse_cid s = c)"
proof (cases "c \<le> 63")
  case True
  have f03: "0 \<le> f" "f \<le> 3" using assms(1) by auto
  define x where "x = f * 64 + c"
  define w :: "8 word" where "w = word_of_int x"
  have bh: "rtmpChunkBasicHeaderCreate f c = [w]"
    using assms True basic1 [OF f03, of c] by (simp add: w_def x_def)
  have u: "uint w = x" "js_and x 63 = c" "js_sar x 6 = f"
    using byte_fmt_cid [OF f03, of c] assms True by (simp_all add: w_def x_def)
  have "rtmpPacketParse_cid s = c"
    if a: "parserBasicBytes s = 1" "take 1 (parserBuffer s) = [w]" for s :: "'a parser_scheme"
  proof -
    have "parserBuffer s ! 0 = w" using a(2) by (cases "parserBuffer s") simp_all
    then show ?thesis by (simp add: rtmpPacketParse_cid_def a(1) pb_byte_def u)
  qed
  then show ?thesis using assms by (simp add: bh u)
next
  case False
  then have c: "64 \<le> c" by simp
  have f03: "0 \<le> f" "f \<le> 3" using assms(1) by auto
  define x where "x = f * 64"
  define w0 :: "8 word" where "w0 = word_of_int x"
  define w :: "8 word" where "w = word_of_int (c - 64)"
  have bh: "rtmpChunkBasicHeaderCreate f c = [w0, w]"
    using assms c basic2 [OF f03, of c] by (simp add: w_def w0_def x_def)
  have u: "uint w0 = x" "js_and x 63 = 0" "js_sar x 6 = f"
    using byte_fmt_cid [OF f03, of 0] by (simp_all add: w0_def x_def)
  have v: "uint w = c - 64" unfolding w_def using assms c by (intro uint8_small) auto
  have "rtmpPacketParse_cid s = c"
    if a: "parserBasicBytes s = 2" "take 2 (parserBuffer s) = [w0, w]" for s :: "'a parser_scheme"
  proof -
    obtain x y r where B: "parserBuffer s = x # y # r"
      using a(2) by (cases "parserBuffer s"; cases "tl (parserBuffer s)") auto
    then have "parserBuffer s ! 1 = w" using a(2) by simp
    then show ?thesis by (simp add: rtmpPacketParse_cid_def a(1) pb_byte_def v)
  qed
  then show ?thesis by (simp add: bh u numeral_2_eq_2)
qed

lemma first_header:
  fixes s :: "'a parser_scheme"
  assumes st: "parserState s = RTMP_PARSE_INIT" "inPackets s c = None" "length (parserBuffer s) = 18"
    and f: "f = 0 \<or> f = 1 \<and> sid = 0"
    and c: "2 \<le> c" "c \<le> 318"
    and r: "0 \<le> ts" "ts < 2 ^ 32" "0 < L" "L < 2 ^ 24" "0 \<le> t" "t < 256" "0 \<le> sid" "sid < 2 ^ 32"
    and data: "data = rtmpChunkBasicHeaderCreate f c
                      @ message_header f (if ts \<ge> 0xffffff then 0xffffff else ts) (int L) t sid
                      @ ext_timestamp ts @ rest" "rest \<noteq> []"
  shows "\<exists>s4. rtmpChunkRead_loop H data 0 (int (length data)) s 0
              = rtmpChunkRead_loop H data 0 (int (length data)) s4
                  (int (length (rtmpChunkBasicHeaderCreate f c) + (if f = 0 then 11 else 7) + length (ext_timestamp ts)))
            \<and> parserState s4 = RTMP_PARSE_PAYLOAD \<and> parserPacket s4 = Some c
            \<and> inPackets s4 c = Some
                 \<lparr>header = \<lparr>fmt = f, cid = c, timestamp = (if ts \<ge> 0xffffff then 0xffffff else ts),
                             len = int L, type_id = t, stream_id = sid\<rparr>,
                  clock = (if f = 0 then ts else 0), delta = (if f = 0 then 0 else ts), payload = Some (replicate (L + 1024) 0),
                  capacity = int L + 1024, bytes = 0\<rparr>
            \<and> inChunkSize s4 = inChunkSize s \<and> length (parserBuffer s4) = 18
            \<and> dispatched s4 = dispatched s \<and> inAckSize s4 = inAckSize s \<and> inLastAck s4 = inLastAck s"
proof -
  define tsv where "tsv = (if ts \<ge> 0xffffff then 0xffffff else ts)"
  define mh where "mh = message_header f tsv (int L) t sid"
  define ext where "ext = ext_timestamp ts"
  define e where "e = length ext"
  define n where "n = int (length data)"
  define pre where "pre = rtmpChunkBasicHeaderCreate f c"
  define m :: nat where "m = (if f = 0 then 11 else 7)"
  have f01: "f = 0 \<or> f = 1" using f by auto
  have m: "7 \<le> m" "m \<le> 11" by (simp_all add: m_def)
  define k where "k = length pre"
  obtain b0 pt where bh: "pre = b0 # pt" "length pt \<le> 1"
     and bb: "(if js_and (uint b0) 0x3F = 0 then 2 else if js_and (uint b0) 0x3F = 1 then 3 else 1) = int (length (b0 # pt))"
     and f0: "js_sar (uint b0) 6 = f"
     and pc: "\<And>s :: 'a parser_scheme. parserBasicBytes s = int (length (b0 # pt))
                  \<Longrightarrow> take (length (b0 # pt)) (parserBuffer s) = b0 # pt
                  \<Longrightarrow> rtmpPacketParse_cid s = c"
    using basic_header_first [OF f01 c, where 'a = 'a] unfolding pre_def by blast
  have k: "k = Suc (length pt)" "1 \<le> k" "k \<le> 2" using bh by (simp_all add: k_def)
  have tsv: "0 \<le> tsv" "tsv < 2 ^ 24" using r by (auto simp add: tsv_def)
  have d: "data = pre @ mh @ ext @ rest" using data by (simp add: pre_def mh_def tsv_def ext_def)
  have lmh: "length mh = m" by (simp add: mh_def m_def)
  have lp: "length pre = k" by (simp add: k_def)
  have lr: "1 \<le> length rest" using data(2) by (cases rest) simp_all
  have ld: "length data = k + m + e + length rest" by (simp add: d lmh e_def k_def)
  have lt: "0 < length data" "1 < length data" "k < length data" "k + m < length data"
    "k + m + e < length data"
    using ld lr k by arith+
  have nth: "data ! 0 = b0" by (simp add: d bh)
  have e: "e = (if tsv = 0xFFFFFF then 4 else 0)"
    using r by (auto simp add: e_def ext_def ext_timestamp_def tsv_def)
  define B where "B = parserBuffer s"
  have lB: "length B = 18" using st by (simp add: B_def)
  define s1 where "s1 = s\<lparr>parserBytes := 1, parserBuffer := B[0 := b0],
                  parserBasicBytes := int k, parserState := RTMP_PARSE_BASIC_HEADER\<rparr>"
  have p0: "0 < length (parserBuffer s)" using st by simp
  have 1: "rtmpChunkRead_step H data 0 n s (int 0) = Inr (s1, int 1)"
    using step_init [where s = s and ofs = 0 and data = data and nbytes = n and H = H, OF st(1) lt(1) p0, unfolded nth bb]
    by (simp add: s1_def B_def k)
  define B2 where "B2 = pre @ drop k B"
  define s2 where "s2 = s1\<lparr>parserBuffer := B2, parserBytes := int k, parserState := RTMP_PARSE_MESSAGE_HEADER\<rparr>"
  have s1p: "parserState s1 = RTMP_PARSE_BASIC_HEADER" "parserBytes s1 = int 1"
    "parserBasicBytes s1 = int (1 + length pt)"
    by (simp_all add: s1_def k)
  have tk: "take (length pt) (drop 1 data) = pt" by (simp add: d bh)
  have b2: "take 1 (parserBuffer s1) @ take (length pt) (drop 1 data) @ drop (1 + length pt) (parserBuffer s1) = B2"
    using lB by (cases B) (simp_all add: s1_def tk [unfolded One_nat_def] B2_def bh k)
  have 2: "rtmpChunkRead_step H data 0 n s1 (int 1) = Inr (s2, int k)"
    using step_basic [OF s1p, of 1 data "int 1" H] lt lB k unfolding b2
    by (simp add: n_def s2_def) (simp add: s1_def)
  have lB2: "length B2 = 18" using lB k by (simp add: B2_def k_def)
  define B3 where "B3 = pre @ mh @ drop (k + m) B"
  have lB3: "length B3 = 18" using lB k m by (simp add: B3_def lmh k_def)
  define s2' where "s2' = s2\<lparr>parserBuffer := B3, parserBytes := int (k + m)\<rparr>"
  have s2p: "parserState s2 = RTMP_PARSE_MESSAGE_HEADER" "parserBytes s2 = int k"
    "parserBasicBytes s2 = int k" "parserBuffer s2 = B2"
    by (simp_all add: s2_def s1_def)
  have pb0: "pb_byte s2 0 = uint b0" by (simp add: pb_byte_def s2p B2_def bh)
  have hs: "rtmpHeaderSize (js_sar (pb_byte s2 0) 6) = Some (int m)" using f01 by (auto simp add: pb0 f0 rtmpHeaderSize_def m_def)
  have t11: "take m (drop k data) = mh" by (simp add: d lmh k_def)
  have b3: "take k (parserBuffer s2) @ take m (drop k data) @ drop (k + m) (parserBuffer s2) = B3"
    by (simp add: s2p B2_def t11 B3_def lp add.commute)
  have 3: "rtmpChunkRead_step H data 0 (int (length data)) s2 (int k)
           = Inr ((rtmpPacketParse s2')\<lparr>parserState := RTMP_PARSE_EXTENDED_TIMESTAMP\<rparr>, int k + int m)"
    using step_message_header [OF s2p(1) hs s2p(2), of m k data "int k" H] lt lB2 s2p k(2,3) m unfolding b3
    by (simp add: s2'_def)
  define pkA where "pkA = \<lparr>header = \<lparr>fmt = f, cid = c, timestamp = tsv, len = int L, type_id = t, stream_id = sid\<rparr>,
                  clock = 0, delta = 0, payload = None, capacity = 0, bytes = 0\<rparr>"
  have s2'p: "parserBasicBytes s2' = int k" "parserBuffer s2' = pre @ mh @ drop (k + m) B"
    "inPackets s2' c = None"
    using st by (simp_all add: s2'_def s2_def s1_def B3_def)
  note pc' = pc [folded bh(1), folded k_def]
  have cid: "rtmpPacketParse_cid s2' = c"
    by (rule pc') (simp_all add: s2'p lp)
  have f0': "js_sar (pb_byte s2' 0) 6 = f" by (simp add: pb_byte_def s2'p bh f0)
  have pp: "rtmpPacketParse s2' = s2'\<lparr>parserPacket := Some c, inPackets := (inPackets s2')(c \<mapsto> pkA)\<rparr>"
  proof -
    have sidf: "(if f = 0 then sid else 0) = sid" using f by auto
    show ?thesis
      unfolding pkA_def
      using parse_first [OF s2'p(1) s2'p(2) [unfolded mh_def] k_def [symmetric] cid f0' s2'p(3) f01 tsv _ _ r(5-8)] r
      by (simp add: sidf)
  qed
  define s3 where "s3 = s2'\<lparr>parserPacket := Some c, inPackets := (inPackets s2')(c \<mapsto> pkA),
                           parserState := RTMP_PARSE_EXTENDED_TIMESTAMP\<rparr>"
  have m3: "rtmpChunkRead_step H data 0 n s2 (int k) = Inr (s3, int (k + m))"
    using 3 by (simp add: pp s3_def n_def)
  define pkB where "pkB = \<lparr>header = \<lparr>fmt = f, cid = c, timestamp = tsv, len = int L, type_id = t, stream_id = sid\<rparr>,
                  clock = (if f = 0 then ts else 0), delta = (if f = 0 then 0 else ts), payload = Some (replicate (L + 1024) 0),
                  capacity = int L + 1024, bytes = 0\<rparr>"
  have cp: "cur_packet s3 = Inr pkA" by (simp add: cur_packet_def s3_def)
  have hsA: "rtmpHeaderSize (fmt (header pkA)) = Some (int m)" using f01 by (auto simp add: pkA_def rtmpHeaderSize_def m_def)
  have s3p: "parserState s3 = RTMP_PARSE_EXTENDED_TIMESTAMP" "parserBytes s3 = int (k + m)"
    "parserBasicBytes s3 = int k" "parserBuffer s3 = B3"
    by (simp_all add: s3_def s2'_def s2_def s1_def)
  have s3f: "inChunkSize s3 = inChunkSize s" "dispatched s3 = dispatched s" "inAckSize s3 = inAckSize s"
    "inLastAck s3 = inLastAck s" "parserPacket s3 = Some c"
    by (simp_all add: s3_def s2'_def s2_def s1_def)
  have alloc: "rtmpPacketAlloc (if fmt (header pkA) = 0 then pkA\<lparr>clock := ts, delta := 0\<rparr>
                                 else pkA\<lparr>delta := ts\<rparr>) = pkB"
    using r by (simp add: rtmpPacketAlloc_def pkA_def pkB_def nat_add_distrib)
  have "\<exists>s4. rtmpChunkRead_step H data 0 n s3 (int (k + m)) = Inr (s4, int (k + m) + int e)
            \<and> parserState s4 = RTMP_PARSE_PAYLOAD \<and> parserPacket s4 = Some c
            \<and> inPackets s4 c = Some pkB
            \<and> inChunkSize s4 = inChunkSize s \<and> length (parserBuffer s4) = 18
            \<and> dispatched s4 = dispatched s \<and> inAckSize s4 = inAckSize s \<and> inLastAck s4 = inLastAck s"
  proof (cases "tsv = 0xFFFFFF")
    case True
    then have e4: "e = 4" using e by simp
    have x4: "ext = be_bytes 4 ts" "ts \<ge> 0xffffff"
      using True r by (auto simp add: ext_def ext_timestamp_def tsv_def split: if_splits)
    have sz: "int m + parserBasicBytes s3 + (if timestamp (header pkA) = 0xFFFFFF then 4 else 0) = int ((k + m) + 4)"
      using True s3p by (simp add: pkA_def)
    have r1: "(k + m) + 4 \<le> length data" "(k + m) + 4 \<le> length (parserBuffer s3)" "int (k + m) = int (k + m)"
      using lt e4 s3p lB3 k m by simp_all
    define B4 where "B4 = take (k + m) (parserBuffer s3) @ take 4 (drop (k + m) data) @ drop ((k + m) + 4) (parserBuffer s3)"
    have d12: "drop (k + m) data = ext @ rest"
    proof -
      have "data = (pre @ mh) @ ext @ rest" by (simp add: d)
      moreover have "length (pre @ mh) = k + m" by (simp add: k_def lmh)
      ultimately show ?thesis by (metis append_eq_conv_conj)
    qed
    have lB4: "length B4 = 18" using lB3 k(2,3) m by (simp add: B4_def s3p d12 x4 del: be_bytes.simps)
    have "drop (k + m) B4 = be_bytes 4 ts @ drop ((k + m) + 4) B3"
      using lB3 k(2,3) m by (simp add: B4_def s3p d12 x4 del: be_bytes.simps)
    then have B4: "take 4 (drop (k + m) B4) = be_bytes 4 ts" by (simp del: be_bytes.simps)
    have nk: "nat (int m + parserBasicBytes s3) = k + m" by (simp add: s3p)
    have rd: "be_value (take 4 (drop (nat (int m + parserBasicBytes s3)) B4)) = ts"
      unfolding nk B4 using r be_value_be_bytes [of ts 4] by simp
    define s4 where "s4 = (set_packet (s3\<lparr>parserBuffer := B4, parserBytes := int ((k + m) + 4)\<rparr>) pkB)
                             \<lparr>parserState := RTMP_PARSE_PAYLOAD\<rparr>"
    have x: "rtmpChunkRead_step H data 0 (int (length data)) s3 (int (k + m)) = Inr (s4, int (k + m) + int 4)"
      using step_extended_timestamp [OF s3p(1) cp hsA s3p(2) sz r1]
      unfolding B4_def [symmetric] rd
      using True alloc [symmetric] by (simp add: s4_def) (simp add: pkA_def)
    have "rtmpChunkRead_step H data 0 n s3 (int (k + m)) = Inr (s4, int (k + m) + int e)"
      using x by (simp add: n_def e4)
    moreover have "parserState s4 = RTMP_PARSE_PAYLOAD \<and> parserPacket s4 = Some c
            \<and> inPackets s4 c = Some pkB
            \<and> inChunkSize s4 = inChunkSize s \<and> length (parserBuffer s4) = 18
            \<and> dispatched s4 = dispatched s \<and> inAckSize s4 = inAckSize s \<and> inLastAck s4 = inLastAck s"
      using s3f lB4 by (simp add: s4_def set_packet_def)
    ultimately show ?thesis by blast
  next
    case False
    then have e0: "e = 0" using e by simp
    have tt: "tsv = ts" using False r by (auto simp add: tsv_def split: if_splits)
    have t1: "timestamp (header pkA) \<noteq> 0xFFFFFF" using False by (simp add: pkA_def)
    define s4 where "s4 = (set_packet s3 pkB)\<lparr>parserState := RTMP_PARSE_PAYLOAD\<rparr>"
    have le: "int m + parserBasicBytes s3 \<le> parserBytes s3" by (simp add: s3p)
    have x: "rtmpChunkRead_step H data 0 n s3 (int (k + m)) = Inr (s4, int (k + m))"
      using step_extended_timestamp0 [where s = s3 and hs = "int m" and H = H and data = data and p = 0 and nbytes = n and offset = "int (k + m)", OF s3p(1) cp hsA t1 le] alloc
      unfolding s4_def alloc [symmetric] by (simp add: pkA_def tt)
    have "rtmpChunkRead_step H data 0 n s3 (int (k + m)) = Inr (s4, int (k + m) + int e)"
      using x by (simp add: e0)
    moreover have "parserState s4 = RTMP_PARSE_PAYLOAD \<and> parserPacket s4 = Some c
            \<and> inPackets s4 c = Some pkB
            \<and> inChunkSize s4 = inChunkSize s \<and> length (parserBuffer s4) = 18
            \<and> dispatched s4 = dispatched s \<and> inAckSize s4 = inAckSize s \<and> inLastAck s4 = inLastAck s"
      using s3f lB3 s3p by (simp add: s4_def set_packet_def)
    ultimately show ?thesis by blast
  qed
  then obtain s4 where 4: "rtmpChunkRead_step H data 0 n s3 (int (k + m)) = Inr (s4, int (k + m) + int e)"
     and props: "parserState s4 = RTMP_PARSE_PAYLOAD" "parserPacket s4 = Some c" "inPackets s4 c = Some pkB"
    "inChunkSize s4 = inChunkSize s" "length (parserBuffer s4) = 18" "dispatched s4 = dispatched s"
    "inAckSize s4 = inAckSize s" "inLastAck s4 = inLastAck s"
    by blast
  have "rtmpChunkRead_loop H data 0 n s (int 0) = rtmpChunkRead_loop H data 0 n s1 (int 1)"
    using lt by (intro loop_step [OF _ 1]) (simp add: n_def)
  also have "\<dots> = rtmpChunkRead_loop H data 0 n s2 (int k)"
    using lt by (intro loop_step [OF _ 2]) (simp add: n_def)
  also have "\<dots> = rtmpChunkRead_loop H data 0 n s3 (int (k + m))"
    using lt by (intro loop_step [OF _ m3]) (simp add: n_def)
  also have "\<dots> = rtmpChunkRead_loop H data 0 n s4 (int (k + m) + int e)"
    using lt by (intro loop_step [OF _ 4]) (simp add: n_def)
  finally have run0: "rtmpChunkRead_loop H data 0 n s (int 0) = rtmpChunkRead_loop H data 0 n s4 (int (k + m) + int e)" .
  have eq: "int (k + m) + int e = int (k + m + e)" "int 0 = 0" by simp_all
  note run = run0 [unfolded eq]
  show ?thesis
    using run props unfolding n_def e_def pkB_def tsv_def ext_def k_def pre_def m_def by blast
qed

subsection \<open>The whole message\<close>

lemma acknowledge_ok:
  fixes s1 :: "'a parser_scheme"
  assumes "0 \<le> inAckSize s1"
  shows "\<exists>s2. acknowledge data s1 = Inr s2 \<and> dispatched s2 = dispatched s1"
proof -
  define a where "a = inAckSize s1 + int (length data)"
  have a: "0 \<le> a" using assms by (simp add: a_def)
  have w: "v < 0xf0000000 \<Longrightarrow> 0 \<le> v \<Longrightarrow>
           writeUInt32BE [0x02, 0, 0, 0, 0, 0, 0x04, 0x03, 0, 0, 0, 0, 0, 0, 0, 0] v 12
           = Inr (buf_patch [0x02, 0, 0, 0, 0, 0, 0x04, 0x03, 0, 0, 0, 0, 0, 0, 0, 0] 12 (be_bytes 4 v))" for v
    by (simp add: writeUInt32BE_def writeUIntBE_def del: be_bytes.simps)
  show ?thesis
  proof (cases "a \<ge> 0xf0000000")
    case True
    then show ?thesis
      using w [of 0]
      by (simp add: acknowledge_def bindE_def Let_def a_def [symmetric] sendACK_def
            del: be_bytes.simps)
  next
    case False
    then have "a < 0xf0000000" by simp
    then show ?thesis
      using w [of a] a
      by (simp add: acknowledge_def bindE_def Let_def a_def [symmetric] sendACK_def
            del: be_bytes.simps)
  qed
qed

lemma parse_chunk_stream:
  fixes P :: buffer and C :: nat
  assumes f: "f = 0 \<or> f = 1 \<and> sid = 0"
      and c: "2 \<le> c" "c \<le> 318" and c63: "c \<le> 63 \<or> length P \<le> C"
      and ts: "0 \<le> ts" "ts < 2 ^ 32"
      and P: "P \<noteq> []" "length P < 2 ^ 24"
      and t: "0 \<le> t" "t < 256" and sid: "0 \<le> sid" "sid < 2 ^ 32" and C: "0 < C"
  shows "\<exists>sd q. rtmpChunkRead H (chunk_stream C f c ts t sid P) 0 (int (length (chunk_stream C f c ts t sid P)))
                  (new_parser\<lparr>inChunkSize := int C\<rparr>)
                = bindE (rtmpHandler H sd) (acknowledge (chunk_stream C f c ts t sid P))
            \<and> cur_packet sd = Inr q \<and> dispatched sd = [] \<and> inAckSize sd = 0
            \<and> cid (header q) = c \<and> len (header q) = int (length P) \<and> type_id (header q) = t
            \<and> stream_id (header q) = sid \<and> clock q = ts
            \<and> payload q = Some (P @ replicate 1024 0)"
proof -
  define data where "data = chunk_stream C f c ts t sid P"
  define s0 where "s0 = new_parser\<lparr>inChunkSize := int C\<rparr>"
  define sep where "sep = rtmpChunkBasicHeaderCreate 3 c @ ext_timestamp ts"
  define rest where "rest = chunked C sep P"
  define tsv where "tsv = (if ts \<ge> 0xffffff then 0xffffff else ts)"
  define L where "L = length P"
  have L: "0 < L" "L < 2 ^ 24" using P by (simp_all add: L_def)
  define k where "k = length (rtmpChunkBasicHeaderCreate f c) + (if f = 0 then 11 else 7)"
  have d: "data = rtmpChunkBasicHeaderCreate f c @ message_header f tsv (int L) t sid @ ext_timestamp ts @ rest"
    by (simp add: data_def chunk_stream_def rest_def sep_def tsv_def L_def)
  have rne: "rest \<noteq> []" unfolding rest_def using P(1) by (rule chunked_nonempty)
  have s0p: "parserState s0 = RTMP_PARSE_INIT" "inPackets s0 c = None" "length (parserBuffer s0) = 18"
    "inChunkSize s0 = int C" "dispatched s0 = []" "inAckSize s0 = 0" "inLastAck s0 = 0"
    by (simp_all add: s0_def new_parser_def)
  define pkB where "pkB = \<lparr>header = \<lparr>fmt = f, cid = c, timestamp = (if ts \<ge> 0xffffff then 0xffffff else ts),
                             len = int L, type_id = t, stream_id = sid\<rparr>,
                  clock = (if f = 0 then ts else 0), delta = (if f = 0 then 0 else ts),
                  payload = Some (replicate (L + 1024) 0),
                  capacity = int L + 1024, bytes = 0\<rparr>"
  obtain s4 where s4: "rtmpChunkRead_loop H data 0 (int (length data)) s0 0
              = rtmpChunkRead_loop H data 0 (int (length data)) s4 (int (k + length (ext_timestamp ts)))"
            "parserState s4 = RTMP_PARSE_PAYLOAD" "parserPacket s4 = Some c"
            "inPackets s4 c = Some pkB"
            "inChunkSize s4 = inChunkSize s0" "length (parserBuffer s4) = 18"
            "dispatched s4 = dispatched s0" "inAckSize s4 = inAckSize s0" "inLastAck s4 = inLastAck s0"
    using first_header [OF s0p(1,2,3) f c ts L t sid d [unfolded tsv_def] rne, of H] unfolding pkB_def k_def by blast
  have dd: "drop (k + length (ext_timestamp ts)) data = chunked C (rtmpChunkBasicHeaderCreate 3 c @ ext_timestamp ts) (drop 0 P)"
  proof -
    define hdr where "hdr = rtmpChunkBasicHeaderCreate f c @ message_header f tsv (int L) t sid @ ext_timestamp ts"
    have "data = hdr @ rest" by (simp add: d hdr_def)
    then have "drop (length hdr) data = rest" by simp
    moreover have "length hdr = k + length (ext_timestamp ts)" by (simp add: hdr_def k_def)
    ultimately show ?thesis by (simp add: rest_def sep_def)
  qed
  have "\<exists>sd q. rtmpChunkRead_loop H data 0 (int (length data)) s4 (int (k + length (ext_timestamp ts))) = Some (rtmpHandler H sd)
            \<and> cur_packet sd = Inr q \<and> dispatched sd = dispatched s4
            \<and> inAckSize sd = inAckSize s4 \<and> inLastAck sd = inLastAck s4
            \<and> cid (header q) = c \<and> timestamp (header q) = timestamp (header pkB)
            \<and> len (header q) = int (length P) \<and> type_id (header q) = type_id (header pkB)
            \<and> stream_id (header q) = stream_id (header pkB)
            \<and> clock q = clock pkB + delta pkB
            \<and> payload q = Some (P @ replicate 1024 0)"
  proof (rule payload_loop [OF C c(1) c63 s4(2,3,4)])
    show "inChunkSize s4 = int C" using s4(5) s0p by simp
    show "length (parserBuffer s4) = 18" by (rule s4(6))
    show "bytes pkB = int 0" by (simp add: pkB_def)
    show "len (header pkB) = int (length P)" by (simp add: pkB_def L_def)
    show "payload pkB = Some (take 0 P @ replicate (length P + 1024 - 0) 0)" by (simp add: pkB_def L_def)
    show "timestamp (header pkB) = (if ts \<ge> 0xffffff then 0xffffff else ts)" by (simp add: pkB_def)
    show "cid (header pkB) = c" by (simp add: pkB_def)
    show "C dvd 0" by simp
    show "0 < length P" using P by simp
    show "drop (k + length (ext_timestamp ts)) data = chunked C (rtmpChunkBasicHeaderCreate 3 c @ ext_timestamp ts) (drop 0 P)"
      by (rule dd)
  qed
  then obtain sd q where r: "rtmpChunkRead_loop H data 0 (int (length data)) s4 (int (k + length (ext_timestamp ts))) = Some (rtmpHandler H sd)"
            "cur_packet sd = Inr q" "dispatched sd = dispatched s4"
            "inAckSize sd = inAckSize s4" "inLastAck sd = inLastAck s4"
            "cid (header q) = c"
            "len (header q) = int (length P)" "type_id (header q) = type_id (header pkB)"
            "stream_id (header q) = stream_id (header pkB)"
            "clock q = clock pkB + delta pkB"
            "payload q = Some (P @ replicate 1024 0)" by blast
  have run: "rtmpChunkRead_loop H data 0 (int (length data)) s0 0 = Some (rtmpHandler H sd)"
    using s4(1) r(1) by simp
  have "rtmpChunkRead H data 0 (int (length data)) s0 = bindE (rtmpHandler H sd) (acknowledge data)"
    by (simp add: rtmpChunkRead_def run returned_def)
  moreover have "dispatched sd = []" "inAckSize sd = 0" using r(3,4) s4(7,8) s0p by simp_all
  moreover have "type_id (header q) = t" "stream_id (header q) = sid" "clock q = ts"
    using r(8,9,10) by (simp_all add: pkB_def)
  ultimately show ?thesis
    using r(2,6,7,11) unfolding data_def s0_def by blast
qed

lemma parse_chunk_stream_returns:
  fixes P :: buffer and C :: nat
  assumes f: "f = 0 \<or> f = 1 \<and> sid = 0"
      and c: "2 \<le> c" "c \<le> 318" and c63: "c \<le> 63 \<or> length P \<le> C"
      and ts: "0 \<le> ts" "ts < 2 ^ 32"
      and P: "P \<noteq> []" "length P < 2 ^ 24"
      and t: "0 \<le> t" "t < 256" and sid: "0 \<le> sid" "sid < 2 ^ 32" and C: "0 < C"
      and H: "t \<notin> {8, 9, 15, 17, 18, 20} \<or> H = quiet"
  shows "\<exists>s' q. rtmpChunkRead H (chunk_stream C f c ts t sid P) 0 (int (length (chunk_stream C f c ts t sid P)))
                  (new_parser\<lparr>inChunkSize := int C\<rparr>) = Inr s'
            \<and> dispatched s' = [q]
            \<and> cid (header q) = c \<and> len (header q) = int (length P) \<and> type_id (header q) = t
            \<and> stream_id (header q) = sid \<and> clock q = ts
            \<and> payload q = Some (P @ replicate 1024 0)"
proof -
  define data where "data = chunk_stream C f c ts t sid P"
  obtain sd q where r: "rtmpChunkRead H data 0 (int (length data)) (new_parser\<lparr>inChunkSize := int C\<rparr>)
                = bindE (rtmpHandler H sd) (acknowledge data)"
      "cur_packet sd = Inr q" "dispatched sd = []" "inAckSize sd = 0"
      "cid (header q) = c" "len (header q) = int (length P)" "type_id (header q) = t"
      "stream_id (header q) = sid" "clock q = ts" "payload q = Some (P @ replicate 1024 0)"
    using parse_chunk_stream [OF f c c63 ts P t sid C, of H] unfolding data_def by blast
  have H': "type_id (header q) \<notin> {8, 9, 15, 17, 18, 20} \<or> H = quiet" using H r(7) by simp
  have "\<exists>s'. rtmpHandler H sd = Inr s' \<and> dispatched s' = dispatched sd @ [q]
              \<and> inAckSize s' = inAckSize sd \<and> inLastAck s' = inLastAck sd"
    using r(2,10) _ H' by (rule rtmpHandler_ok) simp
  then obtain s1 where h: "rtmpHandler H sd = Inr s1" "dispatched s1 = [q]" "inAckSize s1 = 0"
    using r(3,4) by auto
  obtain s2 where a: "acknowledge data s1 = Inr s2" "dispatched s2 = dispatched s1"
    using acknowledge_ok [of s1 data] h(3) by auto
  have "rtmpChunkRead H data 0 (int (length data)) (new_parser\<lparr>inChunkSize := int C\<rparr>) = Inr s2"
    by (simp add: r(1) h(1) bindE_def a(1))
  then show ?thesis using a(2) h(2) r(5-10) unfolding data_def by auto
qed

subsection \<open>The round trip\<close>





section \<open>The AMF3 integer codec\<close>

text \<open>
  C10 (a defect of the code). The encoder and the decoder of UInt29 do not agree. For
  \<open>n = 0\<close> (and every \<open>n\<close> below \<open>0x200000\<close>, since the chain of \<^verbatim>\<open>if\<close>s of
  \<^verbatim>\<open>amf3encUI29\<close> ends with \<open>len = 3\<close>) \<^verbatim>\<open>amf3encInteger\<close> gives a buffer of four bytes,
  and \<^verbatim>\<open>amf3decInteger\<close> raises on it: its loop runs while \<^verbatim>\<open>len < 5\<close> and reads past
  the end. For \<open>n = 0x200000\<close> the buffer has five bytes and is decoded as 16383. From
  \<open>n = 0x800000\<close> on the encoder itself raises, on \<^verbatim>\<open>(num >> 15) | 0x7F\<close>, which is no
  byte.
\<close>

theorem ui29_round_trip_fails:
  "amf3encInteger 0 = Inr [4, 0, 0, 0x80]
   \<and> amf3decInteger [4, 0, 0, 0x80] = Inl RangeError
   \<and> amf3encInteger 0x200000 = Inr [4, 0, 0, 0x7F, 0x7F]
   \<and> amf3decInteger [4, 0, 0, 0x7F, 0x7F] = Inr (5, 16383)
   \<and> amf3encInteger 0x800000 = Inl RangeError"
  by code_simp

section \<open>AMF0 strings\<close>

text \<open>
  C2 (a defect of the code). \<^verbatim>\<open>amf0encString\<close> writes \<^verbatim>\<open>str.length\<close>, the number of UTF-16
  code units, as the length of the string, and then the UTF-8 bytes of the string,
  which are more when the string is not ASCII (\<^verbatim>\<open>amf0encUString\<close> writes the number of
  bytes). The string of the one character U+00E9 is encoded as \<open>02 00 01 c3 a9\<close>;
  \<^verbatim>\<open>amf0DecodeOne\<close> reads the length 1, decodes the byte \<open>c3\<close> alone, and returns the
  string U+FFFD with the length 4 of 5 bytes. In a command the next field is then
  read at \<open>a9\<close>, which is no type marker: \<^verbatim>\<open>amf0DecodeOne\<close> returns \<^verbatim>\<open>null\<close> and
  \<^verbatim>\<open>decodeAmf0Cmd\<close> raises a \<^verbatim>\<open>TypeError\<close> on the \<open>publish\<close> command, which follows its
  schema, with this stream name.
\<close>

theorem amf0_string_round_trip_fails:
  "amf0EncodeOne (JString [0xE9]) = Inr [0x02, 0x00, 0x01, 0xC3, 0xA9]
   \<and> amf0DecodeOne [0x02, 0x00, 0x01, 0xC3, 0xA9] = Inr (Some (4, JString [0xFFFD]))
   \<and> encodeAMF0Cmd [(js ''cmd'', JString (js ''publish'')), (js ''transId'', JNumber (double_of_int 0)),
                     (js ''cmdObj'', JNull), (js ''streamName'', JString [0xE9]),
                     (js ''type'', JString (js ''live''))]
     = Inr [0x02, 0, 7, 112, 117, 98, 108, 105, 115, 104, 0, 0, 0, 0, 0, 0, 0, 0, 0,
            5, 0x02, 0, 1, 0xC3, 0xA9, 0x02, 0, 4, 108, 105, 118, 101]
   \<and> decodeAMF0Cmd [0x02, 0, 7, 112, 117, 98, 108, 105, 115, 104, 0, 0, 0, 0, 0, 0, 0, 0, 0,
                     5, 0x02, 0, 1, 0xC3, 0xA9, 0x02, 0, 4, 108, 105, 118, 101]
     = Inl TypeError"
  by code_simp

section \<open>Publishing a path that has a publisher\<close>

lemma badname_encoded:
  "encodeAMF0Cmd badname_status = Inr badname_payload"
  "length badname_payload = 115"
  "decodeAMF0Cmd badname_payload = Inr (JObject badname_status)"
  by code_simp+

lemma received_chunk_stream:
  fixes P :: buffer and C :: nat
  assumes "f = 0 \<or> f = 1 \<and> sid = 0"
      and "2 \<le> c" "c \<le> 318" "c \<le> 63 \<or> length P \<le> C"
      and "0 \<le> ts" "ts < 2 ^ 32"
      and "P \<noteq> []" "length P < 2 ^ 24"
      and "0 \<le> t" "t < 256" "0 \<le> sid" "sid < 2 ^ 32" "0 < C"
  shows "\<exists>h. received (int C) (chunk_stream C f c ts t sid P) = Inr [(h, P)]
           \<and> cid h = c \<and> len h = int (length P) \<and> type_id h = t \<and> stream_id h = sid"
proof -
  have q: "t \<notin> {8, 9, 15, 17, 18, 20} \<or> quiet = (quiet :: upper_handler \<Rightarrow> parser \<Rightarrow> error + parser)"
    by simp
  obtain s' q where r: "rtmpChunkRead quiet (chunk_stream C f c ts t sid P) 0 (int (length (chunk_stream C f c ts t sid P)))
                  (new_parser\<lparr>inChunkSize := int C\<rparr>) = Inr s'"
      "dispatched s' = [q]" "cid (header q) = c" "len (header q) = int (length P)"
      "type_id (header q) = t" "stream_id (header q) = sid" "clock q = ts"
      "payload q = Some (P @ replicate 1024 0)"
    using parse_chunk_stream_returns [OF assms q] by blast
  have "message_payload q = Inr P" by (simp add: message_payload_def r(4,8))
  then show ?thesis by (simp add: received_def r bindE_def)
qed

lemma send_packet_ok:
  fixes P :: buffer and C :: nat
  assumes "heap c i = Some s" "outChunkSize s = int C" "0 < C"
    and "make_packet cc t (Some P) sid ts = Inr p"
    and "2 \<le> cc" "cc \<le> 63" "0 \<le> ts" "ts < 2 ^ 32" "P \<noteq> []" "length P < 2 ^ 24"
    and "0 \<le> t" "t < 256" "0 \<le> sid" "sid < 2 ^ 32"
  shows "send_packet i (Inr p) c
         = Returns (upd i (\<lambda>s. s\<lparr>socket_written := socket_written s @ [chunk_stream C 0 cc ts t sid P]\<rparr>) c)"
proof -
  have hp: "header p = \<lparr>fmt = 0, cid = cc, timestamp = ts, len = int (length P), type_id = t, stream_id = sid\<rparr>"
    "payload p = Some P"
    using assms(4) by (auto simp add: make_packet_def)
  have c': "cc \<le> 65599" "cc \<le> 63 \<or> length P \<le> C" using assms(6) by simp_all
  have f: "(0 :: int) = 0 \<or> (0 :: int) = 1" by simp
  have enc: "rtmpChunksCreate (int C) p = Inr (chunk_stream C 0 cc ts t sid P)"
    by (rule rtmpChunksCreate_closed [OF hp f assms(5) c' assms(7-14) assms(3)])
  show ?thesis
    by (simp add: send_packet_def with_this_def assms(1,2) liftE_def bindE_def enc socket_write_def)
qed

lemma sendStatusMessage_ok:
  fixes C :: nat
  assumes "heap c i = Some s" "outChunkSize s = int C" "0 < C"
    and "encodeAMF0Cmd (status_opt level code description) = Inr P" "P \<noteq> []" "length P < 2 ^ 24"
    and "0 \<le> sid" "sid < 2 ^ 32"
  shows "sendStatusMessage i sid level code description c
         = Returns (upd i (\<lambda>s. s\<lparr>socket_written := socket_written s @ [chunk_stream C 0 3 0 20 sid P]\<rparr>) c)"
proof -
  obtain p where p: "make_packet 3 20 (Some P) sid 0 = Inr p" by (simp add: make_packet_def)
  have "send_packet i (Inr p) c
        = Returns (upd i (\<lambda>s. s\<lparr>socket_written := socket_written s @ [chunk_stream C 0 3 0 20 sid P]\<rparr>) c)"
    using assms(1,2,3) p _ _ _ _ assms(5,6) _ _ assms(7,8) by (rule send_packet_ok) simp_all
  then show ?thesis
    by (simp add: sendStatusMessage_def sendInvokeMessage_def assms(4) bindE_def p)
qed

text \<open>
  C6, as amended. A started session \<open>i\<close> gets a \<open>publish\<close> command whose stream name is a
  string, on a server that asks for no signature to publish, or for a local or IPC
  session, or with a signature that \<^verbatim>\<open>verifyAuth\<close> accepts; the path
  \<open>/appname/name\<close> (the name up to its first question mark) has a publisher in
  \<^verbatim>\<open>context.publishers\<close>. Then \<^verbatim>\<open>onPublish\<close> returns, and it has written one buffer to
  the socket of \<open>i\<close>, which a peer with the chunk size of \<open>i\<close> reads as one command
  message on the message stream of the command, the status \<open>error\<close> with the code
  \<open>NetStream.Publish.BadName\<close>. The registry of publishers, the registry of sessions
  and the idle players are as before, and so is every other session object (the
  incumbent's, when the incumbent is another session). Of the session \<open>i\<close>,
  \<open>isPublishing\<close> and the players are as before: \<open>isPublishing\<close> is false only if it
  was; and \<open>publishStreamPath\<close>, \<open>publishArgs\<close> and \<open>publishStreamId\<close> are those of the
  refused command.
\<close>

theorem duplicate_publish:
  assumes "heap c i = Some s0" "cur_packet s0 = Inr pp"
    and "0 \<le> stream_id (header pp)" "stream_id (header pp) < 2 ^ 32"
    and "isStarting s0"
    and "auth_publish s0 \<and> \<not> isLocal s0 \<and> \<not> isIPC s0
         \<longrightarrow> verifyAuth (split_q1 name) (js ''/'' @ appname s0 @ js ''/'' @ split_q0 name)"
    and "publishers c (js ''/'' @ appname s0 @ js ''/'' @ split_q0 name) = Some p"
    and "0 < outChunkSize s0"
  shows "\<exists>c' s'.
           onPublish verifyAuth i (JString name) c = Returns c'
         \<and> heap c' i = Some s'
         \<and> sent_commands s' = sent_commands s0 @ [[(20, stream_id (header pp), Inr (JObject badname_status))]]
         \<and> isPublishing s' = isPublishing s0 \<and> players s' = players s0
         \<and> publishStreamPath s' = js ''/'' @ appname s0 @ js ''/'' @ split_q0 name
         \<and> publishArgs s' = split_q1 name
         \<and> publishStreamId s' = stream_id (header pp)
         \<and> (\<forall>j. j \<noteq> i \<longrightarrow> heap c' j = heap c j)
         \<and> publishers c' = publishers c \<and> sessions c' = sessions c \<and> idlePlayers c' = idlePlayers c"
proof -
  define path where "path = js ''/'' @ appname s0 @ js ''/'' @ split_q0 name"
  define sid where "sid = stream_id (header pp)"
  define C where "C = nat (outChunkSize s0)"
  define s1 where "s1 = s0\<lparr>publishStreamPath := path, publishArgs := split_q1 name, publishStreamId := sid\<rparr>"
  define c0 where "c0 = emit_unless_ipc ''prePublish'' i
                        (upd i (\<lambda>ts. ts\<lparr>publishStreamPath := path, publishArgs := split_q1 name,
                                         publishStreamId := sid\<rparr>) c)"
  define data where "data = chunk_stream C 0 3 0 20 sid badname_payload"
  have oc: "outChunkSize s0 = int C" using assms(8) by (simp add: C_def)
  have C: "0 < C" "outChunkSize s1 = int C" using assms(8) by (simp_all add: C_def s1_def)
  have h0: "heap c0 i = Some s1" "\<And>j. j \<noteq> i \<Longrightarrow> heap c0 j = heap c j"
    "publishers c0 = publishers c" "sessions c0 = sessions c" "idlePlayers c0 = idlePlayers c"
    using assms(1) by (simp_all add: c0_def emit_unless_ipc_def upd_def emit_def s1_def)
  have ne: "badname_payload \<noteq> []" "length badname_payload < 2 ^ 24"
    using badname_encoded(2) by auto
  have send: "sendStatusMessage i sid (JString (js ''error'')) (JString (js ''NetStream.Publish.BadName''))
                (JString (js ''Stream already publishing'')) c0
              = Returns (upd i (\<lambda>s. s\<lparr>socket_written := socket_written s @ [data]\<rparr>) c0)"
    unfolding data_def
    using h0(1) C(2,1) badname_encoded(1) [unfolded badname_status_def] ne assms(3,4) [folded sid_def]
    by (rule sendStatusMessage_ok)
  define c' where "c' = upd i (\<lambda>s. s\<lparr>socket_written := socket_written s @ [data]\<rparr>) c0"
  define s' where "s' = s1\<lparr>socket_written := socket_written s1 @ [data]\<rparr>"
  have gate: "\<not> (auth_publish s0 \<and> \<not> isLocal s0 \<and> \<not> isIPC s0 \<and> \<not> verifyAuth (split_q1 name) path)"
    using assms(6) by (auto simp add: path_def)
  have run: "onPublish verifyAuth i (JString name) c = Returns c'"
    using gate assms(5)
    by (auto simp add: onPublish_def with_this_def assms(1,2) liftE_def Let_def path_def [symmetric]
          sid_def [symmetric] c0_def [symmetric] h0(3) assms(7) [folded path_def] send c'_def)
  have h1: "heap c' i = Some s'"
    "\<And>j. j \<noteq> i \<Longrightarrow> heap c' j = heap c j"
    "publishers c' = publishers c" "sessions c' = sessions c" "idlePlayers c' = idlePlayers c"
    using h0 by (simp_all add: c'_def upd_def s'_def)
  obtain h where rec: "received (int C) data = Inr [(h, badname_payload)]"
      "type_id h = 20" "stream_id h = sid"
    using received_chunk_stream [of 0 sid 3 badname_payload C 0 20] ne assms(3,4) [folded sid_def] C(1)
    unfolding data_def by auto
  have sc: "sent_commands s' = sent_commands s0 @ [[(20, sid, Inr (JObject badname_status))]]"
    by (simp add: sent_commands_def s'_def s1_def oc rec badname_encoded(3))
  have fields: "isPublishing s' = isPublishing s0" "players s' = players s0"
    "publishStreamPath s' = path" "publishArgs s' = split_q1 name" "publishStreamId s' = sid"
    by (simp_all add: s'_def s1_def)
  show ?thesis
    using run h1 sc fields unfolding path_def sid_def by (intro exI [of _ c'] exI [of _ s']) simp
qed

text \<open>
  The witness of C6: session \<open>A\<close>, which publishes nothing, sends \<open>publish\<close> for
  \<open>stream1\<close> on message stream 1, and \<open>B\<close> publishes \<open>/live/stream1\<close> with the player
  \<open>P\<close>.
\<close>

theorem duplicate_publish_witness:
  "heap (one_publisher (publish_attempt ''A'' False)) ''A'' = Some (publish_attempt ''A'' False)
   \<and> isStarting (publish_attempt ''A'' False)
   \<and> \<not> auth_publish (publish_attempt ''A'' False)
   \<and> publishers (one_publisher (publish_attempt ''A'' False)) (js ''/live/stream1'') = Some ''B''
   \<and> 0 < outChunkSize (publish_attempt ''A'' False)
   \<and> (\<exists>c' s'.
         onPublish (\<lambda>sign path. True) ''A'' (JString (js ''stream1''))
           (one_publisher (publish_attempt ''A'' False)) = Returns c'
       \<and> heap c' ''A'' = Some s'
       \<and> sent_commands s' = [[(20, 1, Inr (JObject badname_status))]]
       \<and> isPublishing s' = False
       \<and> publishStreamPath s' = js ''/live/stream1'' \<and> publishStreamId s' = 1
       \<and> map_option (\<lambda>s. (isPublishing s, players s)) (heap c' ''B'') = Some (True, [''P''])
       \<and> publishers c' (js ''/live/stream1'') = Some ''B'')"
proof -
  define a where "a = publish_attempt ''A'' False"
  define pp where "pp = (RtmpPacket_create 0 3)
          \<lparr>header := \<lparr>fmt = 0, cid = 3, timestamp = 0, len = 0, type_id = 20, stream_id = 1\<rparr>\<rparr>"
  have path: "js ''/'' @ appname a @ js ''/'' @ split_q0 (js ''stream1'') = js ''/live/stream1''"
    unfolding a_def by code_simp
  have h: "heap (one_publisher a) ''A'' = Some a"
    by (simp add: one_publisher_def accept_def a_def publish_attempt_def dispatching_def new_session_def
          parser.extend_def session.fields_def)
  have cp: "cur_packet a = Inr pp"
    by (simp add: a_def pp_def publish_attempt_def dispatching_def cur_packet_def new_session_def
          parser.extend_def session.fields_def new_parser_def)
  have sid: "stream_id (header pp) = 1" by (simp add: pp_def)
  have st: "isStarting a" "\<not> auth_publish a" "outChunkSize a = 128" "isPublishing a = False"
    "sent_commands a = []"
    by (simp_all add: a_def publish_attempt_def dispatching_def new_session_def
          parser.extend_def session.fields_def sent_commands_def new_parser_def)
  have pub: "publishers (one_publisher a) (js ''/live/stream1'') = Some ''B''"
    by (simp add: one_publisher_def)
  have b: "map_option (\<lambda>s. (isPublishing s, players s)) (heap (one_publisher a) ''B'') = Some (True, [''P''])"
    by (simp add: one_publisher_def accept_def a_def publish_attempt_def dispatching_def new_session_def
          parser.extend_def session.fields_def incumbent_def new_ctx_def)
  have ne: "''B'' \<noteq> ''A''" by simp
  have hyps: "0 \<le> stream_id (header pp)" "stream_id (header pp) < 2 ^ 32"
    "auth_publish a \<and> \<not> isLocal a \<and> \<not> isIPC a
       \<longrightarrow> (\<lambda>sign path. True) (split_q1 (js ''stream1'')) (js ''/'' @ appname a @ js ''/'' @ split_q0 (js ''stream1''))"
    "publishers (one_publisher a) (js ''/'' @ appname a @ js ''/'' @ split_q0 (js ''stream1'')) = Some ''B''"
    "0 < outChunkSize a"
    by (simp_all add: sid st path pub)
  obtain c' s' where r:
      "onPublish (\<lambda>sign path. True) ''A'' (JString (js ''stream1'')) (one_publisher a) = Returns c'"
      "heap c' ''A'' = Some s'"
      "sent_commands s' = sent_commands a @ [[(20, stream_id (header pp), Inr (JObject badname_status))]]"
      "isPublishing s' = isPublishing a"
      "publishStreamPath s' = js ''/'' @ appname a @ js ''/'' @ split_q0 (js ''stream1'')"
      "publishStreamId s' = stream_id (header pp)"
      "\<forall>j. j \<noteq> ''A'' \<longrightarrow> heap c' j = heap (one_publisher a) j"
      "publishers c' = publishers (one_publisher a)"
    using duplicate_publish [OF h cp hyps(1,2) st(1) hyps(3,4,5)] by blast
  have b': "heap c' ''B'' = heap (one_publisher a) ''B''" using r(7) by simp
  have "onPublish (\<lambda>sign path. True) ''A'' (JString (js ''stream1'')) (one_publisher a) = Returns c'
       \<and> heap c' ''A'' = Some s'
       \<and> sent_commands s' = [[(20, 1, Inr (JObject badname_status))]]
       \<and> isPublishing s' = False
       \<and> publishStreamPath s' = js ''/live/stream1'' \<and> publishStreamId s' = 1
       \<and> map_option (\<lambda>s. (isPublishing s, players s)) (heap c' ''B'') = Some (True, [''P''])
       \<and> publishers c' (js ''/live/stream1'') = Some ''B''"
    using r(1-6) by (simp add: st sid path b' b r(8) pub)
  then have ex: "\<exists>c' s'.
         onPublish (\<lambda>sign path. True) ''A'' (JString (js ''stream1'')) (one_publisher a) = Returns c'
       \<and> heap c' ''A'' = Some s'
       \<and> sent_commands s' = [[(20, 1, Inr (JObject badname_status))]]
       \<and> isPublishing s' = False
       \<and> publishStreamPath s' = js ''/live/stream1'' \<and> publishStreamId s' = 1
       \<and> map_option (\<lambda>s. (isPublishing s, players s)) (heap c' ''B'') = Some (True, [''P''])
       \<and> publishers c' (js ''/live/stream1'') = Some ''B''"
    by blast
  show ?thesis
    unfolding a_def [symmetric] using h st(1,2,3) pub ex by simp
qed

text \<open>
  The counterexamples of C6. (1) Session \<open>A\<close> publishes \<open>/live/other\<close> and sends
  \<open>publish\<close> for \<open>stream1\<close>, which \<open>B\<close> publishes: \<open>NetStream.Publish.BadName\<close> is sent and
  the registry is as before, but \<open>isPublishing\<close> of \<open>A\<close> is true, not false, and its
  \<open>publishStreamPath\<close> is now \<open>/live/stream1\<close>. So when \<open>A\<close> then deletes its stream 1,
  \<^verbatim>\<open>onDeleteStream\<close> removes the entry of \<open>/live/stream1\<close>, which is the entry of \<open>B\<close>,
  from the registry, while \<open>B\<close> goes on publishing and \<open>/live/other\<close> keeps the entry of
  \<open>A\<close>. (2) On a server that asks for a signature to publish, a command whose
  signature is refused is answered with \<open>NetStream.publish.Unauthorized\<close>, and no
  \<open>BadName\<close> is sent, since the signature is looked at before the registry. (3) A
  session that is not started (\<open>isStarting\<close> is false) is sent nothing.
\<close>

theorem duplicate_publish_counterexample:
  "(case onPublish (\<lambda>sign path. True) ''A'' (JString (js ''stream1'')) (one_publisher busy_publisher) of
      Returns c1 \<Rightarrow>
        Some (map_option (\<lambda>s. (isPublishing s, publishStreamPath s = js ''/live/stream1'',
                                sent_commands s = [[(20, 1, Inr (JObject badname_status))]]))
                (heap c1 ''A''),
              publishers c1 (js ''/live/stream1''), publishers c1 (js ''/live/other''),
              (case onDeleteStream ''A'' 1 c1 of
                 Returns c2 \<Rightarrow>
                   Some (publishers c2 (js ''/live/stream1''), publishers c2 (js ''/live/other''),
                         map_option isPublishing (heap c2 ''B''))
               | Throws e c2 \<Rightarrow> None))
    | Throws e c1 \<Rightarrow> None)
   = Some (Some (True, True, True), Some ''B'', Some ''A'',
           Some (None, Some ''A'', Some True))
   \<and> (case onPublish (\<lambda>sign path. False) ''A'' (JString (js ''stream1''))
             (one_publisher (publish_attempt ''A'' True)) of
        Returns c1 \<Rightarrow>
          map_option (\<lambda>s. sent_commands s
                = [[(20, 1, Inr (JObject (status_opt (JString (js ''error''))
                                            (JString (js ''NetStream.publish.Unauthorized''))
                                            (JString (js ''Authorization required.'')))))]])
            (heap c1 ''A'')
      | Throws e c1 \<Rightarrow> None)
     = Some True
   \<and> (case onPublish (\<lambda>sign path. True) ''A'' (JString (js ''stream1''))
             (one_publisher ((publish_attempt ''A'' False)\<lparr>isStarting := False\<rparr>)) of
        Returns c1 \<Rightarrow> map_option sent_commands (heap c1 ''A'')
      | Throws e c1 \<Rightarrow> None)
     = Some []"
  by code_simp

section \<open>Joining a publisher that has sent no sequence header\<close>

text \<open>
  C5 (a defect of the code). The first audio message of the publisher \<open>P\<close> is a raw
  AAC frame, \<open>af 01 21 10\<close>: \<^verbatim>\<open>rtmpAudioHandler\<close> sets \<open>audioCodec = 10\<close>, and since the
  second byte is not 0 it stores no sequence header and leaves \<open>isFirstAudioReceived\<close>
  false. The subscriber \<open>B\<close> (play stream id 1, path \<open>/live/stream1\<close>) now joins:
  \<^verbatim>\<open>onStartPlay\<close> adds \<open>B\<close> to the players of \<open>P\<close>, finds no metadata, and for the audio
  codec 10 takes \<^verbatim>\<open>publisher.aacSequenceHeader\<close>, which is \<^verbatim>\<open>null\<close>, as the payload of
  the packet; \<^verbatim>\<open>packet.payload.length\<close> raises a \<^verbatim>\<open>TypeError\<close>. Nothing has been written
  to the socket of \<open>B\<close>, and \<open>isPlaying\<close> of \<open>B\<close> is still false. The same happens for the
  video codec 7 when the first video message is an inter frame, \<open>27 01 00 00 00 41\<close>:
  \<open>videoCodec\<close> is 7 and \<open>avcSequenceHeader\<close> is \<^verbatim>\<open>null\<close>.
\<close>

theorem start_play_without_sequence_header:
  "(case on_audio ''P'' [0xaf, 0x01, 0x21, 0x10] live_stream of
      Returns c1 \<Rightarrow>
        Some (map_option (\<lambda>s. (audioCodec s, isFirstAudioReceived s, aacSequenceHeader s, metaData s))
                (heap c1 ''P''),
              (case onStartPlay ''B'' (accept subscriber c1) of
                 Throws e c2 \<Rightarrow>
                   Some (e, map_option (\<lambda>s. (socket_written s, isPlaying s)) (heap c2 ''B''),
                         map_option players (heap c2 ''P''))
               | Returns c2 \<Rightarrow> None))
    | Throws e c1 \<Rightarrow> None)
   = Some (Some (10, False, None, None),
           Some (TypeError, Some ([], False), Some [''B'']))
   \<and> (case on_video ''P'' [0x27, 0x01, 0x00, 0x00, 0x00, 0x41] live_stream of
      Returns c1 \<Rightarrow>
        Some (map_option (\<lambda>s. (videoCodec s, isFirstVideoReceived s, avcSequenceHeader s, metaData s,
                                audioCodec s))
                (heap c1 ''P''),
              (case onStartPlay ''B'' (accept subscriber c1) of
                 Throws e c2 \<Rightarrow>
                   Some (e, map_option (\<lambda>s. (socket_written s, isPlaying s)) (heap c2 ''B''),
                         map_option players (heap c2 ''P''))
               | Returns c2 \<Rightarrow> None))
    | Throws e c1 \<Rightarrow> None)
   = Some (Some (7, False, None, None, 0),
           Some (TypeError, Some ([], False), Some [''B'']))"
  by code_simp

section \<open>The GOP cache and the sequence headers\<close>

text \<open>
  C7 (a defect of the code). \<^verbatim>\<open>rtmpAudioHandler\<close> keeps a message out of the GOP cache
  when \<^verbatim>\<open>this.aacSequenceHeader !== null && payload[1] === 0\<close>, which asks whether a
  sequence header has been stored, not whether the message is one; and a sequence
  header is stored only while \<open>isFirstAudioReceived\<close> is false. The publisher \<open>P\<close> sends
  an AVC sequence header, \<open>17 00 00 00 00 01 42 00 1e ff\<close> (the queues are made, empty,
  and the header is kept out of them), then an audio message of the codec 2,
  \<open>2f ff fb 90\<close> (\<open>isFirstAudioReceived\<close> becomes true; the message is cached), then an
  AAC sequence header, \<open>af 00 12 10\<close>: codec 10, second byte 0. No sequence header is
  stored, \<open>aacSequenceHeader\<close> is \<^verbatim>\<open>null\<close>, and the chunks built from the AAC sequence
  header are the second member of the queue.
\<close>

theorem aac_sequence_header_cached:
  "(case on_video ''P'' [0x17, 0x00, 0x00, 0x00, 0x00, 0x01, 0x42, 0x00, 0x1e, 0xff] live_stream of
      Returns c1 \<Rightarrow>
        Some (map_option (\<lambda>s. (videoCodec s, rtmpGopCacheQueue s)) (heap c1 ''P''),
              (case on_audio ''P'' [0x2f, 0xff, 0xfb, 0x90] c1 of
                 Returns c2 \<Rightarrow>
                   Some (map_option (\<lambda>s. (audioCodec s, isFirstAudioReceived s, aacSequenceHeader s))
                           (heap c2 ''P''),
                         (case on_audio ''P'' [0xaf, 0x00, 0x12, 0x10] c2 of
                            Returns c3 \<Rightarrow>
                              map_option (\<lambda>s. (audioCodec s, aacSequenceHeader s, rtmpGopCacheQueue s,
                                                map_option (map (\<lambda>tag. case tag of FlvTag pk \<Rightarrow> payload pk))
                                                  (flvGopCacheQueue s)))
                                (heap c3 ''P'')
                          | Throws e c3 \<Rightarrow> None))
               | Throws e c2 \<Rightarrow> None))
    | Throws e c1 \<Rightarrow> None)
   = Some (Some (7, Some []),
           Some (Some (2, True, None),
                 Some (2, None,
                       Some [[0x04, 0, 0, 0, 0, 0, 4, 8, 0, 0, 0, 0, 0x2f, 0xff, 0xfb, 0x90],
                             [0x04, 0, 0, 0, 0, 0, 4, 8, 0, 0, 0, 0, 0xaf, 0x00, 0x12, 0x10]],
                       Some [Some [0x2f, 0xff, 0xfb, 0x90], Some [0xaf, 0x00, 0x12, 0x10]])))"
  by code_simp

section \<open>Pause\<close>

text \<open>
  C8 (a defect of the code). \<^verbatim>\<open>onPause\<close> calls
  \<^verbatim>\<open>sendStatusMessage(this.playStreamId, c, d)\<close> with three arguments where the function
  takes four, \<open>(sid, level, code, description)\<close>. For the subscriber \<open>B\<close> (play stream id 1)
  and a pause command with flag \<open>true\<close>, the session ends with \<open>isPause = true\<close> and has
  written two buffers: the StreamEOF event for stream 1, and an \<open>onStatus\<close> command on
  stream 1 whose \<open>info\<close> object has \<open>level = 'NetStream.Pause.Notify'\<close>,
  \<open>code = 'Paused live'\<close> and an undefined \<open>description\<close>, where the claim has
  \<open>code = 'NetStream.Pause.Notify'\<close>. With flag \<open>false\<close> and no publisher on the path, the
  buffers are the StreamBegin event and an \<open>onStatus\<close> command with
  \<open>level = 'NetStream.Unpause.Notify'\<close> and \<open>code = 'Unpaused live'\<close>.
\<close>

theorem pause_status_message:
  "(case onPause ''B'' True (accept subscriber new_ctx) of
      Returns c \<Rightarrow>
        map_option (\<lambda>s. (isPause s, hd (socket_written s),
            map (\<lambda>b. map_sum id (map (\<lambda>(h, pl). (type_id h, stream_id h, decodeAMF0Cmd pl)))
                        (received 128 b)) (tl (socket_written s))))
          (heap c ''B'')
    | Throws e c \<Rightarrow> None)
   = Some (True,
       [0x02, 0, 0, 0, 0, 0, 0x06, 0x04, 0, 0, 0, 0, 0, 1, 0, 0, 0, 1],
       [Inr [(20, 1, Inr (JObject
           [(js ''cmd'', JString (js ''onStatus'')),
            (js ''transId'', JNumber 0),
            (js ''cmdObj'', JNull),
            (js ''info'', JObject [(js ''level'', JString (js ''NetStream.Pause.Notify'')),
                                   (js ''code'', JString (js ''Paused live'')),
                                   (js ''description'', JUndefined)])]))]])
   \<and> (case onPause ''B'' False (accept subscriber new_ctx) of
      Returns c \<Rightarrow>
        map_option (\<lambda>s. (isPause s, hd (socket_written s),
            map (\<lambda>b. map_sum id (map (\<lambda>(h, pl). (type_id h, stream_id h, decodeAMF0Cmd pl)))
                        (received 128 b)) (tl (socket_written s))))
          (heap c ''B'')
    | Throws e c \<Rightarrow> None)
   = Some (False,
       [0x02, 0, 0, 0, 0, 0, 0x06, 0x04, 0, 0, 0, 0, 0, 0, 0, 0, 0, 1],
       [Inr [(20, 1, Inr (JObject
           [(js ''cmd'', JString (js ''onStatus'')),
            (js ''transId'', JNumber 0),
            (js ''cmdObj'', JNull),
            (js ''info'', JObject [(js ''level'', JString (js ''NetStream.Unpause.Notify'')),
                                   (js ''code'', JString (js ''Unpaused live'')),
                                   (js ''description'', JUndefined)])]))]])"
  by code_simp

section \<open>Stopping a session\<close>

text \<open>
  C9 (a defect of the code). Session \<open>A\<close> sends \<open>play\<close> for \<open>stream1\<close> on message stream
  1 and the signature is refused: \<^verbatim>\<open>onPlay\<close> has set \<open>playStreamId = 1\<close> and the path, sent
  \<open>NetStream.play.Unauthorized\<close> and returned, so the session is started, neither idling
  nor playing, and the path has no publisher. Now \<^verbatim>\<open>stop()\<close> sets \<open>isStarting = false\<close>
  and calls \<^verbatim>\<open>onDeleteStream\<close>, where \<^verbatim>\<open>context.publishers.get\<close> gives \<^verbatim>\<open>undefined\<close>, the
  test \<^verbatim>\<open>publisherId !== null\<close> lets it through, and
  \<^verbatim>\<open>context.sessions.get(publisherId).players\<close> raises a \<^verbatim>\<open>TypeError\<close>. The call ends
  there: \<open>A\<close> is still a key of \<^verbatim>\<open>context.sessions\<close> and its socket is not destroyed. A
  second \<^verbatim>\<open>stop()\<close> returns at once, since \<open>isStarting\<close> is false, and \<open>A\<close> stays in
  the registry.
\<close>

theorem stop_after_refused_play:
  "(case onPlay (\<lambda>sign path. False) ''A'' (JString (js ''stream1'')) (accept guarded_viewer new_ctx) of
      Returns c1 \<Rightarrow>
        Some (map_option (\<lambda>s. (isStarting s, isIdling s, isPlaying s, playStreamId s,
                                playStreamPath s = js ''/live/stream1'',
                                publishers c1 (playStreamPath s)))
                (heap c1 ''A''),
              (case stop ''A'' c1 of
                 Throws e c2 \<Rightarrow>
                   Some (e, sessions c2,
                         map_option (\<lambda>s. (isStarting s, socket_destroyed s)) (heap c2 ''A''),
                         (case stop ''A'' c2 of
                            Returns c3 \<Rightarrow> Some (sessions c3)
                          | Throws e3 c3 \<Rightarrow> None))
               | Returns c2 \<Rightarrow> None))
    | Throws e c1 \<Rightarrow> None)
   = Some (Some (True, False, False, 1, True, None),
           Some (TypeError, [''A''], Some (False, False), Some [''A'']))"
  by code_simp

end
